theory Spec2Isabelle
  imports Complex_Main
begin

section \<open>A decoder-only transformer (GPT.py) as HOL functions\<close>

text \<open>
  The program is a PyTorch module tree. Tensors are modelled as a shape together with the
  nested list of their entries, so that \<open>x.shape\<close> is available also for tensors with
  an empty dimension, and every shape check of the numerical library is a branch on the
  shape component. Entries are real numbers: rounding, overflow and NaN of float32 are
  not modelled, except where the program divides zero by zero or raises.
  Exceptions are values of type \<open>error\<close>; a call returns \<open>error + result\<close>.
  The random generator of the library is an explicit state of type \<open>'g\<close>, threaded
  through every call that may draw from it. The placement of tensors on a device is not
  modelled.

  A batch is the list of its elements, and every operation of the program acts on each
  batch element by itself; an element is a matrix with one row per position.
\<close>

subsection \<open>Errors\<close>

datatype error = IndexError | RuntimeError | ValueError | ZeroDivisionError

definition bindE :: "error + 'a \<Rightarrow> ('a \<Rightarrow> error + 'b) \<Rightarrow> error + 'b" where
  "bindE r f = (case r of Inl e \<Rightarrow> Inl e | Inr x \<Rightarrow> f x)"

subsection \<open>Tensors\<close>

type_synonym tensor3 = "(nat \<times> nat \<times> nat) \<times> real list list list"
type_synonym tensor2 = "(nat \<times> nat) \<times> real list list"
type_synonym itensor2 = "(nat \<times> nat) \<times> int list list"

text \<open>
  An integer tensor of any rank, as its shape, its strides (the step in storage, counted
  in entries, between neighbours along each dimension), and its entries in row-major
  order of the indices, with one stride for every dimension. A contiguous tensor of
  shape (B, T) has the strides (T, 1); its transpose has the shape (T, B) and the strides
  (1, T).
\<close>
type_synonym itensor = "nat list \<times> nat list \<times> int list"

definition wf2 :: "(nat \<times> nat) \<times> 'a list list \<Rightarrow> bool" where
  "wf2 x = (case x of ((B, T), d) \<Rightarrow> length d = B \<and> list_all (\<lambda>r. length r = T) d)"

definition wf3 :: "(nat \<times> nat \<times> nat) \<times> 'a list list list \<Rightarrow> bool" where
  "wf3 x = (case x of ((B, T, C), d) \<Rightarrow>
     length d = B \<and> list_all (\<lambda>m. length m = T \<and> list_all (\<lambda>v. length v = C) m) d)"

subsection \<open>The random generator of the library\<close>

text \<open>
  The library's sampling functions are parameters: \<open>randn\<close> draws a standard normal
  number, \<open>rand\<close> a uniform number of [0, 1), and \<open>multinomial\<close> is
  \<open>torch.multinomial(probs, num_samples=1)\<close> on a matrix of probabilities, one row per
  batch element, returning one index per row.
\<close>

record 'g rng =
  randn :: "'g \<Rightarrow> real \<times> 'g"
  rand :: "'g \<Rightarrow> real \<times> 'g"
  multinomial :: "real list list \<Rightarrow> 'g \<Rightarrow> error + (nat list \<times> 'g)"

fun draws :: "('g \<Rightarrow> 'a \<times> 'g) \<Rightarrow> nat \<Rightarrow> 'g \<Rightarrow> 'a list \<times> 'g" where
  "draws f 0 g = ([], g)"
| "draws f (Suc n) g =
     (case f g of (x, g1) \<Rightarrow> case draws f n g1 of (xs, g2) \<Rightarrow> (x # xs, g2))"

fun mapS :: "('a \<Rightarrow> 'g \<Rightarrow> 'b \<times> 'g) \<Rightarrow> 'a list \<Rightarrow> 'g \<Rightarrow> 'b list \<times> 'g" where
  "mapS f [] g = ([], g)"
| "mapS f (x # xs) g =
     (case f x g of (y, g1) \<Rightarrow> case mapS f xs g1 of (ys, g2) \<Rightarrow> (y # ys, g2))"

definition init_normal :: "'g rng \<Rightarrow> real \<Rightarrow> real \<Rightarrow> 'g \<Rightarrow> real \<times> 'g" where
  "init_normal R mean std g = (case randn R g of (z, g1) \<Rightarrow> (mean + std * z, g1))"

definition init_uniform :: "'g rng \<Rightarrow> real \<Rightarrow> real \<Rightarrow> 'g \<Rightarrow> real \<times> 'g" where
  "init_uniform R a b g = (case rand R g of (u, g1) \<Rightarrow> (a + (b - a) * u, g1))"

subsection \<open>Vectors\<close>

definition dot :: "real list \<Rightarrow> real list \<Rightarrow> real" where
  "dot a b = sum_list (map2 (*) a b)"

definition vadd :: "real list \<Rightarrow> real list \<Rightarrow> real list" where
  "vadd a b = map2 (+) a b"

subsection \<open>nn.Linear\<close>

record linear =
  in_features :: nat
  out_features :: nat
  lin_weight :: "real list list"
  lin_bias :: "real list option"

definition wf_linear :: "linear \<Rightarrow> bool" where
  "wf_linear l = (length (lin_weight l) = out_features l
     \<and> list_all (\<lambda>w. length w = in_features l) (lin_weight l)
     \<and> (case lin_bias l of None \<Rightarrow> True | Some b \<Rightarrow> length b = out_features l))"

definition Linear_vec :: "linear \<Rightarrow> real list \<Rightarrow> real list" where
  "Linear_vec l v =
     (let y = map (\<lambda>w. dot v w) (lin_weight l)
      in case lin_bias l of None \<Rightarrow> y | Some b \<Rightarrow> vadd y b)"

fun Linear_forward :: "linear \<Rightarrow> tensor3 \<Rightarrow> error + tensor3" where
  "Linear_forward l ((B, T, C), d) =
     (if C = in_features l
      then Inr ((B, T, out_features l), map (map (Linear_vec l)) d)
      else Inl RuntimeError)"

text \<open>
  The constructor draws weight and bias from a uniform distribution with bound
  \<open>1 / sqrt in_features\<close> (the library's default).
\<close>

definition Linear_init :: "'g rng \<Rightarrow> nat \<Rightarrow> nat \<Rightarrow> bool \<Rightarrow> 'g \<Rightarrow> linear \<times> 'g" where
  "Linear_init R n_in n_out with_bias g =
     (let bound = 1 / sqrt (real n_in) in
      case draws (draws (init_uniform R (- bound) bound) n_in) n_out g of (w, g1) \<Rightarrow>
        if with_bias
        then (case draws (init_uniform R (- bound) bound) n_out g1 of (b, g2) \<Rightarrow>
               (\<lparr>in_features = n_in, out_features = n_out, lin_weight = w, lin_bias = Some b\<rparr>, g2))
        else (\<lparr>in_features = n_in, out_features = n_out, lin_weight = w, lin_bias = None\<rparr>, g1))"

subsection \<open>nn.Embedding\<close>

record embedding =
  num_embeddings :: nat
  embedding_dim :: nat
  emb_weight :: "real list list"

definition wf_embedding :: "embedding \<Rightarrow> bool" where
  "wf_embedding e = (length (emb_weight e) = num_embeddings e
     \<and> list_all (\<lambda>w. length w = embedding_dim e) (emb_weight e))"

definition valid_index :: "nat \<Rightarrow> int \<Rightarrow> bool" where
  "valid_index n i = (0 \<le> i \<and> i < int n)"

text \<open>Lookup of a matrix of indices; an index outside the table raises IndexError.\<close>

fun Embedding_forward :: "embedding \<Rightarrow> itensor2 \<Rightarrow> error + tensor3" where
  "Embedding_forward e ((B, T), rows) =
     (if list_all (list_all (valid_index (num_embeddings e))) rows
      then Inr ((B, T, embedding_dim e), map (map (\<lambda>i. emb_weight e ! nat i)) rows)
      else Inl IndexError)"

text \<open>Lookup of \<open>torch.arange(T)\<close>, the positions \<open>0 .. T - 1\<close>.\<close>

definition Embedding_arange :: "embedding \<Rightarrow> nat \<Rightarrow> error + tensor2" where
  "Embedding_arange e T =
     (if list_all (valid_index (num_embeddings e)) (map int [0..<T])
      then Inr ((T, embedding_dim e), map (\<lambda>i. emb_weight e ! nat i) (map int [0..<T]))
      else Inl IndexError)"

definition Embedding_init :: "'g rng \<Rightarrow> nat \<Rightarrow> nat \<Rightarrow> 'g \<Rightarrow> embedding \<times> 'g" where
  "Embedding_init R n n_dim g =
     (case draws (draws (init_normal R 0 1) n_dim) n g of (w, g1) \<Rightarrow>
        (\<lparr>num_embeddings = n, embedding_dim = n_dim, emb_weight = w\<rparr>, g1))"

subsection \<open>nn.LayerNorm\<close>

record layernorm =
  normalized_shape :: nat
  ln_weight :: "real list"
  ln_bias :: "real list"
  ln_eps :: real

definition wf_layernorm :: "layernorm \<Rightarrow> bool" where
  "wf_layernorm n = (length (ln_weight n) = normalized_shape n
     \<and> length (ln_bias n) = normalized_shape n)"

definition LayerNorm_vec :: "layernorm \<Rightarrow> real list \<Rightarrow> real list" where
  "LayerNorm_vec n v =
     (let c = real (length v);
          mu = sum_list v / c;
          var = sum_list (map (\<lambda>x. (x - mu)\<^sup>2) v) / c
      in map2 (\<lambda>x (w, b). (x - mu) / sqrt (var + ln_eps n) * w + b)
           v (zip (ln_weight n) (ln_bias n)))"

fun LayerNorm_forward :: "layernorm \<Rightarrow> tensor3 \<Rightarrow> error + tensor3" where
  "LayerNorm_forward n ((B, T, C), d) =
     (if C = normalized_shape n
      then Inr ((B, T, C), map (map (LayerNorm_vec n)) d)
      else Inl RuntimeError)"

definition LayerNorm_init :: "nat \<Rightarrow> layernorm" where
  "LayerNorm_init n =
     \<lparr>normalized_shape = n, ln_weight = replicate n 1, ln_bias = replicate n 0,
      ln_eps = 1 / 100000\<rparr>"

subsection \<open>nn.Dropout\<close>

record dropout_layer =
  dp :: real
  training :: bool

definition Dropout_init :: "real \<Rightarrow> error + dropout_layer" where
  "Dropout_init p =
     (if p < 0 \<or> 1 < p then Inl ValueError else Inr \<lparr>dp = p, training = True\<rparr>)"

definition dropout1 :: "'g rng \<Rightarrow> real \<Rightarrow> real \<Rightarrow> 'g \<Rightarrow> real \<times> 'g" where
  "dropout1 R p x g = (case rand R g of (u, g1) \<Rightarrow> ((if u < p then 0 else x / (1 - p)), g1))"

text \<open>
  In evaluation mode, with probability zero, and on a tensor with no entry, dropout
  returns its input and draws nothing; with probability one it returns zeros.
\<close>

fun Dropout_forward :: "'g rng \<Rightarrow> dropout_layer \<Rightarrow> tensor3 \<Rightarrow> 'g \<Rightarrow> tensor3 \<times> 'g" where
  "Dropout_forward R l ((B, T, C), d) g =
     (if dp l = 0 \<or> \<not> training l \<or> B * T * C = 0 then (((B, T, C), d), g)
      else if dp l = 1 then (((B, T, C), map (map (map (\<lambda>x. 0))) d), g)
      else case mapS (mapS (mapS (dropout1 R (dp l)))) d g of
             (d1, g1) \<Rightarrow> (((B, T, C), d1), g1))"

definition dropout_off :: "dropout_layer \<Rightarrow> bool" where
  "dropout_off l = (dp l = 0 \<or> \<not> training l)"

subsection \<open>Softmax over scores that may be minus infinity\<close>

text \<open>
  A score is a real number or minus infinity, whose exponential is zero. The sum of the
  exponentials of a row is positive as soon as the row has a finite entry; a row without
  one does not arise in the program, since the diagonal of the scores is never masked.
\<close>

datatype xreal = NegInf | Fin real

fun exp_x :: "xreal \<Rightarrow> real" where
  "exp_x NegInf = 0"
| "exp_x (Fin r) = exp r"

definition softmax :: "xreal list \<Rightarrow> real list" where
  "softmax xs = map (\<lambda>x. exp_x x / sum_list (map exp_x xs)) xs"

definition softmax3 :: "(nat \<times> nat \<times> nat) \<times> xreal list list list \<Rightarrow> tensor3" where
  "softmax3 x = (fst x, map (map softmax) (snd x))"

subsection \<open>Tensor operations of the attention head\<close>

text \<open>
  \<open>q @ k.transpose(-2, -1)\<close> for \<open>q\<close> of shape (B, T, H) and \<open>k\<close> of shape (B', T', H').
  Both operands are computed from one input in this program, so that broadcasting over
  unequal batch sizes does not arise and is not modelled.
\<close>

fun matmul_nt :: "tensor3 \<Rightarrow> tensor3 \<Rightarrow> error + tensor3" where
  "matmul_nt ((B, T, H), q) ((B', T', H'), k) =
     (if B = B' \<and> H = H'
      then Inr ((B, T, T'), map2 (\<lambda>qs ks. map (\<lambda>qi. map (\<lambda>kj. dot qi kj) ks) qs) q k)
      else Inl RuntimeError)"

text \<open>
  \<open>wei @ v\<close> for \<open>wei\<close> of shape (B, T, S) and \<open>v\<close> of shape (B', S', H); again both
  operands have one batch size in this program.
\<close>

fun matmul :: "tensor3 \<Rightarrow> tensor3 \<Rightarrow> error + tensor3" where
  "matmul ((B, T, S), w) ((B', S', H), v) =
     (if B = B' \<and> S = S'
      then Inr ((B, T, H),
             map2 (\<lambda>ws vs. map (\<lambda>wi. map (\<lambda>c. dot wi (map (\<lambda>vj. vj ! c) vs)) [0..<H]) ws) w v)
      else Inl RuntimeError)"

text \<open>
  Python's \<open>n ** -0.5\<close> on an integer \<open>n\<close>: zero raised to a negative power raises
  ZeroDivisionError.
\<close>

definition pow_neg_half :: "nat \<Rightarrow> error + real" where
  "pow_neg_half n = (if n = 0 then Inl ZeroDivisionError else Inr (real n powr (- 1 / 2)))"

definition scale3 :: "real \<Rightarrow> tensor3 \<Rightarrow> tensor3" where
  "scale3 c x = (fst x, map (map (map (\<lambda>a. a * c))) (snd x))"

text \<open>\<open>torch.tril(torch.ones(n, n))\<close> and the slice \<open>tril[:T, :T] == 0\<close>.\<close>

definition tril_ones :: "nat \<Rightarrow> tensor2" where
  "tril_ones n =
     ((n, n), map (\<lambda>i. map (\<lambda>j. if j \<le> i then 1 else 0) [0..<n]) [0..<n])"

fun mask_slice :: "tensor2 \<Rightarrow> nat \<Rightarrow> (nat \<times> nat) \<times> bool list list" where
  "mask_slice ((r, c), d) T =
     ((min T r, min T c), map (\<lambda>row. map (\<lambda>a. a = 0) (take T row)) (take T d))"

text \<open>
  Broadcasting of a mask to the last two dimensions of the scores: a dimension of the
  mask must equal that of the scores, or be one.
\<close>

fun expand :: "nat \<Rightarrow> 'a list \<Rightarrow> 'a list" where
  "expand n [x] = replicate n x"
| "expand n xs = xs"

fun masked_fill ::
  "tensor3 \<Rightarrow> (nat \<times> nat) \<times> bool list list \<Rightarrow> error + (nat \<times> nat \<times> nat) \<times> xreal list list list"
where
  "masked_fill ((B, T, S), d) ((r, c), m) =
     (if (r = T \<or> r = 1) \<and> (c = S \<or> c = 1)
      then Inr ((B, T, S),
             map (\<lambda>s. map2 (map2 (\<lambda>b a. if b then NegInf else Fin a))
                        (expand T (map (expand S) m)) s) d)
      else Inl RuntimeError)"

subsection \<open>Hyperparameters\<close>

text \<open>
  The module-level constants of the program that the model reads:
  \<^verbatim>\<open>
  block_size = 64
  n_embed = 384
  n_layer = 8
  n_head = 8
  dropout = 0.2
  \<close>
  They are the environment of every constructor and of \<open>generate\<close>, and are a
  parameter \<open>h\<close> of these functions; \<open>hyperparameters\<close> has the values of the
  source. The other constants (device, batch size, learning rate, iteration counts) are
  not read by the model.
\<close>

record hyper =
  block_size :: nat
  n_embed :: nat
  n_layer :: nat
  n_head :: nat
  dropout :: real

definition hyperparameters :: hyper where
  "hyperparameters =
     \<lparr>block_size = 64, n_embed = 384, n_layer = 8, n_head = 8, dropout = 2 / 10\<rparr>"

subsection \<open>Head\<close>

text \<open>
  \<^verbatim>\<open>
  def forward(self, x):
      B,T,C = x.shape
      k = self.key(x)
      q = self.query(x)
      wei = q @ k.transpose(-2,-1) * k.shape[-1]**-0.5
      wei = wei.masked_fill(self.tril[:T, :T] == 0, float('-inf'))
      wei = F.softmax(wei, dim=-1)
      wei = self.dropout(wei)
      v = self.value(x)
      out = wei @ v
      return out
  \<close>
  The field \<open>val\<close> is the attribute \<open>value\<close> of the source.
\<close>

record head =
  key :: linear
  query :: linear
  val :: linear
  tril :: tensor2
  head_dropout :: dropout_layer

definition Head_init :: "'g rng \<Rightarrow> hyper \<Rightarrow> nat \<Rightarrow> 'g \<Rightarrow> error + (head \<times> 'g)" where
  "Head_init R h head_size g =
     (case Linear_init R (n_embed h) head_size False g of (k, g1) \<Rightarrow>
      case Linear_init R (n_embed h) head_size False g1 of (q, g2) \<Rightarrow>
      case Linear_init R (n_embed h) head_size False g2 of (v, g3) \<Rightarrow>
      bindE (Dropout_init (dropout h)) (\<lambda>dl.
        Inr (\<lparr>key = k, query = q, val = v, tril = tril_ones (block_size h),
              head_dropout = dl\<rparr>, g3)))"

fun Head_forward :: "'g rng \<Rightarrow> head \<Rightarrow> tensor3 \<Rightarrow> 'g \<Rightarrow> error + (tensor3 \<times> 'g)" where
  "Head_forward R a ((B, T, C), d) g =
     bindE (Linear_forward (key a) ((B, T, C), d)) (\<lambda>k.
     bindE (Linear_forward (query a) ((B, T, C), d)) (\<lambda>q.
     bindE (matmul_nt q k) (\<lambda>qk.
     bindE (pow_neg_half (snd (snd (fst k)))) (\<lambda>c.
     bindE (masked_fill (scale3 c qk) (mask_slice (tril a) T)) (\<lambda>wei.
     case Dropout_forward R (head_dropout a) (softmax3 wei) g of (wei, g1) \<Rightarrow>
     bindE (Linear_forward (val a) ((B, T, C), d)) (\<lambda>v.
     bindE (matmul wei v) (\<lambda>out. Inr (out, g1))))))))"

subsection \<open>MultiHeadAttention\<close>

fun replicateE :: "nat \<Rightarrow> ('g \<Rightarrow> error + ('a \<times> 'g)) \<Rightarrow> 'g \<Rightarrow> error + ('a list \<times> 'g)" where
  "replicateE 0 f g = Inr ([], g)"
| "replicateE (Suc n) f g =
     bindE (f g) (\<lambda>(x, g1). bindE (replicateE n f g1) (\<lambda>(xs, g2). Inr (x # xs, g2)))"

fun mapE :: "('a \<Rightarrow> 'g \<Rightarrow> error + ('b \<times> 'g)) \<Rightarrow> 'a list \<Rightarrow> 'g \<Rightarrow> error + ('b list \<times> 'g)" where
  "mapE f [] g = Inr ([], g)"
| "mapE f (x # xs) g =
     bindE (f x g) (\<lambda>(y, g1). bindE (mapE f xs g1) (\<lambda>(ys, g2). Inr (y # ys, g2)))"

text \<open>\<open>torch.cat(ts, dim=-1)\<close>: the list must not be empty, and the tensors agree on B and T.\<close>

fun cat2 :: "tensor3 \<Rightarrow> tensor3 \<Rightarrow> error + tensor3" where
  "cat2 ((B, T, C), a) ((B', T', C'), b) =
     (if B = B' \<and> T = T' then Inr ((B, T, C + C'), map2 (map2 (@)) a b)
      else Inl RuntimeError)"

fun cat_last :: "tensor3 list \<Rightarrow> error + tensor3" where
  "cat_last [] = Inl RuntimeError"
| "cat_last (t # ts) = foldl (\<lambda>acc u. bindE acc (\<lambda>a. cat2 a u)) (Inr t) ts"

text \<open>
  \<^verbatim>\<open>
  def forward(self, x):
      out = torch.cat([h(x) for h in self.heads], dim=-1)
      out = self.dropout(self.proj(out))
      return out
  \<close>
\<close>

record multi_head_attention =
  heads :: "head list"
  proj :: linear
  mha_dropout :: dropout_layer

definition MultiHeadAttention_init ::
  "'g rng \<Rightarrow> hyper \<Rightarrow> nat \<Rightarrow> nat \<Rightarrow> 'g \<Rightarrow> error + (multi_head_attention \<times> 'g)" where
  "MultiHeadAttention_init R h num_heads head_size g =
     bindE (replicateE num_heads (Head_init R h head_size) g) (\<lambda>(hs, g1).
     case Linear_init R (head_size * num_heads) (n_embed h) True g1 of (p, g2) \<Rightarrow>
     bindE (Dropout_init (dropout h)) (\<lambda>dl.
       Inr (\<lparr>heads = hs, proj = p, mha_dropout = dl\<rparr>, g2)))"

definition MultiHeadAttention_forward ::
  "'g rng \<Rightarrow> multi_head_attention \<Rightarrow> tensor3 \<Rightarrow> 'g \<Rightarrow> error + (tensor3 \<times> 'g)" where
  "MultiHeadAttention_forward R m x g =
     bindE (mapE (\<lambda>a. Head_forward R a x) (heads m) g) (\<lambda>(outs, g1).
     bindE (cat_last outs) (\<lambda>out.
     bindE (Linear_forward (proj m) out) (\<lambda>out.
       Inr (Dropout_forward R (mha_dropout m) out g1))))"

subsection \<open>FeedForward\<close>

text \<open>
  \<^verbatim>\<open>
  self.net = nn.Sequential(
      nn.Linear(n_embed, 4*n_embed),
      nn.ReLU(),
      nn.Linear(4*n_embed, n_embed),
      nn.Dropout(dropout)
  )
  \<close>
  The record has the layers of \<open>net\<close>; \<open>net[1]\<close> is the ReLU, which has no state.
\<close>

record feed_forward =
  net_0 :: linear
  net_2 :: linear
  net_3 :: dropout_layer

definition relu3 :: "tensor3 \<Rightarrow> tensor3" where
  "relu3 x = (fst x, map (map (map (\<lambda>a. max 0 a))) (snd x))"

definition FeedForward_init ::
  "'g rng \<Rightarrow> hyper \<Rightarrow> nat \<Rightarrow> 'g \<Rightarrow> error + (feed_forward \<times> 'g)" where
  "FeedForward_init R h ne g =
     (case Linear_init R ne (4 * ne) True g of (l0, g1) \<Rightarrow>
      case Linear_init R (4 * ne) ne True g1 of (l2, g2) \<Rightarrow>
      bindE (Dropout_init (dropout h)) (\<lambda>dl.
        Inr (\<lparr>net_0 = l0, net_2 = l2, net_3 = dl\<rparr>, g2)))"

definition FeedForward_forward ::
  "'g rng \<Rightarrow> feed_forward \<Rightarrow> tensor3 \<Rightarrow> 'g \<Rightarrow> error + (tensor3 \<times> 'g)" where
  "FeedForward_forward R f x g =
     bindE (Linear_forward (net_0 f) x) (\<lambda>y.
     bindE (Linear_forward (net_2 f) (relu3 y)) (\<lambda>z.
       Inr (Dropout_forward R (net_3 f) z g)))"

subsection \<open>Block\<close>

record block =
  sa :: multi_head_attention
  ffwd :: feed_forward
  ln1 :: layernorm
  ln2 :: layernorm

text \<open>
  \<^verbatim>\<open>
  def __init__(self, n_embed, n_head):
      head_size = n_embed // n_head
      self.sa = MultiHeadAttention(n_head, head_size)
      self.ffwd = FeedForward(n_embed)
      self.ln1 = nn.LayerNorm(n_embed)
      self.ln2 = nn.LayerNorm(n_embed)

  def forward(self, x):
      y = self.sa(x)
      x = self.ln1(x + y)
      y = self.ffwd(x)
      x = self.ln2(x + y)
      return x
  \<close>
  The arguments \<open>n_embed\<close> and \<open>n_head\<close> of the constructor are \<open>ne\<close> and \<open>nh\<close>;
  the heads and the projection read the module-level \<open>n_embed\<close>.

  Addition of two tensors of one shape, as the residual connections need it: the output
  of a sub-layer has the shape of its input whenever the sub-layer returns, so that
  broadcasting over unequal shapes does not arise and is not modelled.
\<close>

fun add3 :: "tensor3 \<Rightarrow> tensor3 \<Rightarrow> error + tensor3" where
  "add3 (s, a) (s', b) =
     (if s = s' then Inr (s, map2 (map2 vadd) a b) else Inl RuntimeError)"

text \<open>Python's \<open>a // b\<close> on non-negative integers.\<close>

definition floordiv :: "nat \<Rightarrow> nat \<Rightarrow> error + nat" where
  "floordiv a b = (if b = 0 then Inl ZeroDivisionError else Inr (a div b))"

definition Block_init :: "'g rng \<Rightarrow> hyper \<Rightarrow> nat \<Rightarrow> nat \<Rightarrow> 'g \<Rightarrow> error + (block \<times> 'g)" where
  "Block_init R h ne nh g =
     bindE (floordiv ne nh) (\<lambda>head_size.
     bindE (MultiHeadAttention_init R h nh head_size g) (\<lambda>(a, g1).
     bindE (FeedForward_init R h ne g1) (\<lambda>(f, g2).
       Inr (\<lparr>sa = a, ffwd = f, ln1 = LayerNorm_init ne, ln2 = LayerNorm_init ne\<rparr>, g2))))"

definition Block_forward :: "'g rng \<Rightarrow> block \<Rightarrow> tensor3 \<Rightarrow> 'g \<Rightarrow> error + (tensor3 \<times> 'g)" where
  "Block_forward R b x g =
     bindE (MultiHeadAttention_forward R (sa b) x g) (\<lambda>(y, g1).
     bindE (add3 x y) (\<lambda>xy.
     bindE (LayerNorm_forward (ln1 b) xy) (\<lambda>x1.
     bindE (FeedForward_forward R (ffwd b) x1 g1) (\<lambda>(y1, g2).
     bindE (add3 x1 y1) (\<lambda>xy1.
     bindE (LayerNorm_forward (ln2 b) xy1) (\<lambda>x2. Inr (x2, g2)))))))"

subsection \<open>GPTLanguageModel\<close>

record gpt =
  token_embedding_table :: embedding
  position_embedding_table :: embedding
  blocks :: "block list"
  ln_f :: layernorm
  lm_head :: linear

text \<open>
  \<open>_init_weights\<close>: the weight of every Linear and Embedding module is drawn anew from a
  normal distribution with mean 0 and standard deviation 0.02, the bias of a Linear
  module, if it has one, is set to zero. \<open>self.apply\<close> visits the modules of the tree,
  children first, in the order of their registration.
\<close>

definition init_weights_linear :: "'g rng \<Rightarrow> linear \<Rightarrow> 'g \<Rightarrow> linear \<times> 'g" where
  "init_weights_linear R l g =
     (case draws (draws (init_normal R 0 (2 / 100)) (in_features l)) (out_features l) g of
        (w, g1) \<Rightarrow>
          (l\<lparr>lin_weight := w,
              lin_bias := map_option (\<lambda>b. replicate (length b) 0) (lin_bias l)\<rparr>, g1))"

definition init_weights_embedding :: "'g rng \<Rightarrow> embedding \<Rightarrow> 'g \<Rightarrow> embedding \<times> 'g" where
  "init_weights_embedding R e g =
     (case draws (draws (init_normal R 0 (2 / 100)) (embedding_dim e)) (num_embeddings e) g of
        (w, g1) \<Rightarrow> (e\<lparr>emb_weight := w\<rparr>, g1))"

definition apply_Head :: "'g rng \<Rightarrow> head \<Rightarrow> 'g \<Rightarrow> head \<times> 'g" where
  "apply_Head R a g =
     (case init_weights_linear R (key a) g of (k, g1) \<Rightarrow>
      case init_weights_linear R (query a) g1 of (q, g2) \<Rightarrow>
      case init_weights_linear R (val a) g2 of (v, g3) \<Rightarrow>
        (a\<lparr>key := k, query := q, val := v\<rparr>, g3))"

definition apply_MultiHeadAttention ::
  "'g rng \<Rightarrow> multi_head_attention \<Rightarrow> 'g \<Rightarrow> multi_head_attention \<times> 'g" where
  "apply_MultiHeadAttention R m g =
     (case mapS (apply_Head R) (heads m) g of (hs, g1) \<Rightarrow>
      case init_weights_linear R (proj m) g1 of (p, g2) \<Rightarrow>
        (m\<lparr>heads := hs, proj := p\<rparr>, g2))"

definition apply_FeedForward :: "'g rng \<Rightarrow> feed_forward \<Rightarrow> 'g \<Rightarrow> feed_forward \<times> 'g" where
  "apply_FeedForward R f g =
     (case init_weights_linear R (net_0 f) g of (l0, g1) \<Rightarrow>
      case init_weights_linear R (net_2 f) g1 of (l2, g2) \<Rightarrow>
        (f\<lparr>net_0 := l0, net_2 := l2\<rparr>, g2))"

definition apply_Block :: "'g rng \<Rightarrow> block \<Rightarrow> 'g \<Rightarrow> block \<times> 'g" where
  "apply_Block R b g =
     (case apply_MultiHeadAttention R (sa b) g of (a, g1) \<Rightarrow>
      case apply_FeedForward R (ffwd b) g1 of (f, g2) \<Rightarrow>
        (b\<lparr>sa := a, ffwd := f\<rparr>, g2))"

definition apply_init_weights :: "'g rng \<Rightarrow> gpt \<Rightarrow> 'g \<Rightarrow> gpt \<times> 'g" where
  "apply_init_weights R m g =
     (case init_weights_embedding R (token_embedding_table m) g of (te, g1) \<Rightarrow>
      case init_weights_embedding R (position_embedding_table m) g1 of (pe, g2) \<Rightarrow>
      case mapS (apply_Block R) (blocks m) g2 of (bs, g3) \<Rightarrow>
      case init_weights_linear R (lm_head m) g3 of (lh, g4) \<Rightarrow>
        (m\<lparr>token_embedding_table := te, position_embedding_table := pe,
            blocks := bs, lm_head := lh\<rparr>, g4))"

definition GPTLanguageModel_init :: "'g rng \<Rightarrow> hyper \<Rightarrow> nat \<Rightarrow> 'g \<Rightarrow> error + (gpt \<times> 'g)" where
  "GPTLanguageModel_init R h vocab_size g =
     (case Embedding_init R vocab_size (n_embed h) g of (te, g1) \<Rightarrow>
      case Embedding_init R (block_size h) (n_embed h) g1 of (pe, g2) \<Rightarrow>
      bindE (replicateE (n_layer h) (Block_init R h (n_embed h) (n_head h)) g2) (\<lambda>(bs, g3).
      case Linear_init R (n_embed h) vocab_size True g3 of (lh, g4) \<Rightarrow>
        Inr (apply_init_weights R
               \<lparr>token_embedding_table = te, position_embedding_table = pe, blocks = bs,
                ln_f = LayerNorm_init (n_embed h), lm_head = lh\<rparr> g4)))"

text \<open>\<open>nn.Sequential\<close> over the blocks.\<close>

fun Sequential_forward ::
  "'g rng \<Rightarrow> block list \<Rightarrow> tensor3 \<Rightarrow> 'g \<Rightarrow> error + (tensor3 \<times> 'g)" where
  "Sequential_forward R [] x g = Inr (x, g)"
| "Sequential_forward R (b # bs) x g =
     bindE (Block_forward R b x g) (\<lambda>(y, g1). Sequential_forward R bs y g1)"

text \<open>
  \<open>tok_emb + pos_emb\<close>: the position embeddings, of shape (T, C), are added to every
  batch element. The two tables have one width in every model the constructor builds;
  broadcasting over unequal widths is not modelled.
\<close>

fun add_positions :: "tensor3 \<Rightarrow> tensor2 \<Rightarrow> error + tensor3" where
  "add_positions ((B, T, C), a) ((T', C'), p) =
     (if T = T' \<and> C = C' then Inr ((B, T, C), map (\<lambda>m. map2 vadd m p) a)
      else Inl RuntimeError)"

text \<open>
  \<open>t.view(n)\<close> flattens a tensor without copying it. It raises RuntimeError unless the
  tensor has \<open>n\<close> entries and, when \<open>n\<close> is not zero, its strides allow the view:
  leaving out the dimensions of size one, the stride of every dimension is the stride of
  the next dimension times the size of the next dimension. The view has the entries in
  row-major order.
\<close>

fun mergeable :: "(nat \<times> nat) list \<Rightarrow> bool" where
  "mergeable ((n1, s1) # (n2, s2) # ds) = (s1 = n2 * s2 \<and> mergeable ((n2, s2) # ds))"
| "mergeable ds = True"

definition flat_viewable :: "nat list \<Rightarrow> nat list \<Rightarrow> bool" where
  "flat_viewable shape strides = mergeable (filter (\<lambda>(n, s). n \<noteq> 1) (zip shape strides))"

definition view1 :: "itensor \<Rightarrow> nat \<Rightarrow> error + (nat \<times> int list)" where
  "view1 t n =
     (case t of (shape, strides, entries) \<Rightarrow>
        if prod_list shape = n \<and> (n = 0 \<or> flat_viewable shape strides)
        then Inr (n, entries) else Inl RuntimeError)"

text \<open>
  \<open>F.cross_entropy\<close> with its defaults: the mean, over the targets other than the
  ignored index -100, of the negative log-probability of the target class. A target
  outside the classes raises; a mean over no target is 0 / 0.
\<close>

datatype loss = NaN | Loss real

definition nll :: "real list \<Rightarrow> int \<Rightarrow> real" where
  "nll row t = ln (sum_list (map exp row)) - row ! nat t"

fun cross_entropy :: "tensor2 \<Rightarrow> nat \<times> int list \<Rightarrow> error + loss" where
  "cross_entropy ((N, C), rows) (N', tg) =
     (if N \<noteq> N' then Inl ValueError
      else if \<not> list_all (\<lambda>t. t = - 100 \<or> valid_index C t) tg then Inl IndexError
      else let kept = filter (\<lambda>(r, t). t \<noteq> - 100) (zip rows tg)
           in if kept = [] then Inr NaN
              else Inr (Loss (sum_list (map (\<lambda>(r, t). nll r t) kept) / real (length kept))))"

text \<open>
  \<^verbatim>\<open>
  def forward(self, index, targets=None):
      B, T = index.shape
      tok_emb = self.token_embedding_table(index)
      pos_emb = self.position_embedding_table(torch.arange(T, device=device))
      x = tok_emb + pos_emb
      x = self.blocks(x)
      x = self.ln_f(x)
      logits = self.lm_head(x)
      if targets is None:
          return logits, None
      B, T, C = logits.shape
      logits = logits.view(B*T, C)
      targets = targets.view(B*T)
      loss = F.cross_entropy(logits, targets)
      return logits, loss
  \<close>
  The logits that are returned are a tensor of three dimensions without targets, and the
  matrix \<open>logits.view(B*T, C)\<close> with targets. The logits are the output of a linear
  layer, a contiguous tensor, so that their view does not fail; the targets come from
  the caller, with any shape and strides.
\<close>

datatype logits = Logits3 tensor3 | Logits2 tensor2

fun GPTLanguageModel_forward ::
  "'g rng \<Rightarrow> gpt \<Rightarrow> itensor2 \<Rightarrow> itensor option \<Rightarrow> 'g
     \<Rightarrow> error + ((logits \<times> loss option) \<times> 'g)" where
  "GPTLanguageModel_forward R m ((B, T), rows) targets g =
     bindE (Embedding_forward (token_embedding_table m) ((B, T), rows)) (\<lambda>tok_emb.
     bindE (Embedding_arange (position_embedding_table m) T) (\<lambda>pos_emb.
     bindE (add_positions tok_emb pos_emb) (\<lambda>x.
     bindE (Sequential_forward R (blocks m) x g) (\<lambda>(x, g1).
     bindE (LayerNorm_forward (ln_f m) x) (\<lambda>x.
     bindE (Linear_forward (lm_head m) x) (\<lambda>lg.
       case targets of
         None \<Rightarrow> Inr ((Logits3 lg, None), g1)
       | Some tg \<Rightarrow>
           (case lg of ((B, T, C), d) \<Rightarrow>
              bindE (view1 tg (B * T)) (\<lambda>tg1.
              bindE (cross_entropy ((B * T, C), concat d) tg1) (\<lambda>l.
                Inr ((Logits2 ((B * T, C), concat d), Some l), g1))))))))))"

subsection \<open>generate\<close>

text \<open>
  \<^verbatim>\<open>
  def generate(self, index, max_new_tokens):
      for _ in range(max_new_tokens):
          index_cond = index[:, -block_size:]
          logits, loss = self.forward(index_cond)
          logits = logits[:, -1, :]
          probs = F.softmax(logits, dim=-1)
          index_next = torch.multinomial(probs, num_samples=1)
          index = torch.cat((index, index_next), dim=1)
      return index
  \<close>
  One iteration of the loop is \<open>generate_step\<close>.
\<close>

text \<open>
  \<open>index[:, -block_size:]\<close>: the last \<open>block_size\<close> columns; Python reads \<open>-0\<close> as
  \<open>0\<close>, so that the slice is the whole tensor when \<open>block_size\<close> is zero.
\<close>

fun slice_last :: "nat \<Rightarrow> itensor2 \<Rightarrow> itensor2" where
  "slice_last n ((B, T), rows) =
     (if n = 0 then ((B, T), rows)
      else ((B, min T n), map (\<lambda>r. drop (length r - n) r) rows))"

text \<open>\<open>logits[:, -1, :]\<close>: the index -1 is out of range when T is zero.\<close>

fun select_last :: "tensor3 \<Rightarrow> error + tensor2" where
  "select_last ((B, T, C), d) =
     (if T = 0 then Inl IndexError else Inr ((B, C), map last d))"

definition softmax2 :: "tensor2 \<Rightarrow> tensor2" where
  "softmax2 x = (fst x, map (\<lambda>r. softmax (map Fin r)) (snd x))"

text \<open>\<open>torch.cat((index, index_next), dim=1)\<close> for \<open>index_next\<close> of shape (B', 1).\<close>

fun cat_column :: "itensor2 \<Rightarrow> nat list \<Rightarrow> error + itensor2" where
  "cat_column ((B, T), rows) nxt =
     (if length nxt = B then Inr ((B, T + 1), map2 (\<lambda>r i. r @ [int i]) rows nxt)
      else Inl RuntimeError)"

definition logits3 :: "logits \<Rightarrow> error + tensor3" where
  "logits3 l = (case l of Logits3 x \<Rightarrow> Inr x | Logits2 x \<Rightarrow> Inl IndexError)"

definition generate_step ::
  "'g rng \<Rightarrow> hyper \<Rightarrow> gpt \<Rightarrow> itensor2 \<Rightarrow> 'g \<Rightarrow> error + (itensor2 \<times> 'g)" where
  "generate_step R h m index g =
     bindE (GPTLanguageModel_forward R m (slice_last (block_size h) index) None g)
       (\<lambda>((lg, l), g1).
     bindE (logits3 lg) (\<lambda>lg3.
     bindE (select_last lg3) (\<lambda>lg2.
     bindE (multinomial R (snd (softmax2 lg2)) g1) (\<lambda>(index_next, g2).
     bindE (cat_column index index_next) (\<lambda>index1. Inr (index1, g2))))))"

fun generate ::
  "'g rng \<Rightarrow> hyper \<Rightarrow> gpt \<Rightarrow> itensor2 \<Rightarrow> nat \<Rightarrow> 'g \<Rightarrow> error + (itensor2 \<times> 'g)" where
  "generate R h m index 0 g = Inr (index, g)"
| "generate R h m index (Suc k) g =
     bindE (generate_step R h m index g) (\<lambda>(index1, g1). generate R h m index1 k g1)"

subsection \<open>A generator for the examples\<close>

text \<open>
  A deterministic stand-in for the library's generator: its state counts the draws, and
  the first category is sampled from every row of probabilities; a row without a
  category makes it raise.
\<close>

definition rng0 :: "nat rng" where
  "rng0 =
     \<lparr>randn = (\<lambda>g. (0, Suc g)),
      rand = (\<lambda>g. (1 / 2, Suc g)),
      multinomial = (\<lambda>ps g. if [] \<in> set ps then Inl RuntimeError
                              else Inr (map (\<lambda>p. 0) ps, Suc g))\<rparr>"

text \<open>
  The model that the constructor builds with the hyperparameters of the source and a
  vocabulary of 65 tokens, and the same with the dropout probability set to zero.
\<close>

definition model0 :: gpt where
  "model0 = fst (projr (GPTLanguageModel_init rng0 hyperparameters 65 0))"

definition model_eval0 :: gpt where
  "model_eval0 = fst (projr (GPTLanguageModel_init rng0 (hyperparameters\<lparr>dropout := 0\<rparr>) 65 0))"

definition block0 :: block where
  "block0 = blocks model_eval0 ! 0"

text \<open>The first block of the model as built, in training mode with dropout 0.2.\<close>

definition block_built0 :: block where
  "block_built0 = blocks model0 ! 0"

text \<open>A head of size one on inputs of width two, in evaluation mode.\<close>

definition head0 :: head where
  "head0 =
     (let l = \<lparr>in_features = 2, out_features = 1, lin_weight = [[1, 0]], lin_bias = None\<rparr>
      in \<lparr>key = l, query = l, val = l, tril = tril_ones 2,
          head_dropout = \<lparr>dp = 2 / 10, training = False\<rparr>\<rparr>)"

text \<open>A block of width 10 with 3 heads, built with the hyperparameters of the source.\<close>

definition block_10_3 :: block where
  "block_10_3 = fst (projr (Block_init rng0 hyperparameters 10 3 0))"

section \<open>Invariants of the modules and a description per batch element\<close>

subsection \<open>Shapes of the parameters\<close>

text \<open>
  The shapes that the constructors give to the parameters of a model with width \<open>ne\<close>,
  \<open>nh\<close> heads of size \<open>hs\<close> per block, and context length \<open>bs\<close>. Training changes the
  entries of the parameters, not their shapes. A head of size zero cannot run (its
  forward pass raises ZeroDivisionError), so the head size is required to be positive.
\<close>

definition wf_head :: "nat \<Rightarrow> nat \<Rightarrow> nat \<Rightarrow> head \<Rightarrow> bool" where
  "wf_head ne hs bs a =
     (wf_linear (key a) \<and> wf_linear (query a) \<and> wf_linear (val a)
      \<and> lin_bias (key a) = None \<and> lin_bias (query a) = None \<and> lin_bias (val a) = None
      \<and> in_features (key a) = ne \<and> in_features (query a) = ne \<and> in_features (val a) = ne
      \<and> out_features (key a) = hs \<and> out_features (query a) = hs \<and> out_features (val a) = hs
      \<and> 0 < hs \<and> tril a = tril_ones bs)"

definition wf_mha :: "nat \<Rightarrow> nat \<Rightarrow> nat \<Rightarrow> nat \<Rightarrow> multi_head_attention \<Rightarrow> bool" where
  "wf_mha ne nh hs bs m =
     (length (heads m) = nh \<and> 0 < nh \<and> list_all (wf_head ne hs bs) (heads m)
      \<and> wf_linear (proj m) \<and> in_features (proj m) = hs * nh \<and> out_features (proj m) = ne)"

definition wf_ff :: "nat \<Rightarrow> feed_forward \<Rightarrow> bool" where
  "wf_ff ne f =
     (wf_linear (net_0 f) \<and> in_features (net_0 f) = ne \<and> out_features (net_0 f) = 4 * ne
      \<and> wf_linear (net_2 f) \<and> in_features (net_2 f) = 4 * ne \<and> out_features (net_2 f) = ne)"

definition wf_block :: "nat \<Rightarrow> nat \<Rightarrow> nat \<Rightarrow> nat \<Rightarrow> block \<Rightarrow> bool" where
  "wf_block ne nh hs bs b =
     (wf_mha ne nh hs bs (sa b) \<and> wf_ff ne (ffwd b)
      \<and> wf_layernorm (ln1 b) \<and> normalized_shape (ln1 b) = ne
      \<and> wf_layernorm (ln2 b) \<and> normalized_shape (ln2 b) = ne)"

definition wf_gpt :: "hyper \<Rightarrow> nat \<Rightarrow> gpt \<Rightarrow> bool" where
  "wf_gpt h V m =
     (wf_embedding (token_embedding_table m)
      \<and> num_embeddings (token_embedding_table m) = V
      \<and> embedding_dim (token_embedding_table m) = n_embed h
      \<and> wf_embedding (position_embedding_table m)
      \<and> num_embeddings (position_embedding_table m) = block_size h
      \<and> embedding_dim (position_embedding_table m) = n_embed h
      \<and> length (blocks m) = n_layer h
      \<and> list_all (wf_block (n_embed h) (n_head h) (n_embed h div n_head h) (block_size h))
           (blocks m)
      \<and> wf_layernorm (ln_f m) \<and> normalized_shape (ln_f m) = n_embed h
      \<and> wf_linear (lm_head m) \<and> in_features (lm_head m) = n_embed h
      \<and> out_features (lm_head m) = V)"

definition valid_tokens :: "nat \<Rightarrow> int list list \<Rightarrow> bool" where
  "valid_tokens V rows = list_all (list_all (valid_index V)) rows"

subsection \<open>Dropout disabled\<close>

definition Head_eval :: "head \<Rightarrow> bool" where
  "Head_eval a = dropout_off (head_dropout a)"

definition MultiHeadAttention_eval :: "multi_head_attention \<Rightarrow> bool" where
  "MultiHeadAttention_eval m = (list_all Head_eval (heads m) \<and> dropout_off (mha_dropout m))"

definition FeedForward_eval :: "feed_forward \<Rightarrow> bool" where
  "FeedForward_eval f = dropout_off (net_3 f)"

definition Block_eval :: "block \<Rightarrow> bool" where
  "Block_eval b = (MultiHeadAttention_eval (sa b) \<and> FeedForward_eval (ffwd b))"

definition gpt_eval :: "gpt \<Rightarrow> bool" where
  "gpt_eval m = list_all Block_eval (blocks m)"

subsection \<open>What the specification says of one batch element\<close>

text \<open>
  The functions of this section follow the words of the specification. They describe the
  result for one batch element, a matrix with one row per position: \<open>x ! i\<close> is the
  vector at position \<open>i\<close>.
\<close>

definition linmap :: "real list list \<Rightarrow> real list \<Rightarrow> real list" where
  "linmap W v = map (\<lambda>w. dot v w) W"

definition head_scores :: "head \<Rightarrow> real list list \<Rightarrow> nat \<Rightarrow> nat \<Rightarrow> xreal" where
  "head_scores a x i j =
     (if i < j then NegInf
      else Fin (dot (linmap (lin_weight (query a)) (x ! i)) (linmap (lin_weight (key a)) (x ! j))
             / sqrt (real (out_features (key a)))))"

definition head_probs :: "head \<Rightarrow> real list list \<Rightarrow> nat \<Rightarrow> real list" where
  "head_probs a x i = softmax (map (head_scores a x i) [0..<length x])"

definition Head_spec :: "head \<Rightarrow> real list list \<Rightarrow> real list list" where
  "Head_spec a x =
     map (\<lambda>i. map (\<lambda>c. \<Sum>j<length x. head_probs a x i ! j * linmap (lin_weight (val a)) (x ! j) ! c)
                [0..<out_features (val a)])
       [0..<length x]"

definition MultiHeadAttention_spec :: "multi_head_attention \<Rightarrow> real list list \<Rightarrow> real list list" where
  "MultiHeadAttention_spec m x =
     map (\<lambda>i. Linear_vec (proj m) (concat (map (\<lambda>a. Head_spec a x ! i) (heads m))))
       [0..<length x]"

definition FeedForward_spec :: "feed_forward \<Rightarrow> real list list \<Rightarrow> real list list" where
  "FeedForward_spec f x =
     map (\<lambda>v. Linear_vec (net_2 f) (map (max 0) (Linear_vec (net_0 f) v))) x"

definition LayerNorm_spec :: "layernorm \<Rightarrow> real list list \<Rightarrow> real list list" where
  "LayerNorm_spec n x = map (LayerNorm_vec n) x"

definition madd :: "real list list \<Rightarrow> real list list \<Rightarrow> real list list" where
  "madd x y = map2 vadd x y"

definition Block_spec :: "block \<Rightarrow> real list list \<Rightarrow> real list list" where
  "Block_spec b x =
     (let x' = LayerNorm_spec (ln1 b) (madd x (MultiHeadAttention_spec (sa b) x));
          x'' = LayerNorm_spec (ln2 b) (madd x' (FeedForward_spec (ffwd b) x'))
      in x'')"

definition embed_spec :: "gpt \<Rightarrow> int list \<Rightarrow> real list list" where
  "embed_spec m row =
     madd (map (\<lambda>i. emb_weight (token_embedding_table m) ! nat i) row)
          (take (length row) (emb_weight (position_embedding_table m)))"

definition logits_spec :: "gpt \<Rightarrow> int list \<Rightarrow> real list list" where
  "logits_spec m row =
     map (Linear_vec (lm_head m))
       (LayerNorm_spec (ln_f m) (fold Block_spec (blocks m) (embed_spec m row)))"

subsection \<open>The contract of the sampling function\<close>

text \<open>
  What is assumed of \<open>torch.multinomial(probs, num_samples=1)\<close>: on a matrix with at
  least one row, whose rows are non-empty, have no negative entry and a positive sum, it
  returns one index per row, and each index is a position of its row.
\<close>

definition valid_probs :: "real list \<Rightarrow> bool" where
  "valid_probs p = (p \<noteq> [] \<and> list_all (\<lambda>x. 0 \<le> x) p \<and> 0 < sum_list p)"

definition multinomial_ok :: "'g rng \<Rightarrow> bool" where
  "multinomial_ok R =
     (\<forall>ps g. ps \<noteq> [] \<and> list_all valid_probs ps \<longrightarrow>
        (\<exists>ix g'. multinomial R ps g = Inr (ix, g') \<and> length ix = length ps
           \<and> list_all2 (\<lambda>i p. i < length p) ix ps))"

text \<open>
  What is assumed of it on a matrix without rows, the probabilities of an empty batch:
  it returns no index. (The library refuses to draw from a matrix without columns; a
  matrix is a list of rows here, so that the theorems using this contract are stated for
  a vocabulary of at least one token.)
\<close>

definition multinomial_empty_ok :: "'g rng \<Rightarrow> bool" where
  "multinomial_empty_ok R = (\<forall>g. \<exists>g'. multinomial R [] g = Inr ([], g'))"

subsection \<open>A result with another generator state\<close>

text \<open>
  \<open>with_state g r\<close> is the result \<open>r\<close> of a call, with the generator state that the call
  returned replaced by \<open>g\<close>. A call that draws nothing from the generator \<open>R\<close> in the
  state \<open>g\<close> returns \<open>with_state g r\<close> for the result \<open>r\<close> of the same call with any
  generator in any state.
\<close>

definition with_state :: "'g \<Rightarrow> error + ('a \<times> 'g) \<Rightarrow> error + ('a \<times> 'g)" where
  "with_state g r = (case r of Inl e \<Rightarrow> Inl e | Inr (y, u) \<Rightarrow> Inr (y, g))"

section \<open>Construction\<close>

lemma bindE_simps [simp]: "bindE (Inl e) f = Inl e" "bindE (Inr x) f = f x"
  by (simp_all add: bindE_def)

lemma isl_bindE: "isl (bindE r f) \<longleftrightarrow> isl r \<or> (\<exists>x. r = Inr x \<and> isl (f x))"
  by (cases r) auto

lemma Dropout_init_isl: "isl (Dropout_init p) \<longleftrightarrow> p < 0 \<or> 1 < p"
  by (simp add: Dropout_init_def)

lemma Head_init_isl: "isl (Head_init R h n g) \<longleftrightarrow> dropout h < 0 \<or> 1 < dropout h"
  by (auto simp: Head_init_def isl_bindE Dropout_init_def split: prod.splits)

lemma replicateE_isl:
  assumes "\<And>g. isl (f g) \<longleftrightarrow> P"
  shows "isl (replicateE n f g) \<longleftrightarrow> n \<noteq> 0 \<and> P"
proof (induction n arbitrary: g)
  case 0 show ?case by simp
next
  case (Suc n)
  show ?case
  proof (cases "f g")
    case (Inl e)
    with assms[of g] show ?thesis by simp
  next
    case (Inr p)
    obtain x g1 where p: "p = (x, g1)" by (cases p)
    from Inr assms[of g] have nP: "\<not> P" by auto
    show ?thesis using Inr p nP Suc.IH[of g1] by (auto simp: isl_bindE split: prod.splits)
  qed
qed

lemma MultiHeadAttention_init_isl:
  "isl (MultiHeadAttention_init R h nh hs g) \<longleftrightarrow> dropout h < 0 \<or> 1 < dropout h"
  unfolding MultiHeadAttention_init_def
  by (auto simp: isl_bindE replicateE_isl[where f = "Head_init R h hs", OF Head_init_isl]
      Dropout_init_def split: prod.splits)

lemma FeedForward_init_isl:
  "isl (FeedForward_init R h ne g) \<longleftrightarrow> dropout h < 0 \<or> 1 < dropout h"
  by (auto simp: FeedForward_init_def isl_bindE Dropout_init_def split: prod.splits)

lemma Block_init_isl:
  "isl (Block_init R h ne nh g) \<longleftrightarrow> nh = 0 \<or> dropout h < 0 \<or> 1 < dropout h"
  unfolding Block_init_def
  by (auto simp: isl_bindE floordiv_def MultiHeadAttention_init_isl FeedForward_init_isl
      split: prod.splits)

lemma GPTLanguageModel_init_isl:
  "isl (GPTLanguageModel_init R h V g) \<longleftrightarrow>
     n_layer h \<noteq> 0 \<and> (n_head h = 0 \<or> dropout h < 0 \<or> 1 < dropout h)"
  unfolding GPTLanguageModel_init_def
  by (simp add: isl_bindE case_prod_beta
      replicateE_isl[where f = "Block_init R h (n_embed h) (n_head h)", OF Block_init_isl])

subsection \<open>The constructors establish the shapes\<close>

lemma draws_length: "draws f n g = (xs, g') \<Longrightarrow> length xs = n"
  by (induction n arbitrary: g xs) (auto split: prod.splits)

lemma draws_set:
  "draws f n g = (xs, g') \<Longrightarrow> x \<in> set xs \<Longrightarrow> \<exists>g1 g2. f g1 = (x, g2)"
  by (induction n arbitrary: g xs g') (auto split: prod.splits, blast+)

lemma draws_matrix:
  assumes "draws (draws f c) r g = (w, g')"
  shows "length w = r \<and> list_all (\<lambda>x. length x = c) w"
  using draws_length[OF assms] draws_set[OF assms] draws_length[of f c]
  by (fastforce simp: list_all_iff)

lemma Linear_init_wf:
  assumes "Linear_init R i n b g = (l, g')"
  shows "wf_linear l \<and> in_features l = i \<and> out_features l = n \<and> (lin_bias l = None \<longleftrightarrow> \<not> b)"
  using assms
  by (auto simp: Linear_init_def Let_def wf_linear_def split: prod.splits if_splits
      dest: draws_matrix draws_length)

lemma init_weights_linear_wf:
  assumes "init_weights_linear R l g = (l', g')" and "wf_linear l"
  shows "wf_linear l' \<and> in_features l' = in_features l \<and> out_features l' = out_features l
     \<and> (lin_bias l' = None \<longleftrightarrow> lin_bias l = None)"
  using assms
  by (auto simp: init_weights_linear_def wf_linear_def split: prod.splits option.splits
      dest: draws_matrix)

lemma Embedding_init_wf:
  assumes "Embedding_init R n c g = (e, g')"
  shows "wf_embedding e \<and> num_embeddings e = n \<and> embedding_dim e = c"
  using assms by (auto simp: Embedding_init_def wf_embedding_def split: prod.splits dest: draws_matrix)

lemma init_weights_embedding_wf:
  assumes "init_weights_embedding R e g = (e', g')"
  shows "wf_embedding e' \<and> num_embeddings e' = num_embeddings e \<and> embedding_dim e' = embedding_dim e"
  using assms
  by (auto simp: init_weights_embedding_def wf_embedding_def split: prod.splits dest: draws_matrix)

lemma LayerNorm_init_wf: "wf_layernorm (LayerNorm_init n) \<and> normalized_shape (LayerNorm_init n) = n"
  by (simp add: LayerNorm_init_def wf_layernorm_def)


lemma replicateE_all:
  assumes "replicateE n f g = Inr (xs, g')" and "\<And>g x g'. f g = Inr (x, g') \<Longrightarrow> P x"
  shows "length xs = n \<and> list_all P xs"
  using assms(1)
proof (induction n arbitrary: g xs)
  case 0
  then show ?case by simp
next
  case (Suc n)
  from Suc.prems obtain x g1 ys where x: "f g = Inr (x, g1)"
    and ys: "replicateE n f g1 = Inr (ys, g')" and xs: "xs = x # ys"
    by (cases "f g"; cases "replicateE n f (snd (projr (f g)))")
       (auto simp: case_prod_beta)
  from Suc.IH[OF ys] assms(2)[OF x] xs show ?case by simp
qed

lemma mapS_all:
  assumes "mapS f xs g = (ys, g')" and "list_all P xs"
    and "\<And>x g y g'. f x g = (y, g') \<Longrightarrow> P x \<Longrightarrow> Q y"
  shows "length ys = length xs \<and> list_all Q ys"
  using assms(1,2)
proof (induction xs arbitrary: g ys)
  case Nil
  then show ?case by simp
next
  case (Cons x xs)
  from Cons.prems(1) obtain y g1 zs where y: "f x g = (y, g1)"
    and zs: "mapS f xs g1 = (zs, g')" and ys: "ys = y # zs"
    by (auto split: prod.splits)
  from Cons.IH[OF zs] Cons.prems(2) assms(3)[OF y] ys show ?case by simp
qed

lemma Head_init_wf:
  assumes "Head_init R h hs g = Inr (a, g')" and "0 < hs"
  shows "wf_head (n_embed h) hs (block_size h) a \<and> dp (head_dropout a) = dropout h"
proof -
  obtain k g1 where k: "Linear_init R (n_embed h) hs False g = (k, g1)" by force
  obtain q g2 where q: "Linear_init R (n_embed h) hs False g1 = (q, g2)" by force
  obtain v g3 where v: "Linear_init R (n_embed h) hs False g2 = (v, g3)" by force
  from assms(1) have a: "a = \<lparr>key = k, query = q, val = v, tril = tril_ones (block_size h),
      head_dropout = \<lparr>dp = dropout h, training = True\<rparr>\<rparr>"
    by (auto simp: Head_init_def k q v Dropout_init_def split: if_splits)
  show ?thesis
    using Linear_init_wf[OF k] Linear_init_wf[OF q] Linear_init_wf[OF v] assms(2)
    by (simp add: a wf_head_def)
qed

lemma apply_Head_wf:
  assumes "apply_Head R a g = (a', g')" and "wf_head ne hs bs a"
  shows "wf_head ne hs bs a' \<and> head_dropout a' = head_dropout a"
proof -
  obtain k g1 where k: "init_weights_linear R (key a) g = (k, g1)" by force
  obtain q g2 where q: "init_weights_linear R (query a) g1 = (q, g2)" by force
  obtain v g3 where v: "init_weights_linear R (val a) g2 = (v, g3)" by force
  from assms(1) have a: "a' = a\<lparr>key := k, query := q, val := v\<rparr>"
    by (simp add: apply_Head_def k q v)
  have w: "wf_linear (key a)" "wf_linear (query a)" "wf_linear (val a)"
    using assms(2) by (simp_all add: wf_head_def)
  show ?thesis
    using init_weights_linear_wf[OF k w(1)] init_weights_linear_wf[OF q w(2)]
      init_weights_linear_wf[OF v w(3)] assms(2)
    by (simp add: a wf_head_def)
qed


lemma Head_init_ok:
  assumes "Head_init R h hs g = Inr (a, g')" and "0 < hs"
  shows "wf_head (n_embed h) hs (block_size h) a \<and> (dropout h = 0 \<longrightarrow> Head_eval a)"
  using Head_init_wf[OF assms] by (simp add: Head_eval_def dropout_off_def)

lemma apply_Head_ok:
  assumes "apply_Head R a g = (a', g')"
    and "wf_head ne hs bs a \<and> (p \<longrightarrow> Head_eval a)"
  shows "wf_head ne hs bs a' \<and> (p \<longrightarrow> Head_eval a')"
  using apply_Head_wf[OF assms(1), of ne hs bs] assms(2) by (simp add: Head_eval_def)

lemma MultiHeadAttention_init_ok:
  assumes "MultiHeadAttention_init R h nh hs g = Inr (m, g')" and "0 < hs" and "0 < nh"
  shows "wf_mha (n_embed h) nh hs (block_size h) m
     \<and> (dropout h = 0 \<longrightarrow> MultiHeadAttention_eval m)"
proof -
  from assms(1) obtain hds g1 where hds: "replicateE nh (Head_init R h hs) g = Inr (hds, g1)"
    by (cases "replicateE nh (Head_init R h hs) g")
       (auto simp: MultiHeadAttention_init_def)
  obtain p g2 where p: "Linear_init R (hs * nh) (n_embed h) True g1 = (p, g2)" by force
  from assms(1) have m: "m = \<lparr>heads = hds, proj = p,
      mha_dropout = \<lparr>dp = dropout h, training = True\<rparr>\<rparr>"
    by (auto simp: MultiHeadAttention_init_def hds p Dropout_init_def split: if_splits)
  have "length hds = nh \<and>
      list_all (\<lambda>a. wf_head (n_embed h) hs (block_size h) a \<and> (dropout h = 0 \<longrightarrow> Head_eval a)) hds"
    by (rule replicateE_all[OF hds]) (rule Head_init_ok[OF _ assms(2)])
  then show ?thesis
    using Linear_init_wf[OF p] assms(3)
    by (auto simp: m wf_mha_def MultiHeadAttention_eval_def list_all_iff dropout_off_def)
qed

lemma apply_MultiHeadAttention_ok:
  assumes "apply_MultiHeadAttention R m g = (m', g')"
    and "wf_mha ne nh hs bs m \<and> (p \<longrightarrow> MultiHeadAttention_eval m)"
  shows "wf_mha ne nh hs bs m' \<and> (p \<longrightarrow> MultiHeadAttention_eval m')"
proof -
  obtain hds g1 where hds: "mapS (apply_Head R) (heads m) g = (hds, g1)" by force
  obtain q g2 where q: "init_weights_linear R (proj m) g1 = (q, g2)" by force
  from assms(1) have m: "m' = m\<lparr>heads := hds, proj := q\<rparr>"
    by (simp add: apply_MultiHeadAttention_def hds q)
  have pre: "list_all (\<lambda>a. wf_head ne hs bs a \<and> (p \<longrightarrow> Head_eval a)) (heads m)"
    using assms(2) by (auto simp: wf_mha_def MultiHeadAttention_eval_def list_all_iff)
  have "length hds = length (heads m)
      \<and> list_all (\<lambda>a. wf_head ne hs bs a \<and> (p \<longrightarrow> Head_eval a)) hds"
    by (rule mapS_all[OF hds pre]) (rule apply_Head_ok)
  moreover have "wf_linear (proj m)" using assms(2) by (simp add: wf_mha_def)
  ultimately show ?thesis
    using init_weights_linear_wf[OF q] assms(2)
    by (auto simp: m wf_mha_def MultiHeadAttention_eval_def list_all_iff)
qed

lemma FeedForward_init_ok:
  assumes "FeedForward_init R h ne g = Inr (f, g')"
  shows "wf_ff ne f \<and> (dropout h = 0 \<longrightarrow> FeedForward_eval f)"
proof -
  obtain l0 g1 where l0: "Linear_init R ne (4 * ne) True g = (l0, g1)" by force
  obtain l2 g2 where l2: "Linear_init R (4 * ne) ne True g1 = (l2, g2)" by force
  from assms have f: "f = \<lparr>net_0 = l0, net_2 = l2, net_3 = \<lparr>dp = dropout h, training = True\<rparr>\<rparr>"
    by (auto simp: FeedForward_init_def l0 l2 Dropout_init_def split: if_splits)
  show ?thesis
    using Linear_init_wf[OF l0] Linear_init_wf[OF l2]
    by (simp add: f wf_ff_def FeedForward_eval_def dropout_off_def)
qed

lemma apply_FeedForward_ok:
  assumes "apply_FeedForward R f g = (f', g')"
    and "wf_ff ne f \<and> (p \<longrightarrow> FeedForward_eval f)"
  shows "wf_ff ne f' \<and> (p \<longrightarrow> FeedForward_eval f')"
proof -
  obtain l0 g1 where l0: "init_weights_linear R (net_0 f) g = (l0, g1)" by force
  obtain l2 g2 where l2: "init_weights_linear R (net_2 f) g1 = (l2, g2)" by force
  from assms(1) have f: "f' = f\<lparr>net_0 := l0, net_2 := l2\<rparr>"
    by (simp add: apply_FeedForward_def l0 l2)
  have w: "wf_linear (net_0 f)" "wf_linear (net_2 f)" using assms(2) by (simp_all add: wf_ff_def)
  show ?thesis
    using init_weights_linear_wf[OF l0 w(1)] init_weights_linear_wf[OF l2 w(2)] assms(2)
    by (simp add: f wf_ff_def FeedForward_eval_def)
qed

lemma Block_init_ok:
  assumes "Block_init R h ne nh g = Inr (b, g')" and "nh \<le> ne" and "ne = n_embed h"
  shows "wf_block ne nh (ne div nh) (block_size h) b \<and> (dropout h = 0 \<longrightarrow> Block_eval b)"
proof -
  from assms(1) have nh: "0 < nh"
    by (cases "nh = 0") (auto simp: Block_init_def floordiv_def)
  then have hs: "0 < ne div nh" using assms(2) by (simp add: div_greater_zero_iff)
  from assms(1) nh obtain a g1 where a: "MultiHeadAttention_init R h nh (ne div nh) g = Inr (a, g1)"
    by (cases "MultiHeadAttention_init R h nh (ne div nh) g")
       (auto simp: Block_init_def floordiv_def)
  from assms(1) nh a obtain f g2 where f: "FeedForward_init R h ne g1 = Inr (f, g2)"
    by (cases "FeedForward_init R h ne g1") (auto simp: Block_init_def floordiv_def)
  from assms(1) have b: "b = \<lparr>sa = a, ffwd = f, ln1 = LayerNorm_init ne, ln2 = LayerNorm_init ne\<rparr>"
    using nh by (simp add: Block_init_def floordiv_def a f)
  show ?thesis
    using MultiHeadAttention_init_ok[OF a hs nh] FeedForward_init_ok[OF f] LayerNorm_init_wf[of ne]
    by (simp add: b wf_block_def Block_eval_def assms(3))
qed

lemma apply_Block_ok:
  assumes "apply_Block R b g = (b', g')"
    and "wf_block ne nh hs bs b \<and> (p \<longrightarrow> Block_eval b)"
  shows "wf_block ne nh hs bs b' \<and> (p \<longrightarrow> Block_eval b')"
proof -
  obtain a g1 where a: "apply_MultiHeadAttention R (sa b) g = (a, g1)" by force
  obtain f g2 where f: "apply_FeedForward R (ffwd b) g1 = (f, g2)" by force
  from assms(1) have b: "b' = b\<lparr>sa := a, ffwd := f\<rparr>" by (simp add: apply_Block_def a f)
  have pa: "wf_mha ne nh hs bs (sa b) \<and> (p \<longrightarrow> MultiHeadAttention_eval (sa b))"
    and pf: "wf_ff ne (ffwd b) \<and> (p \<longrightarrow> FeedForward_eval (ffwd b))"
    using assms(2) by (auto simp: wf_block_def Block_eval_def)
  show ?thesis
    using apply_MultiHeadAttention_ok[OF a pa] apply_FeedForward_ok[OF f pf] assms(2)
    by (simp add: b wf_block_def Block_eval_def)
qed

lemma GPTLanguageModel_init_ok:
  assumes "GPTLanguageModel_init R h V g = Inr (m, g')" and "n_head h \<le> n_embed h"
  shows "wf_gpt h V m \<and> (dropout h = 0 \<longrightarrow> gpt_eval m)"
proof -
  let ?P = "\<lambda>b. wf_block (n_embed h) (n_head h) (n_embed h div n_head h) (block_size h) b
              \<and> (dropout h = 0 \<longrightarrow> Block_eval b)"
  obtain te g1 where te: "Embedding_init R V (n_embed h) g = (te, g1)" by force
  obtain pe g2 where pe: "Embedding_init R (block_size h) (n_embed h) g1 = (pe, g2)" by force
  from assms(1) obtain bl g3 where
    bl: "replicateE (n_layer h) (Block_init R h (n_embed h) (n_head h)) g2 = Inr (bl, g3)"
    by (cases "replicateE (n_layer h) (Block_init R h (n_embed h) (n_head h)) g2")
       (auto simp: GPTLanguageModel_init_def te pe)
  obtain lh g4 where lh: "Linear_init R (n_embed h) V True g3 = (lh, g4)" by force
  define m0 where "m0 = \<lparr>token_embedding_table = te, position_embedding_table = pe, blocks = bl,
      ln_f = LayerNorm_init (n_embed h), lm_head = lh\<rparr>"
  from assms(1) have ap: "apply_init_weights R m0 g4 = (m, g')"
    by (simp add: GPTLanguageModel_init_def te pe bl lh m0_def)
  obtain te' h1 where te': "init_weights_embedding R te g4 = (te', h1)" by force
  obtain pe' h2 where pe': "init_weights_embedding R pe h1 = (pe', h2)" by force
  obtain bl' h3 where bl': "mapS (apply_Block R) bl h2 = (bl', h3)" by force
  obtain lh' h4 where lh': "init_weights_linear R lh h3 = (lh', h4)" by force
  from ap have m: "m = m0\<lparr>token_embedding_table := te', position_embedding_table := pe',
      blocks := bl', lm_head := lh'\<rparr>"
    by (simp add: apply_init_weights_def m0_def te' pe' bl' lh')
  have B: "length bl = n_layer h \<and> list_all ?P bl"
    by (rule replicateE_all[OF bl]) (rule Block_init_ok[OF _ assms(2) refl])
  have B': "length bl' = length bl \<and> list_all ?P bl'"
    by (rule mapS_all[OF bl' conjunct2[OF B]]) (rule apply_Block_ok)
  show ?thesis
    using Embedding_init_wf[OF te] Embedding_init_wf[OF pe] init_weights_embedding_wf[OF te']
      init_weights_embedding_wf[OF pe'] Linear_init_wf[OF lh] init_weights_linear_wf[OF lh']
      LayerNorm_init_wf[of "n_embed h"] B B'
    by (auto simp: m m0_def wf_gpt_def gpt_eval_def list_all_iff)
qed

text \<open>A model is built in training mode: its dropout layers are switched on.\<close>

lemma FeedForward_init_training:
  assumes "FeedForward_init R h ne g = Inr (f, g')"
  shows "net_3 f = \<lparr>dp = dropout h, training = True\<rparr>"
  using assms
  by (auto simp: FeedForward_init_def Dropout_init_def split: prod.splits if_splits)

lemma Block_init_training:
  assumes "Block_init R h ne nh g = Inr (b, g')"
  shows "net_3 (ffwd b) = \<lparr>dp = dropout h, training = True\<rparr>"
proof -
  from assms have nh: "0 < nh"
    by (cases "nh = 0") (auto simp: Block_init_def floordiv_def)
  from assms nh obtain a g1 where a: "MultiHeadAttention_init R h nh (ne div nh) g = Inr (a, g1)"
    by (cases "MultiHeadAttention_init R h nh (ne div nh) g")
       (auto simp: Block_init_def floordiv_def)
  from assms nh a obtain f g2 where f: "FeedForward_init R h ne g1 = Inr (f, g2)"
    by (cases "FeedForward_init R h ne g1") (auto simp: Block_init_def floordiv_def)
  from assms have b: "b = \<lparr>sa = a, ffwd = f, ln1 = LayerNorm_init ne, ln2 = LayerNorm_init ne\<rparr>"
    using nh by (simp add: Block_init_def floordiv_def a f)
  show ?thesis using FeedForward_init_training[OF f] by (simp add: b)
qed

lemma apply_Block_training:
  assumes "apply_Block R b g = (b', g')"
  shows "net_3 (ffwd b') = net_3 (ffwd b)"
  using assms
  by (auto simp: apply_Block_def apply_FeedForward_def split: prod.splits)

lemma GPTLanguageModel_init_training:
  assumes "GPTLanguageModel_init R h V g = Inr (m, g')"
  shows "list_all (\<lambda>b. net_3 (ffwd b) = \<lparr>dp = dropout h, training = True\<rparr>) (blocks m)"
proof -
  let ?P = "\<lambda>b. net_3 (ffwd b) = \<lparr>dp = dropout h, training = True\<rparr>"
  obtain te g1 where te: "Embedding_init R V (n_embed h) g = (te, g1)" by force
  obtain pe g2 where pe: "Embedding_init R (block_size h) (n_embed h) g1 = (pe, g2)" by force
  from assms(1) obtain bl g3 where
    bl: "replicateE (n_layer h) (Block_init R h (n_embed h) (n_head h)) g2 = Inr (bl, g3)"
    by (cases "replicateE (n_layer h) (Block_init R h (n_embed h) (n_head h)) g2")
       (auto simp: GPTLanguageModel_init_def te pe)
  obtain lh g4 where lh: "Linear_init R (n_embed h) V True g3 = (lh, g4)" by force
  define m0 where "m0 = \<lparr>token_embedding_table = te, position_embedding_table = pe, blocks = bl,
      ln_f = LayerNorm_init (n_embed h), lm_head = lh\<rparr>"
  from assms(1) have ap: "apply_init_weights R m0 g4 = (m, g')"
    by (simp add: GPTLanguageModel_init_def te pe bl lh m0_def)
  obtain te' h1 where te': "init_weights_embedding R te g4 = (te', h1)" by force
  obtain pe' h2 where pe': "init_weights_embedding R pe h1 = (pe', h2)" by force
  obtain bl' h3 where bl': "mapS (apply_Block R) bl h2 = (bl', h3)" by force
  obtain lh' h4 where lh': "init_weights_linear R lh h3 = (lh', h4)" by force
  from ap have m: "m = m0\<lparr>token_embedding_table := te', position_embedding_table := pe',
      blocks := bl', lm_head := lh'\<rparr>"
    by (simp add: apply_init_weights_def m0_def te' pe' bl' lh')
  have B: "length bl = n_layer h \<and> list_all ?P bl"
    by (rule replicateE_all[OF bl]) (rule Block_init_training)
  have B': "length bl' = length bl \<and> list_all ?P bl'"
    by (rule mapS_all[OF bl' conjunct2[OF B]]) (simp add: apply_Block_training)
  then show ?thesis by (simp add: m m0_def)
qed

lemma Head_init_features:
  assumes "Head_init R h hs g = Inr (a, g')"
  shows "in_features (key a) = n_embed h \<and> out_features (key a) = hs
     \<and> in_features (query a) = n_embed h \<and> out_features (query a) = hs
     \<and> in_features (val a) = n_embed h \<and> out_features (val a) = hs"
proof -
  obtain k g1 where k: "Linear_init R (n_embed h) hs False g = (k, g1)" by force
  obtain q g2 where q: "Linear_init R (n_embed h) hs False g1 = (q, g2)" by force
  obtain v g3 where v: "Linear_init R (n_embed h) hs False g2 = (v, g3)" by force
  from assms have a: "a = \<lparr>key = k, query = q, val = v, tril = tril_ones (block_size h),
      head_dropout = \<lparr>dp = dropout h, training = True\<rparr>\<rparr>"
    by (auto simp: Head_init_def k q v Dropout_init_def split: if_splits)
  show ?thesis
    using Linear_init_wf[OF k] Linear_init_wf[OF q] Linear_init_wf[OF v] by (simp add: a)
qed

lemma Block_init_head_size:
  assumes "Block_init R h ne nh g = Inr (b, g')"
  shows "length (heads (sa b)) = nh
     \<and> list_all (\<lambda>a. out_features (key a) = ne div nh \<and> out_features (query a) = ne div nh
           \<and> out_features (val a) = ne div nh) (heads (sa b))
     \<and> in_features (proj (sa b)) = (ne div nh) * nh"
proof -
  from assms have nh: "nh \<noteq> 0"
    by (cases "nh = 0") (auto simp: Block_init_def floordiv_def)
  from assms nh obtain a g1 where a: "MultiHeadAttention_init R h nh (ne div nh) g = Inr (a, g1)"
    by (cases "MultiHeadAttention_init R h nh (ne div nh) g")
       (auto simp: Block_init_def floordiv_def)
  from assms nh a obtain f g2 where f: "FeedForward_init R h ne g1 = Inr (f, g2)"
    by (cases "FeedForward_init R h ne g1") (auto simp: Block_init_def floordiv_def)
  from assms have b: "sa b = a"
    using nh by (auto simp: Block_init_def floordiv_def a f)
  from a obtain hds g3 where hds: "replicateE nh (Head_init R h (ne div nh)) g = Inr (hds, g3)"
    by (cases "replicateE nh (Head_init R h (ne div nh)) g")
       (auto simp: MultiHeadAttention_init_def)
  obtain p g4 where p: "Linear_init R ((ne div nh) * nh) (n_embed h) True g3 = (p, g4)" by force
  from a have m: "heads a = hds" "proj a = p"
    by (auto simp: MultiHeadAttention_init_def hds p Dropout_init_def split: if_splits)
  have "length hds = nh \<and>
      list_all (\<lambda>a. out_features (key a) = ne div nh \<and> out_features (query a) = ne div nh
           \<and> out_features (val a) = ne div nh) hds"
    by (rule replicateE_all[OF hds]) (simp add: Head_init_features)
  then show ?thesis using Linear_init_wf[OF p] by (simp add: b m)
qed


section \<open>The layers: results, shapes, and the description per batch element\<close>

lemma wf3_iff:
  "wf3 ((B, T, C), d) \<longleftrightarrow>
     length d = B \<and> (\<forall>m\<in>set d. length m = T \<and> (\<forall>v\<in>set m. length v = C))"
  by (auto simp: wf3_def list_all_iff)

lemma wf2_iff: "wf2 ((B, T), d) \<longleftrightarrow> length d = B \<and> (\<forall>r\<in>set d. length r = T)"
  by (auto simp: wf2_def list_all_iff)

lemma map2_same: "map2 f (map g xs) (map h xs) = map (\<lambda>x. f (g x) (h x)) xs"
  by (induction xs) auto

lemma Linear_vec_length: "wf_linear l \<Longrightarrow> length (Linear_vec l v) = out_features l"
  by (auto simp: Linear_vec_def wf_linear_def vadd_def split: option.splits)

lemma Linear_vec_linmap: "lin_bias l = None \<Longrightarrow> Linear_vec l v = linmap (lin_weight l) v"
  by (simp add: Linear_vec_def linmap_def)

lemma wf3_Linear:
  "wf_linear l \<Longrightarrow> wf3 ((B, T, C), d) \<Longrightarrow>
     wf3 ((B, T, out_features l), map (map (Linear_vec l)) d)"
  by (auto simp: wf3_iff Linear_vec_length)

lemma mapS_length: "mapS f xs g = (ys, g') \<Longrightarrow> length ys = length xs"
  by (induction xs arbitrary: g ys) (auto split: prod.splits)

lemma mapS_set:
  "mapS f xs g = (ys, g') \<Longrightarrow> y \<in> set ys \<Longrightarrow> \<exists>x\<in>set xs. \<exists>g1 g2. f x g1 = (y, g2)"
  by (induction xs arbitrary: g ys g') (auto split: prod.splits, blast+)

declare Dropout_forward.simps [simp del]

lemma Dropout_forward_off: "dropout_off l \<Longrightarrow> Dropout_forward R l x g = (x, g)"
  by (cases x, cases "fst x") (auto simp: dropout_off_def Dropout_forward.simps)

lemma Dropout_forward_shape:
  assumes "wf3 ((B, T, C), d)"
  shows "\<exists>d' g'. Dropout_forward R l ((B, T, C), d) g = (((B, T, C), d'), g')
           \<and> wf3 ((B, T, C), d')"
proof -
  have "wf3 ((B, T, C), d1)" if m: "mapS (mapS (mapS (dropout1 R (dp l)))) d g = (d1, g1)"
    for d1 g1
  proof -
    have l1: "length d1 = B" using mapS_length[OF m] assms by (simp add: wf3_iff)
    have "length a = T \<and> (\<forall>v\<in>set a. length v = C)" if a: "a \<in> set d1" for a
    proof -
      from mapS_set[OF m a] obtain x g2 g3 where x: "x \<in> set d"
        and fx: "mapS (mapS (dropout1 R (dp l))) x g2 = (a, g3)" by blast
      have "length a = T" using mapS_length[OF fx] x assms by (simp add: wf3_iff)
      moreover have "length v = C" if v: "v \<in> set a" for v
      proof -
        from mapS_set[OF fx v] obtain y g4 g5 where y: "y \<in> set x"
          and fy: "mapS (dropout1 R (dp l)) y g4 = (v, g5)" by blast
        show ?thesis using mapS_length[OF fy] x y assms by (simp add: wf3_iff)
      qed
      ultimately show ?thesis by blast
    qed
    with l1 show ?thesis by (simp add: wf3_iff)
  qed
  moreover have "wf3 ((B, T, C), map (map (map (\<lambda>x. 0))) d)"
    using assms by (auto simp: wf3_iff)
  ultimately show ?thesis using assms
    by (auto simp: Dropout_forward.simps split: prod.splits)
qed

lemma expand_id: "length xs = n \<Longrightarrow> expand n xs = xs"
  by (cases "(n, xs)" rule: expand.cases) auto

lemma pow_neg_half_pos: "0 < n \<Longrightarrow> pow_neg_half n = Inr (1 / sqrt (real n))"
  by (simp add: pow_neg_half_def powr_minus powr_half_sqrt field_simps)

lemma mask_slice_tril:
  "T \<le> bs \<Longrightarrow> mask_slice (tril_ones bs) T =
     ((T, T), map (\<lambda>i. map (\<lambda>j. i < j) [0..<T]) [0..<T])"
  by (auto simp: tril_ones_def take_map min_def intro!: nth_equalityI)

lemma dot_sum:
  "length a = n \<Longrightarrow> length b = n \<Longrightarrow> dot a b = (\<Sum>j<n. a ! j * b ! j)"
proof -
  assume a: "length a = n" and b: "length b = n"
  have "map2 (*) a b = map (\<lambda>j. a ! j * b ! j) [0..<n]"
    using a b by (auto intro!: nth_equalityI)
  then show ?thesis
    by (simp add: dot_def interv_sum_list_conv_sum_set_nat atLeast0LessThan)
qed

lemma softmax_length [simp]: "length (softmax xs) = length xs"
  by (simp add: softmax_def)

lemma head_probs_length [simp]: "length (head_probs a x i) = length x"
  by (simp add: head_probs_def)

lemma Head_scores_eq:
  assumes wf: "wf_head ne hs bs a" and T: "T \<le> bs" and x: "wf3 ((B, T, ne), d)"
  shows "bindE (Linear_forward (key a) ((B, T, ne), d)) (\<lambda>k.
         bindE (Linear_forward (query a) ((B, T, ne), d)) (\<lambda>q.
         bindE (matmul_nt q k) (\<lambda>qk.
         bindE (pow_neg_half (snd (snd (fst k)))) (\<lambda>c.
         bindE (masked_fill (scale3 c qk) (mask_slice (tril a) T)) f))))
       = f ((B, T, T), map (\<lambda>x. map (\<lambda>i. map (head_scores a x i) [0..<length x]) [0..<length x]) d)"
proof -
  have hs: "0 < hs" "in_features (key a) = ne" "in_features (query a) = ne"
    "out_features (key a) = hs" "out_features (query a) = hs" "tril a = tril_ones bs"
    using wf by (simp_all add: wf_head_def)
  have M: "expand T (map (\<lambda>i. expand T (map ((<) i) [0..<T])) [0..<T])
             = map (\<lambda>i. map ((<) i) [0..<T]) [0..<T]"
    by (simp add: expand_id cong: map_cong)
  have len: "\<And>x. x \<in> set d \<Longrightarrow> length x = T" using x by (simp add: wf3_iff)
  show ?thesis
    using hs T
    apply (simp add: pow_neg_half_pos scale3_def mask_slice_tril M map2_same)
    apply (rule arg_cong[where f = f])
    apply simp
    apply (rule ballI)
    subgoal for x
      using len[of x] wf
      by (auto intro!: nth_equalityI
          simp: expand_id head_scores_def Linear_vec_linmap wf_head_def cong: map_cong)
    done
qed

lemma wf3_probs:
  assumes "wf3 ((B, T, ne), d)"
  shows "wf3 ((B, T, T), map (\<lambda>x. map (head_probs a x) [0..<length x]) d)"
  using assms by (auto simp: wf3_iff)

lemma softmax3_scores:
  "softmax3 ((B, T, T), map (\<lambda>x. map (\<lambda>i. map (head_scores a x i) [0..<length x]) [0..<length x]) d)
     = ((B, T, T), map (\<lambda>x. map (head_probs a x) [0..<length x]) d)"
  by (simp add: softmax3_def head_probs_def)

lemma wf3_matmul:
  assumes "wf3 ((B, T, S), w)" and "length v = B"
  shows "wf3 ((B, T, H),
           map2 (\<lambda>ws vs. map (\<lambda>wi. map (\<lambda>c. dot wi (map (\<lambda>vj. vj ! c) vs)) [0..<H]) ws) w v)"
  using assms by (auto simp: wf3_iff dest!: set_zip_leftD)

lemma Head_forward_any:
  assumes wf: "wf_head ne hs bs a" and T: "T \<le> bs" and x: "wf3 ((B, T, ne), d)"
  shows "\<exists>d' g'. Head_forward R a ((B, T, ne), d) g = Inr (((B, T, hs), d'), g')
           \<and> wf3 ((B, T, hs), d')"
proof -
  from Dropout_forward_shape[OF wf3_probs[OF x], of R "head_dropout a" a g]
  obtain w g1 where w: "Dropout_forward R (head_dropout a)
      ((B, T, T), map (\<lambda>x. map (head_probs a x) [0..<length x]) d) g = (((B, T, T), w), g1)"
    and wfw: "wf3 ((B, T, T), w)" by blast
  have v: "in_features (val a) = ne" "out_features (val a) = hs"
    using wf by (simp_all add: wf_head_def)
  have B: "length d = B" using x by (simp add: wf3_iff)
  show ?thesis
    unfolding Head_forward.simps Head_scores_eq[OF wf T x] softmax3_scores
    using v w wf3_matmul[OF wfw, of "map (map (Linear_vec (val a))) d" hs] B
    by simp
qed

lemma Head_sample:
  assumes "wf_head ne hs bs a"
  shows "map (\<lambda>wi. map (\<lambda>c. dot wi (map (\<lambda>vj. vj ! c) (map (Linear_vec (val a)) x))) [0..<hs])
           (map (head_probs a x) [0..<length x]) = Head_spec a x"
  using assms
  by (auto simp: Head_spec_def wf_head_def dot_sum[where n = "length x"] Linear_vec_linmap
      intro!: sum.cong)

lemma Head_forward_eval:
  assumes wf: "wf_head ne hs bs a" and T: "T \<le> bs" and x: "wf3 ((B, T, ne), d)"
    and ev: "Head_eval a"
  shows "Head_forward R a ((B, T, ne), d) g = Inr (((B, T, hs), map (Head_spec a) d), g)"
proof -
  have v: "in_features (val a) = ne" "out_features (val a) = hs"
    using wf by (simp_all add: wf_head_def)
  have off: "dropout_off (head_dropout a)" using ev by (simp add: Head_eval_def)
  show ?thesis
    unfolding Head_forward.simps Head_scores_eq[OF wf T x] softmax3_scores
    using v by (simp add: Dropout_forward_off[OF off] map2_same Head_sample[OF wf] del: map_map)
qed

lemma mapE_any:
  assumes "\<And>a g. a \<in> set as \<Longrightarrow> \<exists>y g'. f a g = Inr (y, g') \<and> P y"
  shows "\<exists>ys g'. mapE f as g = Inr (ys, g') \<and> length ys = length as \<and> (\<forall>y\<in>set ys. P y)"
  using assms
proof (induction as arbitrary: g)
  case Nil
  show ?case by simp
next
  case (Cons a as)
  from Cons.prems[of a g] obtain y g1 where y: "f a g = Inr (y, g1)" "P y" by auto
  from Cons.IH[of g1] Cons.prems obtain ys g2 where
    ys: "mapE f as g1 = Inr (ys, g2)" "length ys = length as" "\<forall>y\<in>set ys. P y"
    by (metis list.set_intros(2))
  show ?case using y ys by simp
qed

lemma mapE_eval:
  assumes "\<And>a g. a \<in> set as \<Longrightarrow> f a g = Inr (F a, g)"
  shows "mapE f as g = Inr (map F as, g)"
  using assms by (induction as arbitrary: g) auto

lemma wf3_nth:
  "wf3 ((B, T, C), d) \<longleftrightarrow>
     length d = B \<and> (\<forall>i<B. length (d ! i) = T \<and> (\<forall>j<T. length (d ! i ! j) = C))"
  by (auto simp: wf3_iff all_set_conv_all_nth)

lemma wf3_cat2:
  assumes "wf3 ((B, T, C), a)" and "wf3 ((B, T, H), d)"
  shows "wf3 ((B, T, C + H), map2 (map2 (@)) a d)"
  using assms by (simp add: wf3_nth)

lemma cat_fold_any:
  assumes "\<forall>t\<in>set ts. \<exists>d. t = ((B, T, H), d) \<and> wf3 t" and "wf3 ((B, T, C), a)"
  shows "\<exists>d'. foldl (\<lambda>acc u. bindE acc (\<lambda>a. cat2 a u)) (Inr ((B, T, C), a)) ts
              = Inr ((B, T, C + H * length ts), d')
            \<and> wf3 ((B, T, C + H * length ts), d')"
  using assms
proof (induction ts arbitrary: C a)
  case Nil
  then show ?case by simp
next
  case (Cons t ts)
  from Cons.prems obtain d where t: "t = ((B, T, H), d)" and wd: "wf3 ((B, T, H), d)" by auto
  have w: "wf3 ((B, T, C + H), map2 (map2 (@)) a d)"
    using wd Cons.prems(2) by (rule wf3_cat2[rotated])
  from Cons.IH[OF _ w] Cons.prems(1) show ?case
    by (auto simp: t add.assoc)
qed


lemma MultiHeadAttention_forward_any:
  assumes wf: "wf_mha ne nh hs bs m" and T: "T \<le> bs" and x: "wf3 ((B, T, ne), d)"
  shows "\<exists>d' g'. MultiHeadAttention_forward R m ((B, T, ne), d) g = Inr (((B, T, ne), d'), g')
           \<and> wf3 ((B, T, ne), d')"
proof -
  have hd: "\<And>a. a \<in> set (heads m) \<Longrightarrow> wf_head ne hs bs a"
    using wf by (simp add: wf_mha_def list_all_iff)
  have "\<exists>ys g'. mapE (\<lambda>a. Head_forward R a ((B, T, ne), d)) (heads m) g = Inr (ys, g')
          \<and> length ys = length (heads m)
          \<and> (\<forall>y\<in>set ys. \<exists>d'. y = ((B, T, hs), d') \<and> wf3 y)"
  proof (rule mapE_any)
    fix a g0 assume "a \<in> set (heads m)"
    from Head_forward_any[OF hd[OF this] T x, of R g0]
    show "\<exists>y g'. Head_forward R a ((B, T, ne), d) g0 = Inr (y, g')
            \<and> (\<exists>d'. y = ((B, T, hs), d') \<and> wf3 y)" by blast
  qed
  then obtain ys g1 where ys: "mapE (\<lambda>a. Head_forward R a ((B, T, ne), d)) (heads m) g = Inr (ys, g1)"
    and len: "length ys = length (heads m)"
    and all: "\<forall>y\<in>set ys. \<exists>d'. y = ((B, T, hs), d') \<and> wf3 y" by blast
  from len wf obtain y ys' where yy: "ys = y # ys'" by (cases ys) (auto simp: wf_mha_def)
  from all yy obtain d0 where y: "y = ((B, T, hs), d0)" "wf3 ((B, T, hs), d0)" by auto
  have "\<forall>t\<in>set ys'. \<exists>d. t = ((B, T, hs), d) \<and> wf3 t" using all yy by simp
  from cat_fold_any[OF this y(2)]
  obtain dc where dc: "cat_last ys = Inr ((B, T, hs + hs * length ys'), dc)"
    "wf3 ((B, T, hs + hs * length ys'), dc)" unfolding yy y(1) cat_last.simps by blast
  have n: "hs + hs * length ys' = in_features (proj m)"
    using wf len yy by (auto simp: wf_mha_def)
  have p: "wf_linear (proj m)" "out_features (proj m) = ne" using wf by (simp_all add: wf_mha_def)
  from wf3_Linear[OF p(1) dc(2)] p(2)
  have wl: "wf3 ((B, T, ne), map (map (Linear_vec (proj m))) dc)" by simp
  from Dropout_forward_shape[OF wl, of R "mha_dropout m" g1]
  obtain d' g' where dr: "Dropout_forward R (mha_dropout m)
      ((B, T, ne), map (map (Linear_vec (proj m))) dc) g1 = (((B, T, ne), d'), g')"
    and wd: "wf3 ((B, T, ne), d')" by blast
  have "MultiHeadAttention_forward R m ((B, T, ne), d) g = Inr (((B, T, ne), d'), g')"
    unfolding MultiHeadAttention_forward_def
    by (simp add: ys dc n[symmetric] p dr del: cat_last.simps)
  with wd show ?thesis by blast
qed

lemma Head_spec_length [simp]: "length (Head_spec a x) = length x"
  by (simp add: Head_spec_def)

lemma cat_fold_eval:
  assumes "\<forall>x\<in>set d. length x = T"
  shows "foldl (\<lambda>acc u. bindE acc (\<lambda>a. cat2 a u))
           (Inr ((B, T, C), map (\<lambda>x. map (\<lambda>i. acc x i) [0..<length x]) d))
           (map (\<lambda>a. ((B, T, H), map (Head_spec a) d)) as)
         = Inr ((B, T, C + H * length as),
             map (\<lambda>x. map (\<lambda>i. acc x i @ concat (map (\<lambda>a. Head_spec a x ! i) as)) [0..<length x]) d)"
  using assms
proof (induction as arbitrary: C acc)
  case Nil
  then show ?case by simp
next
  case (Cons a as)
  have step: "map2 (map2 (@)) (map (\<lambda>x. map (\<lambda>i. acc x i) [0..<length x]) d) (map (Head_spec a) d)
      = map (\<lambda>x. map (\<lambda>i. acc x i @ Head_spec a x ! i) [0..<length x]) d"
    by (simp add: map2_same del: map_map) (auto intro!: nth_equalityI)
  show ?case
    using Cons.IH[of "C + H" "\<lambda>x i. acc x i @ Head_spec a x ! i"] Cons.prems
    by (simp add: step add.assoc del: map_map)
qed

declare Head_forward.simps [simp del]

lemma MultiHeadAttention_forward_eval:
  assumes wf: "wf_mha ne nh hs bs m" and T: "T \<le> bs" and x: "wf3 ((B, T, ne), d)"
    and ev: "MultiHeadAttention_eval m"
  shows "MultiHeadAttention_forward R m ((B, T, ne), d) g
           = Inr (((B, T, ne), map (MultiHeadAttention_spec m) d), g)"
proof -
  have hd: "\<And>a. a \<in> set (heads m) \<Longrightarrow> wf_head ne hs bs a"
    using wf by (simp add: wf_mha_def list_all_iff)
  have he: "\<And>a. a \<in> set (heads m) \<Longrightarrow> Head_eval a"
    using ev by (simp add: MultiHeadAttention_eval_def list_all_iff)
  have off: "dropout_off (mha_dropout m)" using ev by (simp add: MultiHeadAttention_eval_def)
  have ys: "mapE (\<lambda>a. Head_forward R a ((B, T, ne), d)) (heads m) g
      = Inr (map (\<lambda>a. ((B, T, hs), map (Head_spec a) d)) (heads m), g)"
    by (rule mapE_eval) (rule Head_forward_eval[OF hd T x he])
  from wf obtain a as where as: "heads m = a # as" by (cases "heads m") (auto simp: wf_mha_def)
  have len: "\<forall>x\<in>set d. length x = T" using x by (simp add: wf3_iff)
  have first: "map (Head_spec a) d = map (\<lambda>x. map (\<lambda>i. Head_spec a x ! i) [0..<length x]) d"
    by (auto intro!: nth_equalityI)
  have cat: "cat_last (map (\<lambda>a. ((B, T, hs), map (Head_spec a) d)) (heads m))
      = Inr ((B, T, hs + hs * length as),
          map (\<lambda>x. map (\<lambda>i. concat (map (\<lambda>a. Head_spec a x ! i) (heads m))) [0..<length x]) d)"
    unfolding as list.map cat_last.simps
    by (subst first) (simp add: cat_fold_eval[OF len] del: map_map)
  have n: "hs + hs * length as = in_features (proj m)"
    using wf as by (auto simp: wf_mha_def)
  have p: "out_features (proj m) = ne" using wf by (simp add: wf_mha_def)
  show ?thesis
    unfolding MultiHeadAttention_forward_def
    by (simp add: ys cat n[symmetric] p Dropout_forward_off[OF off] MultiHeadAttention_spec_def
        del: cat_last.simps)
qed

lemma FeedForward_forward_any:
  assumes wf: "wf_ff ne f" and x: "wf3 ((B, T, ne), d)"
  shows "\<exists>d' g'. FeedForward_forward R f ((B, T, ne), d) g = Inr (((B, T, ne), d'), g')
           \<and> wf3 ((B, T, ne), d')"
proof -
  have l: "wf_linear (net_0 f)" "in_features (net_0 f) = ne" "wf_linear (net_2 f)"
    "in_features (net_2 f) = out_features (net_0 f)" "out_features (net_2 f) = ne"
    using wf by (simp_all add: wf_ff_def)
  have w: "wf3 ((B, T, ne),
      map (map (Linear_vec (net_2 f))) (map (map (map (max 0))) (map (map (Linear_vec (net_0 f))) d)))"
    using x l(5) by (auto simp: wf3_iff Linear_vec_length[OF l(3)])
  from Dropout_forward_shape[OF w, of R "net_3 f" g] show ?thesis
    unfolding FeedForward_forward_def using l by (auto simp: relu3_def)
qed

lemma FeedForward_forward_eval:
  assumes wf: "wf_ff ne f" and ev: "FeedForward_eval f"
  shows "FeedForward_forward R f ((B, T, ne), d) g
           = Inr (((B, T, ne), map (FeedForward_spec f) d), g)"
proof -
  have l: "in_features (net_0 f) = ne" "in_features (net_2 f) = out_features (net_0 f)"
    "out_features (net_2 f) = ne"
    using wf by (simp_all add: wf_ff_def)
  have off: "dropout_off (net_3 f)" using ev by (simp add: FeedForward_eval_def)
  show ?thesis
    unfolding FeedForward_forward_def using l
    by (simp add: relu3_def Dropout_forward_off[OF off] FeedForward_spec_def comp_def)
qed

lemma LayerNorm_vec_length:
  "wf_layernorm n \<Longrightarrow> length v = normalized_shape n \<Longrightarrow> length (LayerNorm_vec n v) = length v"
  by (simp add: LayerNorm_vec_def wf_layernorm_def Let_def)

lemma wf3_LayerNorm:
  "wf_layernorm n \<Longrightarrow> wf3 ((B, T, normalized_shape n), d) \<Longrightarrow>
     wf3 ((B, T, normalized_shape n), map (map (LayerNorm_vec n)) d)"
  by (auto simp: wf3_iff LayerNorm_vec_length)

lemma wf3_add:
  "wf3 ((B, T, C), a) \<Longrightarrow> wf3 ((B, T, C), b) \<Longrightarrow> wf3 ((B, T, C), map2 (map2 vadd) a b)"
  by (simp add: wf3_nth vadd_def)

lemma map2_left: "map2 f xs (map g xs) = map (\<lambda>x. f x (g x)) xs"
  by (induction xs) auto

lemma map2_comp: "map2 f (map g xs) (map (h \<circ> g) xs) = map (\<lambda>x. f (g x) (h (g x))) xs"
  by (induction xs) auto

lemma Block_forward_any:
  assumes wf: "wf_block ne nh hs bs b" and T: "T \<le> bs" and x: "wf3 ((B, T, ne), d)"
  shows "\<exists>d' g'. Block_forward R b ((B, T, ne), d) g = Inr (((B, T, ne), d'), g')
           \<and> wf3 ((B, T, ne), d')"
proof -
  have w: "wf_mha ne nh hs bs (sa b)" "wf_ff ne (ffwd b)" "wf_layernorm (ln1 b)"
    "normalized_shape (ln1 b) = ne" "wf_layernorm (ln2 b)" "normalized_shape (ln2 b) = ne"
    using wf by (simp_all add: wf_block_def)
  from MultiHeadAttention_forward_any[OF w(1) T x, of R g]
  obtain y g1 where y: "MultiHeadAttention_forward R (sa b) ((B, T, ne), d) g
      = Inr (((B, T, ne), y), g1)" and wy: "wf3 ((B, T, ne), y)" by blast
  define x1 where "x1 = map (map (LayerNorm_vec (ln1 b))) (map2 (map2 vadd) d y)"
  have wx1: "wf3 ((B, T, ne), x1)"
    unfolding x1_def by (rule wf3_LayerNorm[OF w(3), unfolded w(4), OF wf3_add[OF x wy]])
  from FeedForward_forward_any[OF w(2) wx1, of R g1]
  obtain y1 g2 where y1: "FeedForward_forward R (ffwd b) ((B, T, ne), x1) g1
      = Inr (((B, T, ne), y1), g2)" and wy1: "wf3 ((B, T, ne), y1)" by blast
  define x2 where "x2 = map (map (LayerNorm_vec (ln2 b))) (map2 (map2 vadd) x1 y1)"
  have wx2: "wf3 ((B, T, ne), x2)"
    unfolding x2_def by (rule wf3_LayerNorm[OF w(5), unfolded w(6), OF wf3_add[OF wx1 wy1]])
  have a1: "add3 ((B, T, ne), d) ((B, T, ne), y) = Inr ((B, T, ne), map2 (map2 vadd) d y)"
    by simp
  have n1: "LayerNorm_forward (ln1 b) ((B, T, ne), map2 (map2 vadd) d y) = Inr ((B, T, ne), x1)"
    by (simp add: w(4) x1_def)
  have a2: "add3 ((B, T, ne), x1) ((B, T, ne), y1) = Inr ((B, T, ne), map2 (map2 vadd) x1 y1)"
    by simp
  have n2: "LayerNorm_forward (ln2 b) ((B, T, ne), map2 (map2 vadd) x1 y1) = Inr ((B, T, ne), x2)"
    by (simp add: w(6) x2_def)
  have "Block_forward R b ((B, T, ne), d) g = Inr (((B, T, ne), x2), g2)"
    unfolding Block_forward_def
    by (simp only: y bindE_simps prod.case a1 n1 y1 a2 n2)
  with wx2 show ?thesis by blast
qed

lemma Block_forward_eval:
  assumes wf: "wf_block ne nh hs bs b" and T: "T \<le> bs" and x: "wf3 ((B, T, ne), d)"
    and ev: "Block_eval b"
  shows "Block_forward R b ((B, T, ne), d) g = Inr (((B, T, ne), map (Block_spec b) d), g)"
proof -
  have w: "wf_mha ne nh hs bs (sa b)" "wf_ff ne (ffwd b)"
    "normalized_shape (ln1 b) = ne" "normalized_shape (ln2 b) = ne"
    using wf by (simp_all add: wf_block_def)
  have e: "MultiHeadAttention_eval (sa b)" "FeedForward_eval (ffwd b)"
    using ev by (simp_all add: Block_eval_def)
  define X1 where "X1 = (\<lambda>x. LayerNorm_spec (ln1 b) (madd x (MultiHeadAttention_spec (sa b) x)))"
  have a1: "add3 ((B, T, ne), d) ((B, T, ne), map (MultiHeadAttention_spec (sa b)) d)
      = Inr ((B, T, ne), map (\<lambda>x. madd x (MultiHeadAttention_spec (sa b) x)) d)"
    by (simp add: map2_left madd_def del: map_map)
  have n1: "LayerNorm_forward (ln1 b) ((B, T, ne), map (\<lambda>x. madd x (MultiHeadAttention_spec (sa b) x)) d)
      = Inr ((B, T, ne), map X1 d)"
    by (simp add: w(3) X1_def LayerNorm_spec_def)
  have a2: "add3 ((B, T, ne), map X1 d) ((B, T, ne), map (FeedForward_spec (ffwd b)) (map X1 d))
      = Inr ((B, T, ne), map (\<lambda>x. madd (X1 x) (FeedForward_spec (ffwd b) (X1 x))) d)"
    by (simp add: map2_comp madd_def)
  have n2: "LayerNorm_forward (ln2 b)
        ((B, T, ne), map (\<lambda>x. madd (X1 x) (FeedForward_spec (ffwd b) (X1 x))) d)
      = Inr ((B, T, ne), map (Block_spec b) d)"
    by (simp add: w(4) X1_def LayerNorm_spec_def Block_spec_def Let_def)
  show ?thesis
    unfolding Block_forward_def
    by (simp only: MultiHeadAttention_forward_eval[OF w(1) T x e(1)] bindE_simps prod.case
        a1 n1 FeedForward_forward_eval[OF w(2) e(2)] a2 n2)
qed

lemma Block_forward_steps:
  assumes wf: "wf_block ne nh hs bs b" and T: "T \<le> bs" and x: "wf3 ((B, T, ne), d)"
  shows "\<exists>y g1 x1 y1 g2.
      MultiHeadAttention_forward R (sa b) ((B, T, ne), d) g = Inr (((B, T, ne), y), g1)
    \<and> x1 = map (LayerNorm_spec (ln1 b)) (map2 madd d y)
    \<and> FeedForward_forward R (ffwd b) ((B, T, ne), x1) g1 = Inr (((B, T, ne), y1), g2)
    \<and> Block_forward R b ((B, T, ne), d) g
        = Inr (((B, T, ne), map (LayerNorm_spec (ln2 b)) (map2 madd x1 y1)), g2)"
proof -
  have w: "wf_mha ne nh hs bs (sa b)" "wf_ff ne (ffwd b)" "wf_layernorm (ln1 b)"
    "normalized_shape (ln1 b) = ne" "wf_layernorm (ln2 b)" "normalized_shape (ln2 b) = ne"
    using wf by (simp_all add: wf_block_def)
  have ln: "LayerNorm_spec n = map (LayerNorm_vec n)" for n
    by (rule ext) (simp add: LayerNorm_spec_def)
  have ma: "madd = (\<lambda>u v. map2 vadd u v)"
    by (intro ext) (simp add: madd_def)
  from MultiHeadAttention_forward_any[OF w(1) T x, of R g]
  obtain y g1 where y: "MultiHeadAttention_forward R (sa b) ((B, T, ne), d) g
      = Inr (((B, T, ne), y), g1)" and wy: "wf3 ((B, T, ne), y)" by blast
  define x1 where "x1 = map (LayerNorm_spec (ln1 b)) (map2 madd d y)"
  have x1: "x1 = map (map (LayerNorm_vec (ln1 b))) (map2 (map2 vadd) d y)"
    unfolding x1_def ln ma ..
  have wx1: "wf3 ((B, T, ne), x1)"
    unfolding x1 by (rule wf3_LayerNorm[OF w(3), unfolded w(4), OF wf3_add[OF x wy]])
  from FeedForward_forward_any[OF w(2) wx1, of R g1]
  obtain y1 g2 where y1: "FeedForward_forward R (ffwd b) ((B, T, ne), x1) g1
      = Inr (((B, T, ne), y1), g2)" by blast
  define x2 where "x2 = map (LayerNorm_spec (ln2 b)) (map2 madd x1 y1)"
  have x2: "x2 = map (map (LayerNorm_vec (ln2 b))) (map2 (map2 vadd) x1 y1)"
    unfolding x2_def ln ma ..
  have a1: "add3 ((B, T, ne), d) ((B, T, ne), y) = Inr ((B, T, ne), map2 (map2 vadd) d y)"
    by simp
  have n1: "LayerNorm_forward (ln1 b) ((B, T, ne), map2 (map2 vadd) d y) = Inr ((B, T, ne), x1)"
    by (simp add: w(4) x1)
  have a2: "add3 ((B, T, ne), x1) ((B, T, ne), y1) = Inr ((B, T, ne), map2 (map2 vadd) x1 y1)"
    by simp
  have n2: "LayerNorm_forward (ln2 b) ((B, T, ne), map2 (map2 vadd) x1 y1) = Inr ((B, T, ne), x2)"
    by (simp add: w(6) x2)
  have "Block_forward R b ((B, T, ne), d) g = Inr (((B, T, ne), x2), g2)"
    unfolding Block_forward_def
    by (simp only: y bindE_simps prod.case a1 n1 y1 a2 n2)
  with y y1 show ?thesis unfolding x2_def x1_def by blast
qed

lemma wf3_Block_spec:
  assumes "wf_block ne nh hs bs b" and "T \<le> bs" and "wf3 ((B, T, ne), d)" and "Block_eval b"
  shows "wf3 ((B, T, ne), map (Block_spec b) d)"
  using Block_forward_any[OF assms(1-3), of "undefined :: unit rng" "()"]
    Block_forward_eval[OF assms, of "undefined :: unit rng" "()"] by auto

lemma Sequential_forward_any:
  assumes "list_all (wf_block ne nh hs bs) bl" and "T \<le> bs" and "wf3 ((B, T, ne), d)"
  shows "\<exists>d' g'. Sequential_forward R bl ((B, T, ne), d) g = Inr (((B, T, ne), d'), g')
           \<and> wf3 ((B, T, ne), d')"
  using assms
proof (induction bl arbitrary: d g)
  case Nil
  then show ?case by simp
next
  case (Cons b bl)
  from Cons.prems have wb: "wf_block ne nh hs bs b" and wbl: "list_all (wf_block ne nh hs bs) bl"
    by simp_all
  from Block_forward_any[OF wb Cons.prems(2,3), of R g]
  obtain y g1 where y: "Block_forward R b ((B, T, ne), d) g = Inr (((B, T, ne), y), g1)"
    and wy: "wf3 ((B, T, ne), y)" by blast
  from Cons.IH[OF wbl Cons.prems(2) wy, of g1] show ?case by (simp add: y)
qed

lemma Sequential_forward_eval:
  assumes "list_all (wf_block ne nh hs bs) bl" and "T \<le> bs" and "wf3 ((B, T, ne), d)"
    and "list_all Block_eval bl"
  shows "Sequential_forward R bl ((B, T, ne), d) g
           = Inr (((B, T, ne), map (fold Block_spec bl) d), g)"
  using assms
proof (induction bl arbitrary: d)
  case Nil
  then show ?case by simp
next
  case (Cons b bl)
  from Cons.prems have wb: "wf_block ne nh hs bs b" and wbl: "list_all (wf_block ne nh hs bs) bl"
    and eb: "Block_eval b" and ebl: "list_all Block_eval bl"
    by simp_all
  note wy = wf3_Block_spec[OF wb Cons.prems(2,3) eb]
  show ?case
    by (simp add: Block_forward_eval[OF wb Cons.prems(2,3) eb]
        Cons.IH[OF wbl Cons.prems(2) wy ebl] comp_def)
qed

declare GPTLanguageModel_forward.simps [simp del]

lemma arange_take:
  "T \<le> length P \<Longrightarrow> map (\<lambda>i. P ! nat i) (map int [0..<T]) = take T P"
  by (auto intro!: nth_equalityI)

lemma embed_ok:
  assumes wf: "wf_gpt h V m" and x: "wf2 ((B, T), rows)" and v: "valid_tokens V rows"
    and T: "T \<le> block_size h"
  shows "bindE (Embedding_forward (token_embedding_table m) ((B, T), rows)) (\<lambda>tok_emb.
         bindE (Embedding_arange (position_embedding_table m) T) (\<lambda>pos_emb.
         bindE (add_positions tok_emb pos_emb) f))
       = f ((B, T, n_embed h), map (embed_spec m) rows)"
    and "wf3 ((B, T, n_embed h), map (embed_spec m) rows)"
proof -
  let ?te = "token_embedding_table m" and ?pe = "position_embedding_table m"
  have w: "num_embeddings ?te = V" "embedding_dim ?te = n_embed h"
    "num_embeddings ?pe = block_size h" "embedding_dim ?pe = n_embed h"
    "length (emb_weight ?te) = V" "length (emb_weight ?pe) = block_size h"
    "\<And>e. e \<in> set (emb_weight ?te) \<Longrightarrow> length e = n_embed h"
    "\<And>e. e \<in> set (emb_weight ?pe) \<Longrightarrow> length e = n_embed h"
    using wf by (auto simp: wf_gpt_def wf_embedding_def list_all_iff)
  have len: "\<And>r. r \<in> set rows \<Longrightarrow> length r = T" and B: "length rows = B"
    using x by (simp_all add: wf2_iff)
  have val: "\<And>r i. r \<in> set rows \<Longrightarrow> i \<in> set r \<Longrightarrow> 0 \<le> i \<and> nat i < V"
    using v by (fastforce simp: valid_tokens_def list_all_iff valid_index_def)
  have ar: "Embedding_arange ?pe T = Inr ((T, n_embed h), take T (emb_weight ?pe))"
    unfolding Embedding_arange_def arange_take[of T "emb_weight ?pe", unfolded w(6), OF T]
    using T by (simp add: w list_all_iff valid_index_def)
  have tk: "Embedding_forward ?te ((B, T), rows)
      = Inr ((B, T, n_embed h), map (map (\<lambda>i. emb_weight ?te ! nat i)) rows)"
    using v by (simp add: w valid_tokens_def)
  have dat: "map (\<lambda>mm. map2 vadd mm (take T (emb_weight ?pe)))
       (map (map (\<lambda>i. emb_weight ?te ! nat i)) rows) = map (embed_spec m) rows"
    by (simp add: embed_spec_def madd_def len cong: map_cong)
  have ad: "add_positions ((B, T, n_embed h), map (map (\<lambda>i. emb_weight ?te ! nat i)) rows)
      ((T, n_embed h), take T (emb_weight ?pe)) = Inr ((B, T, n_embed h), map (embed_spec m) rows)"
    unfolding add_positions.simps dat by simp
  show "bindE (Embedding_forward ?te ((B, T), rows)) (\<lambda>tok_emb.
         bindE (Embedding_arange ?pe T) (\<lambda>pos_emb.
         bindE (add_positions tok_emb pos_emb) f))
       = f ((B, T, n_embed h), map (embed_spec m) rows)"
    by (simp only: tk ar ad bindE_simps)
  have "length (vadd a p) = n_embed h" if "length a = n_embed h" "length p = n_embed h" for a p
    using that by (simp add: vadd_def)
  show "wf3 ((B, T, n_embed h), map (embed_spec m) rows)"
    using T len B val w(5-8)
    by (auto simp: wf3_iff embed_spec_def madd_def vadd_def set_zip)
qed

lemma forward_any:
  assumes wf: "wf_gpt h V m" and x: "wf2 ((B, T), rows)" and v: "valid_tokens V rows"
    and T: "T \<le> block_size h"
  shows "\<exists>lg g'. wf3 ((B, T, V), lg) \<and>
     (\<forall>tg. GPTLanguageModel_forward R m ((B, T), rows) tg g =
        (case tg of
           None \<Rightarrow> Inr ((Logits3 ((B, T, V), lg), None), g')
         | Some t \<Rightarrow>
             bindE (view1 t (B * T)) (\<lambda>tg1.
             bindE (cross_entropy ((B * T, V), concat lg) tg1) (\<lambda>l.
               Inr ((Logits2 ((B * T, V), concat lg), Some l), g')))))"
proof -
  have w: "list_all (wf_block (n_embed h) (n_head h) (n_embed h div n_head h) (block_size h))
       (blocks m)"
    "wf_layernorm (ln_f m)" "normalized_shape (ln_f m) = n_embed h"
    "wf_linear (lm_head m)" "in_features (lm_head m) = n_embed h" "out_features (lm_head m) = V"
    using wf by (simp_all add: wf_gpt_def)
  note e = embed_ok[OF wf x v T]
  from Sequential_forward_any[OF w(1) T e(2), of R g]
  obtain y g1 where y: "Sequential_forward R (blocks m) ((B, T, n_embed h), map (embed_spec m) rows) g
      = Inr (((B, T, n_embed h), y), g1)" and wy: "wf3 ((B, T, n_embed h), y)" by blast
  define lg where "lg = map (map (Linear_vec (lm_head m))) (map (map (LayerNorm_vec (ln_f m))) y)"
  have n: "LayerNorm_forward (ln_f m) ((B, T, n_embed h), y)
      = Inr ((B, T, n_embed h), map (map (LayerNorm_vec (ln_f m))) y)"
    by (simp add: w(3))
  have l: "Linear_forward (lm_head m) ((B, T, n_embed h), map (map (LayerNorm_vec (ln_f m))) y)
      = Inr ((B, T, V), lg)"
    by (simp add: w(5) w(6) lg_def)
  have wl: "wf3 ((B, T, V), lg)"
    unfolding lg_def
    using wf3_Linear[OF w(4) wf3_LayerNorm[OF w(2), unfolded w(3), OF wy]] w(6) by simp
  have "GPTLanguageModel_forward R m ((B, T), rows) tg g =
        (case tg of
           None \<Rightarrow> Inr ((Logits3 ((B, T, V), lg), None), g1)
         | Some t \<Rightarrow>
             bindE (view1 t (B * T)) (\<lambda>tg1.
             bindE (cross_entropy ((B * T, V), concat lg) tg1) (\<lambda>l.
               Inr ((Logits2 ((B * T, V), concat lg), Some l), g1))))" for tg
    unfolding GPTLanguageModel_forward.simps e(1)
    by (simp only: y bindE_simps prod.case n l)
  with wl show ?thesis by blast
qed

lemma forward_eval:
  assumes wf: "wf_gpt h V m" and x: "wf2 ((B, T), rows)" and v: "valid_tokens V rows"
    and T: "T \<le> block_size h" and ev: "gpt_eval m"
  shows "GPTLanguageModel_forward R m ((B, T), rows) tg g =
        (case tg of
           None \<Rightarrow> Inr ((Logits3 ((B, T, V), map (logits_spec m) rows), None), g)
         | Some t \<Rightarrow>
             bindE (view1 t (B * T)) (\<lambda>tg1.
             bindE (cross_entropy ((B * T, V), concat (map (logits_spec m) rows)) tg1) (\<lambda>l.
               Inr ((Logits2 ((B * T, V), concat (map (logits_spec m) rows)), Some l), g))))"
proof -
  have w: "list_all (wf_block (n_embed h) (n_head h) (n_embed h div n_head h) (block_size h))
       (blocks m)"
    "normalized_shape (ln_f m) = n_embed h"
    "in_features (lm_head m) = n_embed h" "out_features (lm_head m) = V"
    using wf by (simp_all add: wf_gpt_def)
  have eb: "list_all Block_eval (blocks m)" using ev by (simp add: gpt_eval_def)
  note e = embed_ok[OF wf x v T]
  note y = Sequential_forward_eval[OF w(1) T e(2) eb, of R g]
  have n: "LayerNorm_forward (ln_f m)
        ((B, T, n_embed h), map (fold Block_spec (blocks m)) (map (embed_spec m) rows))
      = Inr ((B, T, n_embed h),
          map (\<lambda>r. LayerNorm_spec (ln_f m) (fold Block_spec (blocks m) (embed_spec m r))) rows)"
    by (simp add: w(2) LayerNorm_spec_def)
  have l: "Linear_forward (lm_head m) ((B, T, n_embed h),
          map (\<lambda>r. LayerNorm_spec (ln_f m) (fold Block_spec (blocks m) (embed_spec m r))) rows)
      = Inr ((B, T, V), map (logits_spec m) rows)"
    by (simp add: w(3) w(4) logits_spec_def)
  show ?thesis
    unfolding GPTLanguageModel_forward.simps e(1)
    by (simp only: y bindE_simps prod.case n l)
qed


section \<open>The loss\<close>

lemma exp_le_sum_list:
  fixes row :: "real list"
  assumes "i < length row"
  shows "exp (row ! i) \<le> sum_list (map exp row)"
proof -
  have "sum_list (map exp row) = (\<Sum>j<length row. exp (row ! j))"
    by (simp add: sum_list_sum_nth atLeast0LessThan)
  moreover have "exp (row ! i) \<le> (\<Sum>j<length row. exp (row ! j))"
    by (rule member_le_sum[of i "{..<length row}" "\<lambda>j. exp (row ! j)"]) (use assms in auto)
  ultimately show ?thesis by simp
qed

lemma nll_nonneg:
  assumes "valid_index (length row) t"
  shows "0 \<le> nll row t"
proof -
  have i: "nat t < length row" using assms by (simp add: valid_index_def nat_less_iff)
  have "0 < exp (row ! nat t)" by simp
  with exp_le_sum_list[OF i] have "ln (exp (row ! nat t)) \<le> ln (sum_list (map exp row))"
    by (intro iffD2[OF ln_le_cancel_iff]) linarith+
  then show ?thesis by (simp add: nll_def)
qed

lemma cross_entropy_ok:
  assumes "length rows = N" and "length tg = N" and "list_all (valid_index C) tg"
    and "\<forall>r\<in>set rows. length r = C"
  shows "\<exists>l. cross_entropy ((N, C), rows) (N, tg) = Inr l
           \<and> (if N = 0 then l = NaN else \<exists>r. l = Loss r \<and> 0 \<le> r)"
proof -
  have ne: "\<forall>t\<in>set tg. t \<noteq> - 100" using assms(3) by (auto simp: list_all_iff valid_index_def)
  then have kept: "filter (\<lambda>(r, t). t \<noteq> - 100) (zip rows tg) = zip rows tg"
    by (auto simp: filter_id_conv dest: set_zip_rightD)
  have ok: "list_all (\<lambda>t. t = - 100 \<or> valid_index C t) tg"
    using assms(3) by (simp add: list_all_iff)
  have nn: "0 \<le> sum_list (map (\<lambda>(r, t). nll r t) (zip rows tg))"
  proof (rule sum_list_nonneg)
    fix x assume "x \<in> set (map (\<lambda>(r, t). nll r t) (zip rows tg))"
    then obtain r t where rt: "(r, t) \<in> set (zip rows tg)" and x: "x = nll r t" by auto
    from rt have "r \<in> set rows" "t \<in> set tg" by (auto dest: set_zip_leftD set_zip_rightD)
    with assms(3,4) have "valid_index (length r) t" by (auto simp: list_all_iff)
    then show "0 \<le> x" unfolding x by (rule nll_nonneg)
  qed
  have z: "zip rows tg = [] \<longleftrightarrow> N = 0" using assms(1,2) by (cases rows; cases tg) auto
  show ?thesis
    using nn z by (simp add: kept ok Let_def)
qed

declare cross_entropy.simps [simp del]

lemma concat_wf3:
  assumes "wf3 ((B, T, C), d)"
  shows "length (concat d) = B * T" and "\<forall>r\<in>set (concat d). length r = C"
proof -
  have "map length d = replicate B T" using assms by (auto simp: wf3_iff intro!: nth_equalityI)
  then show "length (concat d) = B * T" by (simp add: length_concat sum_list_replicate)
  show "\<forall>r\<in>set (concat d). length r = C" using assms by (auto simp: wf3_iff)
qed

lemma flat_viewable_contiguous: "flat_viewable [B, T] [T, 1]"
  by (simp add: flat_viewable_def)

lemma view1_contiguous: "view1 ([B, T], [T, 1], flat) (B * T) = Inr (B * T, flat)"
  using flat_viewable_contiguous[of B T] by (simp add: view1_def)

lemma forward_result:
  assumes "wf_gpt h V m" and "wf2 ((B, T), rows)" and "valid_tokens V rows"
    and "T \<le> block_size h"
  shows "\<exists>lg g'. wf3 ((B, T, V), lg)
     \<and> GPTLanguageModel_forward R m ((B, T), rows) None g = Inr ((Logits3 ((B, T, V), lg), None), g')
     \<and> wf2 ((B * T, V), concat lg)
     \<and> (\<forall>st flat. length flat = B * T \<and> list_all (valid_index V) flat \<longrightarrow>
          (if B * T = 0 \<or> flat_viewable [B, T] st
           then \<exists>l. GPTLanguageModel_forward R m ((B, T), rows) (Some ([B, T], st, flat)) g
                        = Inr ((Logits2 ((B * T, V), concat lg), Some l), g')
                    \<and> (if B * T = 0 then l = NaN else \<exists>r. l = Loss r \<and> 0 \<le> r)
           else GPTLanguageModel_forward R m ((B, T), rows) (Some ([B, T], st, flat)) g
                  = Inl RuntimeError))"
proof -
  from forward_any[OF assms, of R g] obtain lg g' where wl: "wf3 ((B, T, V), lg)"
    and f: "\<And>tg. GPTLanguageModel_forward R m ((B, T), rows) tg g =
        (case tg of
           None \<Rightarrow> Inr ((Logits3 ((B, T, V), lg), None), g')
         | Some t \<Rightarrow>
             bindE (view1 t (B * T)) (\<lambda>tg1.
             bindE (cross_entropy ((B * T, V), concat lg) tg1) (\<lambda>l.
               Inr ((Logits2 ((B * T, V), concat lg), Some l), g'))))" by blast
  note c = concat_wf3[OF wl]
  have w2: "wf2 ((B * T, V), concat lg)" using c by (simp add: wf2_iff)
  have "if B * T = 0 \<or> flat_viewable [B, T] st
           then \<exists>l. GPTLanguageModel_forward R m ((B, T), rows) (Some ([B, T], st, flat)) g
                        = Inr ((Logits2 ((B * T, V), concat lg), Some l), g')
                    \<and> (if B * T = 0 then l = NaN else \<exists>r. l = Loss r \<and> 0 \<le> r)
           else GPTLanguageModel_forward R m ((B, T), rows) (Some ([B, T], st, flat)) g
                  = Inl RuntimeError"
    if fl: "length flat = B * T" "list_all (valid_index V) flat" for st flat
  proof (cases "B * T = 0 \<or> flat_viewable [B, T] st")
    case True
    from cross_entropy_ok[OF c(1) fl c(2)] obtain l where
      l: "cross_entropy ((B * T, V), concat lg) (B * T, flat) = Inr l"
      "if B * T = 0 then l = NaN else \<exists>r. l = Loss r \<and> 0 \<le> r" by blast
    have v: "view1 ([B, T], st, flat) (B * T) = Inr (B * T, flat)"
      using True by (simp add: view1_def)
    have "GPTLanguageModel_forward R m ((B, T), rows) (Some ([B, T], st, flat)) g
        = Inr ((Logits2 ((B * T, V), concat lg), Some l), g')"
      by (simp add: f v l(1))
    with l(2) True show ?thesis by (simp only: if_True) blast
  next
    case False
    have v: "view1 ([B, T], st, flat) (B * T) = Inl RuntimeError"
      using False by (simp add: view1_def)
    have "GPTLanguageModel_forward R m ((B, T), rows) (Some ([B, T], st, flat)) g
        = Inl RuntimeError"
      by (simp add: f v)
    with False show ?thesis by (simp only: if_False)
  qed
  then have a: "\<forall>st flat. length flat = B * T \<and> list_all (valid_index V) flat \<longrightarrow>
          (if B * T = 0 \<or> flat_viewable [B, T] st
           then \<exists>l. GPTLanguageModel_forward R m ((B, T), rows) (Some ([B, T], st, flat)) g
                        = Inr ((Logits2 ((B * T, V), concat lg), Some l), g')
                    \<and> (if B * T = 0 then l = NaN else \<exists>r. l = Loss r \<and> 0 \<le> r)
           else GPTLanguageModel_forward R m ((B, T), rows) (Some ([B, T], st, flat)) g
                  = Inl RuntimeError)"
    by blast
  have n: "GPTLanguageModel_forward R m ((B, T), rows) None g
      = Inr ((Logits3 ((B, T, V), lg), None), g')"
    by (simp add: f)
  from wl n w2 a show ?thesis by blast
qed

lemma forward_view:
  assumes "wf_gpt h V m" and "wf2 ((B, T), rows)" and "valid_tokens V rows"
    and "T \<le> block_size h"
  shows "GPTLanguageModel_forward R m ((B, T), rows) (Some (s, st, flat)) g =
     (if prod_list s = B * T \<and> (B * T = 0 \<or> flat_viewable s st)
      then GPTLanguageModel_forward R m ((B, T), rows) (Some ([B, T], [T, 1], flat)) g
      else Inl RuntimeError)"
proof -
  from forward_any[OF assms, of R g] obtain lg g' where
    f: "\<And>tg. GPTLanguageModel_forward R m ((B, T), rows) tg g =
        (case tg of
           None \<Rightarrow> Inr ((Logits3 ((B, T, V), lg), None), g')
         | Some t \<Rightarrow>
             bindE (view1 t (B * T)) (\<lambda>tg1.
             bindE (cross_entropy ((B * T, V), concat lg) tg1) (\<lambda>l.
               Inr ((Logits2 ((B * T, V), concat lg), Some l), g'))))" by blast
  have v: "view1 (s, st, flat) (B * T) =
      (if prod_list s = B * T \<and> (B * T = 0 \<or> flat_viewable s st)
       then Inr (B * T, flat) else Inl RuntimeError)"
    by (simp add: view1_def)
  have c: "GPTLanguageModel_forward R m ((B, T), rows) (Some ([B, T], [T, 1], flat)) g
      = bindE (cross_entropy ((B * T, V), concat lg) (B * T, flat)) (\<lambda>l.
               Inr ((Logits2 ((B * T, V), concat lg), Some l), g'))"
    by (simp only: f option.case view1_contiguous bindE_simps)
  have s: "GPTLanguageModel_forward R m ((B, T), rows) (Some (s, st, flat)) g
      = bindE (view1 (s, st, flat) (B * T)) (\<lambda>tg1.
             bindE (cross_entropy ((B * T, V), concat lg) tg1) (\<lambda>l.
               Inr ((Logits2 ((B * T, V), concat lg), Some l), g')))"
    by (simp only: f option.case)
  show ?thesis
  proof (cases "prod_list s = B * T \<and> (B * T = 0 \<or> flat_viewable s st)")
    case True
    have w: "view1 (s, st, flat) (B * T) = Inr (B * T, flat)"
      unfolding v by (rule if_P[OF True])
    show ?thesis unfolding s c w bindE_simps by (rule if_P[OF True, symmetric])
  next
    case False
    have w: "view1 (s, st, flat) (B * T) = Inl RuntimeError"
      unfolding v by (rule if_not_P[OF False])
    show ?thesis unfolding s c w bindE_simps by (rule if_not_P[OF False, symmetric])
  qed
qed


section \<open>Generation\<close>

lemma sum_list_divide:
  fixes f :: "'a \<Rightarrow> real"
  shows "sum_list (map (\<lambda>x. f x / c) xs) = sum_list (map f xs) / c"
  by (induction xs) (simp_all add: add_divide_distrib)

lemma softmax_Fin_valid:
  assumes "r \<noteq> []"
  shows "valid_probs (softmax (map Fin r))"
proof -
  let ?S = "sum_list (map exp_x (map Fin r))"
  have "?S = sum_list (map exp r)" by (simp add: comp_def)
  moreover have "0 < sum_list (map exp r)"
    using assms by (cases r) (auto intro!: add_pos_nonneg sum_list_nonneg)
  ultimately have S: "0 < ?S" by simp
  have "sum_list (softmax (map Fin r)) = ?S / ?S"
    unfolding softmax_def by (simp only: sum_list_divide)
  then have "sum_list (softmax (map Fin r)) = 1" using S by simp
  moreover have "list_all (\<lambda>x. 0 \<le> x) (softmax (map Fin r))"
    using S by (auto simp: softmax_def list_all_iff)
  ultimately show ?thesis using assms by (simp add: valid_probs_def softmax_def)
qed

lemma rng0_ok: "multinomial_ok rng0"
  by (auto simp: multinomial_ok_def rng0_def list_all_iff valid_probs_def list_all2_conv_all_nth)

lemma rng0_empty_ok: "multinomial_empty_ok rng0"
  by (simp add: multinomial_empty_ok_def rng0_def)

lemma forward_too_long:
  assumes "num_embeddings (position_embedding_table m) < T"
  shows "GPTLanguageModel_forward R m ((B, T), rows) targets g = Inl IndexError"
proof -
  have "\<not> list_all (valid_index (num_embeddings (position_embedding_table m))) (map int [0..<T])"
    using assms
    by (auto simp: list_all_iff valid_index_def
        intro!: bexI[of _ "num_embeddings (position_embedding_table m)"])
  then have "Embedding_arange (position_embedding_table m) T = Inl IndexError"
    by (simp add: Embedding_arange_def)
  then show ?thesis
    by (cases "Embedding_forward (token_embedding_table m) ((B, T), rows)")
       (auto simp: GPTLanguageModel_forward.simps split: if_splits)
qed

lemma slice_last_wf:
  assumes "wf2 ((B, T), rows)" and "valid_tokens V rows" and "0 < n"
  shows "slice_last n ((B, T), rows) = ((B, min T n), map (\<lambda>r. drop (length r - n) r) rows)"
    and "wf2 ((B, min T n), map (\<lambda>r. drop (length r - n) r) rows)"
    and "valid_tokens V (map (\<lambda>r. drop (length r - n) r) rows)"
proof -
  show "slice_last n ((B, T), rows) = ((B, min T n), map (\<lambda>r. drop (length r - n) r) rows)"
    using assms(3) by simp
  show "wf2 ((B, min T n), map (\<lambda>r. drop (length r - n) r) rows)"
    using assms(1) by (auto simp: wf2_iff)
  have "set (drop k r) \<subseteq> set r" for k and r :: "int list" by (rule set_drop_subset)
  then show "valid_tokens V (map (\<lambda>r. drop (length r - n) r) rows)"
    using assms(2) unfolding valid_tokens_def list_all_iff by (simp add: subset_iff)
qed

lemma generate_step_eq:
  assumes wf: "wf_gpt h V m" and x: "wf2 ((B, T), rows)" and v: "valid_tokens V rows"
    and T: "1 \<le> T" and bs: "0 < block_size h"
  shows "\<exists>P g1. length P = B \<and> list_all (\<lambda>p. length p = V) P
      \<and> (0 < V \<longrightarrow> list_all valid_probs P)
      \<and> generate_step R h m ((B, T), rows) g =
          bindE (multinomial R P g1) (\<lambda>(nxt, g2).
          bindE (cat_column ((B, T), rows) nxt) (\<lambda>i. Inr (i, g2)))"
proof -
  note s = slice_last_wf[OF x v bs]
  have T': "min T (block_size h) \<le> block_size h" "0 < min T (block_size h)"
    using T bs by simp_all
  from forward_any[OF wf s(2) s(3) T'(1), of R g]
  obtain lg g1 where wl: "wf3 ((B, min T (block_size h), V), lg)"
    and fa: "\<And>tg. GPTLanguageModel_forward R m
        ((B, min T (block_size h)), map (\<lambda>r. drop (length r - block_size h) r) rows) tg g
      = (case tg of
           None \<Rightarrow> Inr ((Logits3 ((B, min T (block_size h), V), lg), None), g1)
         | Some t \<Rightarrow>
             bindE (view1 t (B * min T (block_size h))) (\<lambda>tg1.
             bindE (cross_entropy ((B * min T (block_size h), V), concat lg) tg1) (\<lambda>l.
               Inr ((Logits2 ((B * min T (block_size h), V), concat lg), Some l), g1))))"
    by blast
  have f: "GPTLanguageModel_forward R m
        ((B, min T (block_size h)), map (\<lambda>r. drop (length r - block_size h) r) rows) None g
      = Inr ((Logits3 ((B, min T (block_size h), V), lg), None), g1)"
    by (simp add: fa)
  define P where "P = map (\<lambda>r. softmax (map Fin r)) (map last lg)"
  have lenP: "length P = B" using wl by (simp add: P_def wf3_iff)
  have last_len: "length (last mm) = V" if "mm \<in> set lg" for mm
  proof -
    from wl that have "length mm = min T (block_size h)" "\<forall>u\<in>set mm. length u = V"
      by (auto simp: wf3_iff)
    with T'(2) show ?thesis by (cases mm rule: rev_cases) auto
  qed
  have lens: "list_all (\<lambda>p. length p = V) P"
    by (auto simp: P_def list_all_iff last_len)
  have val: "0 < V \<longrightarrow> list_all valid_probs P"
  proof
    assume V: "0 < V"
    have "valid_probs (softmax (map Fin (last mm)))" if "mm \<in> set lg" for mm
      using last_len[OF that] V by (intro softmax_Fin_valid) auto
    then show "list_all valid_probs P" by (simp add: P_def list_all_iff)
  qed
  have sel: "select_last ((B, min T (block_size h), V), lg) = Inr ((B, V), map last lg)"
    using T'(2) by simp
  have "generate_step R h m ((B, T), rows) g =
          bindE (multinomial R P g1) (\<lambda>(nxt, g2).
          bindE (cat_column ((B, T), rows) nxt) (\<lambda>i. Inr (i, g2)))"
    unfolding generate_step_def s(1) f
    by (simp add: logits3_def sel softmax2_def P_def del: select_last.simps cat_column.simps)
  with lenP lens val show ?thesis by blast
qed

declare cat_column.simps [simp del] select_last.simps [simp del] slice_last.simps [simp del]

lemma token_gives_vocab:
  assumes "wf2 ((B, T), rows)" and "valid_tokens V rows" and "1 \<le> B" and "1 \<le> T"
  shows "0 < V"
proof -
  from assms(1,3) obtain r where r: "r \<in> set rows" by (cases rows) (auto simp: wf2_iff)
  with assms(1,4) obtain t where "t \<in> set r" by (cases r) (auto simp: wf2_iff)
  with r assms(2) have "valid_index V t" by (auto simp: valid_tokens_def list_all_iff)
  then show ?thesis by (simp add: valid_index_def)
qed

lemma appended_wf:
  assumes "wf2 ((B, T), rows)" and "valid_tokens V rows" and "length nxt = B"
    and "list_all (\<lambda>i. i < V) nxt"
  shows "wf2 ((B, T + 1), map2 (\<lambda>r i. r @ [int i]) rows nxt)"
    and "valid_tokens V (map2 (\<lambda>r i. r @ [int i]) rows nxt)"
    and "map (take T) (map2 (\<lambda>r i. r @ [int i]) rows nxt) = rows"
proof -
  have len: "length rows = B" "\<And>r. r \<in> set rows \<Longrightarrow> length r = T"
    using assms(1) by (simp_all add: wf2_iff)
  show "wf2 ((B, T + 1), map2 (\<lambda>r i. r @ [int i]) rows nxt)"
    using len assms(3) by (auto simp: wf2_iff dest!: set_zip_leftD)
  show "valid_tokens V (map2 (\<lambda>r i. r @ [int i]) rows nxt)"
    using assms(2,4) unfolding valid_tokens_def list_all_iff
    by (auto simp: valid_index_def dest: set_zip_leftD set_zip_rightD)
  show "map (take T) (map2 (\<lambda>r i. r @ [int i]) rows nxt) = rows"
    using len assms(3) by (auto intro!: nth_equalityI)
qed

lemma generate_step_ok:
  assumes wf: "wf_gpt h V m" and ok: "multinomial_ok R"
    and eok: "B = 0 \<longrightarrow> multinomial_empty_ok R" and x: "wf2 ((B, T), rows)"
    and v: "valid_tokens V rows" and T: "1 \<le> T" and bs: "0 < block_size h"
  shows "\<exists>nxt g'. generate_step R h m ((B, T), rows) g
            = Inr (((B, T + 1), map2 (\<lambda>r i. r @ [int i]) rows nxt), g')
          \<and> length nxt = B \<and> list_all (\<lambda>i. i < V) nxt"
proof -
  from generate_step_eq[OF wf x v T bs, of R g] obtain P g1 where P: "length P = B"
    "list_all (\<lambda>p. length p = V) P" "0 < V \<longrightarrow> list_all valid_probs P"
    and e: "generate_step R h m ((B, T), rows) g =
          bindE (multinomial R P g1) (\<lambda>(nxt, g2).
          bindE (cat_column ((B, T), rows) nxt) (\<lambda>i. Inr (i, g2)))" by blast
  have "\<exists>nxt g2. multinomial R P g1 = Inr (nxt, g2) \<and> length nxt = length P
      \<and> list_all2 (\<lambda>i p. i < length p) nxt P"
  proof (cases "P = []")
    case True
    with P(1) eok have "multinomial_empty_ok R" by simp
    then obtain g2 where "multinomial R [] g1 = Inr ([], g2)"
      unfolding multinomial_empty_ok_def by blast
    with True show ?thesis by simp
  next
    case False
    with P(1) have B: "1 \<le> B" by (cases P) auto
    have "list_all valid_probs P" using P(3) token_gives_vocab[OF x v B T] by simp
    with False show ?thesis using ok unfolding multinomial_ok_def by blast
  qed
  then obtain nxt g2 where n: "multinomial R P g1 = Inr (nxt, g2)" "length nxt = length P"
    "list_all2 (\<lambda>i p. i < length p) nxt P" by blast
  have lt: "list_all (\<lambda>i. i < V) nxt"
    using n(2,3) P(2) by (auto simp: list_all2_conv_all_nth list_all_length)
  have "generate_step R h m ((B, T), rows) g
      = Inr (((B, T + 1), map2 (\<lambda>r i. r @ [int i]) rows nxt), g2)"
    using n(2) P(1) by (simp add: e n(1) cat_column.simps)
  with n(2) P(1) lt show ?thesis by auto
qed

lemma generate_step_inv:
  assumes wf: "wf_gpt h V m" and ok: "multinomial_ok R" and x: "wf2 ((B, T), rows)"
    and v: "valid_tokens V rows"
    and s: "generate_step R h m ((B, T), rows) g = Inr (idx, g')"
  shows "\<exists>nxt. idx = ((B, T + 1), map2 (\<lambda>r i. r @ [int i]) rows nxt)
          \<and> length nxt = B \<and> list_all (\<lambda>i. i < V) nxt"
proof -
  have pe: "num_embeddings (position_embedding_table m) = block_size h"
    using wf by (simp add: wf_gpt_def)
  have T: "1 \<le> T"
  proof (rule ccontr)
    assume "\<not> 1 \<le> T"
    then have T0: "T = 0" by simp
    have sl: "slice_last (block_size h) ((B, T), rows) = ((B, 0), rows)"
      using x T0 by (auto simp: slice_last.simps wf2_iff intro!: map_idI)
    have x0: "wf2 ((B, 0), rows)" using x T0 by simp
    from forward_any[OF wf x0 v, of R g] obtain lg g1 where
      "GPTLanguageModel_forward R m ((B, 0), rows) None g
         = Inr ((Logits3 ((B, 0, V), lg), None), g1)"
      by (metis le0 option.simps(4))
    then have "generate_step R h m ((B, T), rows) g = Inl IndexError"
      by (simp add: generate_step_def sl logits3_def select_last.simps)
    with s show False by simp
  qed
  have bs: "0 < block_size h"
  proof (rule ccontr)
    assume "\<not> 0 < block_size h"
    then have b0: "block_size h = 0" by simp
    have "generate_step R h m ((B, T), rows) g = Inl IndexError"
      using forward_too_long[of m T R B rows None g] T
      by (simp add: generate_step_def b0 slice_last.simps pe)
    with s show False by simp
  qed
  from generate_step_eq[OF wf x v T bs, of R g] obtain P g1 where P: "length P = B"
    "list_all (\<lambda>p. length p = V) P" "0 < V \<longrightarrow> list_all valid_probs P"
    and e: "generate_step R h m ((B, T), rows) g =
          bindE (multinomial R P g1) (\<lambda>(nxt, g2).
          bindE (cat_column ((B, T), rows) nxt) (\<lambda>i. Inr (i, g2)))" by blast
  from s e obtain nxt g2 where n: "multinomial R P g1 = Inr (nxt, g2)"
    and c: "cat_column ((B, T), rows) nxt = Inr idx"
    by (cases "multinomial R P g1"; cases "cat_column ((B, T), rows) (fst (projr (multinomial R P g1)))")
       (auto simp: case_prod_beta)
  from c have len: "length nxt = B" and idx: "idx = ((B, T + 1), map2 (\<lambda>r i. r @ [int i]) rows nxt)"
    by (auto simp: cat_column.simps split: if_splits)
  have "list_all (\<lambda>i. i < V) nxt"
  proof (cases "B = 0")
    case True
    with len show ?thesis by simp
  next
    case False
    then have B: "1 \<le> B" by simp
    have "P \<noteq> []" "list_all valid_probs P" using P B token_gives_vocab[OF x v B T] by auto
    with ok obtain nxt' g2' where n': "multinomial R P g1 = Inr (nxt', g2')"
      "length nxt' = length P" "list_all2 (\<lambda>i p. i < length p) nxt' P"
      unfolding multinomial_ok_def by blast
    with n have "nxt' = nxt" by simp
    with n'(2,3) P(2) show ?thesis by (auto simp: list_all2_conv_all_nth list_all_length)
  qed
  with len idx show ?thesis by blast
qed

lemma generate_inv:
  assumes wf: "wf_gpt h V m" and ok: "multinomial_ok R"
  shows "generate R h m ((B, T), rows) k g = Inr (idx, g') \<Longrightarrow> wf2 ((B, T), rows) \<Longrightarrow>
     valid_tokens V rows \<Longrightarrow>
     \<exists>rows'. idx = ((B, T + k), rows') \<and> wf2 ((B, T + k), rows') \<and> valid_tokens V rows'
        \<and> map (take T) rows' = rows"
proof (induction k arbitrary: T rows g)
  case 0
  then show ?case by (auto simp: wf2_iff intro!: map_idI)
next
  case (Suc k)
  from Suc.prems(1) obtain idx1 g1 where
    s: "generate_step R h m ((B, T), rows) g = Inr (idx1, g1)"
    and r: "generate R h m idx1 k g1 = Inr (idx, g')"
    by (cases "generate_step R h m ((B, T), rows) g") (auto simp: case_prod_beta)
  from generate_step_inv[OF wf ok Suc.prems(2,3) s] obtain nxt where
    n: "idx1 = ((B, T + 1), map2 (\<lambda>r i. r @ [int i]) rows nxt)" "length nxt = B"
    "list_all (\<lambda>i. i < V) nxt" by blast
  note a = appended_wf[OF Suc.prems(2,3) n(2,3)]
  from Suc.IH[OF r[unfolded n(1)] a(1) a(2)] obtain rows' where
    r': "idx = ((B, T + 1 + k), rows')" "wf2 ((B, T + 1 + k), rows')" "valid_tokens V rows'"
    "map (take (T + 1)) rows' = map2 (\<lambda>r i. r @ [int i]) rows nxt" by blast
  have "map (take T) rows' = map (take T) (map (take (T + 1)) rows')"
    by (simp add: comp_def min_def)
  also have "\<dots> = rows" unfolding r'(4) by (rule a(3))
  finally show ?case using r'(1-3) by (simp add: add.commute add.left_commute)
qed

lemma generate_ok:
  assumes wf: "wf_gpt h V m" and ok: "multinomial_ok R"
    and eok: "B = 0 \<longrightarrow> multinomial_empty_ok R" and bs: "0 < block_size h"
  shows "wf2 ((B, T), rows) \<Longrightarrow> valid_tokens V rows \<Longrightarrow> 1 \<le> T \<Longrightarrow>
     \<exists>idx g'. generate R h m ((B, T), rows) k g = Inr (idx, g')"
proof (induction k arbitrary: T rows g)
  case 0
  then show ?case by simp
next
  case (Suc k)
  from generate_step_ok[OF wf ok eok Suc.prems(1,2,3) bs, of g] obtain nxt g1 where
    s: "generate_step R h m ((B, T), rows) g
            = Inr (((B, T + 1), map2 (\<lambda>r i. r @ [int i]) rows nxt), g1)"
    and n: "length nxt = B" "list_all (\<lambda>i. i < V) nxt" by blast
  note a = appended_wf[OF Suc.prems(1,2) n]
  from Suc.IH[OF a(1) a(2), of g1] show ?case by (simp add: s)
qed

lemma generate_result:
  assumes "wf_gpt h V m" and "multinomial_ok R" and "B = 0 \<longrightarrow> multinomial_empty_ok R"
    and "0 < block_size h"
    and "wf2 ((B, T0), rows)" and "valid_tokens V rows" and "1 \<le> T0"
  shows "\<exists>rows' g'. generate R h m ((B, T0), rows) k g = Inr (((B, T0 + k), rows'), g')
     \<and> wf2 ((B, T0 + k), rows') \<and> map (take T0) rows' = rows \<and> valid_tokens V rows'"
proof -
  from generate_ok[OF assms(1-4) assms(5,6,7), of k g] obtain idx g' where
    g: "generate R h m ((B, T0), rows) k g = Inr (idx, g')" by blast
  from generate_inv[OF assms(1,2) g assms(5,6)] g show ?thesis by blast
qed

lemma generate_empty_prompt:
  assumes wf: "wf_gpt h V m" and x: "wf2 ((B, 0), rows)"
  shows "generate R h m ((B, 0), rows) (Suc k) g = Inl IndexError"
proof -
  have v: "valid_tokens V rows" using x by (auto simp: valid_tokens_def wf2_iff list_all_iff)
  have sl: "slice_last (block_size h) ((B, 0), rows) = ((B, 0), rows)"
    using x by (auto simp: slice_last.simps wf2_iff intro!: map_idI)
  from forward_any[OF wf x v, of R g] obtain lg g1 where
    "GPTLanguageModel_forward R m ((B, 0), rows) None g
       = Inr ((Logits3 ((B, 0, V), lg), None), g1)"
    by (metis le0 option.simps(4))
  then have "generate_step R h m ((B, 0), rows) g = Inl IndexError"
    by (simp add: generate_step_def sl logits3_def select_last.simps)
  then show ?thesis by simp
qed

lemma generate_add:
  "generate R h m idx (j + i) g
     = bindE (generate R h m idx j g) (\<lambda>(x, g1). generate R h m x i g1)"
proof (induction j arbitrary: idx g)
  case 0
  show ?case by simp
next
  case (Suc j)
  show ?case
    by (cases "generate_step R h m idx g") (auto simp: Suc.IH)
qed

lemma rng0_step:
  assumes wf: "wf_gpt h V m" and x: "wf2 ((1, T), [r])" and v: "valid_tokens V [r]"
    and T: "1 \<le> T" and bs: "0 < block_size h"
  shows "\<exists>g'. generate_step rng0 h m ((1, T), [r]) g = Inr (((1, T + 1), [r @ [0]]), g')"
proof -
  from generate_step_eq[OF wf x v T bs, of rng0 g] obtain P g1 where P: "length P = 1"
    "0 < V \<longrightarrow> list_all valid_probs P"
    and e: "generate_step rng0 h m ((1, T), [r]) g =
          bindE (multinomial rng0 P g1) (\<lambda>(nxt, g2).
          bindE (cat_column ((1, T), [r]) nxt) (\<lambda>i. Inr (i, g2)))" by blast
  from P(1) obtain p where p: "P = [p]" by (cases P) auto
  have "0 < V" by (rule token_gives_vocab[OF x v _ T]) simp
  with P(2) p have "p \<noteq> []" by (simp add: valid_probs_def)
  then have "multinomial rng0 P g1 = Inr ([0], Suc g1)" by (simp add: rng0_def p)
  then have "generate_step rng0 h m ((1, T), [r]) g = Inr (((1, T + 1), [r @ [0]]), Suc g1)"
    unfolding e by (simp add: cat_column.simps)
  then show ?thesis by blast
qed


section \<open>Causality\<close>

lemma softmax_nth:
  assumes "j < n"
  shows "softmax (map f [0..<n]) ! j = exp_x (f j) / (\<Sum>k<n. exp_x (f k))"
proof -
  have "sum_list (map exp_x (map f [0..<n])) = (\<Sum>k<n. exp_x (f k))"
    by (simp add: comp_def interv_sum_list_conv_sum_set_nat atLeast0LessThan)
  then show ?thesis using assms by (simp add: softmax_def)
qed

lemma head_scores_take:
  assumes "i < n" and "j < n"
  shows "head_scores a (take n x) i j = head_scores a x i j"
  using assms by (simp add: head_scores_def)

lemma head_scores_future: "i < j \<Longrightarrow> exp_x (head_scores a x i j) = 0"
  by (simp add: head_scores_def)

lemma head_denominator_take:
  assumes "i < n" and "n \<le> T"
  shows "(\<Sum>k<n. exp_x (head_scores a (take n x) i k)) = (\<Sum>k<T. exp_x (head_scores a x i k))"
proof -
  have "(\<Sum>k<n. exp_x (head_scores a (take n x) i k)) = (\<Sum>k<n. exp_x (head_scores a x i k))"
    using assms(1) by (intro sum.cong) (simp_all add: head_scores_take)
  also have "\<dots> = (\<Sum>k<T. exp_x (head_scores a x i k))"
    using assms by (intro sum.mono_neutral_left) (auto simp: head_scores_future)
  finally show ?thesis .
qed

lemma Head_spec_take: "Head_spec a (take n x) = take n (Head_spec a x)"
proof (cases "n < length x")
  case False
  then show ?thesis by simp
next
  case True
  let ?T = "length x"
  have len: "length (take n x) = n" using True by simp
  have row: "(\<Sum>j<n. head_probs a (take n x) i ! j * linmap (lin_weight (val a)) (x ! j) ! c)
      = (\<Sum>j<?T. head_probs a x i ! j * linmap (lin_weight (val a)) (x ! j) ! c)"
    if i: "i < n" for i c
  proof -
    let ?D = "\<Sum>k<?T. exp_x (head_scores a x i k)"
    have p1: "head_probs a (take n x) i ! j = exp_x (head_scores a x i j) / ?D" if "j < n" for j
    proof -
      have "head_probs a (take n x) i ! j = exp_x (head_scores a (take n x) i j)
          / (\<Sum>k<n. exp_x (head_scores a (take n x) i k))"
        using that True by (simp add: head_probs_def min_def softmax_nth)
      also have "\<dots> = exp_x (head_scores a x i j) / ?D"
        using True by (simp only: head_scores_take[OF i that] head_denominator_take[OF i less_imp_le])
      finally show ?thesis .
    qed
    have p2: "head_probs a x i ! j = exp_x (head_scores a x i j) / ?D" if "j < ?T" for j
      using that by (simp add: head_probs_def softmax_nth)
    have "(\<Sum>j<n. head_probs a (take n x) i ! j * linmap (lin_weight (val a)) (x ! j) ! c)
        = (\<Sum>j<n. head_probs a x i ! j * linmap (lin_weight (val a)) (x ! j) ! c)"
      using True by (intro sum.cong) (simp_all add: p1 p2)
    also have "\<dots> = (\<Sum>j<?T. head_probs a x i ! j * linmap (lin_weight (val a)) (x ! j) ! c)"
      using True i by (intro sum.mono_neutral_left) (auto simp: p2 head_scores_future)
    finally show ?thesis .
  qed
  show ?thesis
    unfolding Head_spec_def len
    using True by (auto simp: take_map row intro!: nth_equalityI)
qed

lemma MultiHeadAttention_spec_take:
  "MultiHeadAttention_spec m (take n x) = take n (MultiHeadAttention_spec m x)"
  by (auto simp: MultiHeadAttention_spec_def Head_spec_take take_map min_def
      intro!: nth_equalityI arg_cong[where f = "Linear_vec (proj m)"] arg_cong[where f = concat])

lemma FeedForward_spec_take: "FeedForward_spec f (take n x) = take n (FeedForward_spec f x)"
  by (simp add: FeedForward_spec_def take_map)

lemma LayerNorm_spec_take: "LayerNorm_spec l (take n x) = take n (LayerNorm_spec l x)"
  by (simp add: LayerNorm_spec_def take_map)

lemma madd_take: "madd (take n x) (take n y) = take n (madd x y)"
  by (simp add: madd_def take_map take_zip)

lemma Block_spec_take: "Block_spec b (take n x) = take n (Block_spec b x)"
  by (simp add: Block_spec_def Let_def MultiHeadAttention_spec_take madd_take
      LayerNorm_spec_take FeedForward_spec_take)

lemma fold_Block_spec_take:
  "fold Block_spec bl (take n x) = take n (fold Block_spec bl x)"
  by (induction bl arbitrary: x) (simp_all add: Block_spec_take)

lemma embed_spec_take: "embed_spec m (take n row) = take n (embed_spec m row)"
proof -
  have "take (min (length row) n) P = take n (take (length row) P)" for P :: "real list list"
    by (simp add: min.commute)
  then show ?thesis
    by (simp add: embed_spec_def madd_take[symmetric] take_map)
qed

lemma logits_spec_take: "logits_spec m (take n row) = take n (logits_spec m row)"
  by (simp add: logits_spec_def embed_spec_take fold_Block_spec_take LayerNorm_spec_take take_map)

lemma logits_spec_prefix:
  assumes "take n r = take n r'" and "i < n"
  shows "logits_spec m r ! i = logits_spec m r' ! i"
proof -
  have "take n (logits_spec m r) = take n (logits_spec m r')"
    using assms(1) by (simp add: logits_spec_take[symmetric])
  then have "take n (logits_spec m r) ! i = take n (logits_spec m r') ! i" by simp
  with assms(2) show ?thesis by simp
qed

lemma forward_causal_lemma:
  assumes wf: "wf_gpt h V m" and ev: "gpt_eval m" and x: "wf2 ((B, T), rows)"
    and v: "valid_tokens V rows" and T: "T \<le> block_size h"
    and b: "b < B" and ij: "i < j" and j: "j < T" and t: "valid_index V t"
  shows "\<exists>lg lg'.
      GPTLanguageModel_forward R m ((B, T), rows) None g
        = Inr ((Logits3 ((B, T, V), lg), None), g)
    \<and> GPTLanguageModel_forward R m ((B, T), rows[b := (rows ! b)[j := t]]) None g
        = Inr ((Logits3 ((B, T, V), lg'), None), g)
    \<and> lg' ! b ! i = lg ! b ! i
    \<and> (\<forall>b'<B. b' \<noteq> b \<longrightarrow> lg' ! b' = lg ! b')"
proof -
  let ?rows' = "rows[b := (rows ! b)[j := t]]"
  have len: "length rows = B" "\<And>r. r \<in> set rows \<Longrightarrow> length r = T"
    using x by (simp_all add: wf2_iff)
  have x': "wf2 ((B, T), ?rows')"
    using len b by (auto simp: wf2_iff dest!: set_update_subset_insert[THEN subsetD])
  have v': "valid_tokens V ?rows'"
    using v t b len(1) unfolding valid_tokens_def list_all_iff
    by (auto dest!: set_update_subset_insert[THEN subsetD])
  have f: "GPTLanguageModel_forward R m ((B, T), rows) None g
        = Inr ((Logits3 ((B, T, V), map (logits_spec m) rows), None), g)"
    by (simp add: forward_eval[OF wf x v T ev])
  have f': "GPTLanguageModel_forward R m ((B, T), ?rows') None g
        = Inr ((Logits3 ((B, T, V), map (logits_spec m) ?rows'), None), g)"
    by (simp add: forward_eval[OF wf x' v' T ev])
  have "take j ((rows ! b)[j := t]) = take j (rows ! b)" by simp
  from logits_spec_prefix[OF this ij]
  have same: "map (logits_spec m) ?rows' ! b ! i = map (logits_spec m) rows ! b ! i"
    using b len(1) by simp
  have others: "\<forall>b'<B. b' \<noteq> b \<longrightarrow> map (logits_spec m) ?rows' ! b' = map (logits_spec m) rows ! b'"
    using len(1) by simp
  from f f' same others show ?thesis by blast
qed



section \<open>Calls that draw nothing from the generator\<close>

lemma with_state_simps [simp]:
  "with_state g (Inl e) = Inl e" "with_state g (Inr (y, u)) = Inr (y, g)"
  by (simp_all add: with_state_def)

lemma with_state_bindE: "with_state g (bindE r F) = bindE r (\<lambda>x. with_state g (F x))"
  by (cases r) simp_all

lemma Head_forward_pure:
  assumes "Head_eval a"
  shows "Head_forward R a x g = with_state g (Head_forward R' a x g')"
proof -
  obtain B T C d where x: "x = ((B, T, C), d)" by (metis prod.exhaust)
  have off: "dropout_off (head_dropout a)" using assms by (simp add: Head_eval_def)
  show ?thesis
    unfolding x Head_forward.simps
    by (simp add: with_state_bindE Dropout_forward_off[OF off]
        del: Linear_forward.simps matmul.simps matmul_nt.simps masked_fill.simps)
qed

lemma mapE_pure:
  assumes "\<And>a g g'. a \<in> set as \<Longrightarrow> f a g = with_state g (f' a g')"
  shows "mapE f as g = with_state g (mapE f' as g')"
  using assms
proof (induction as arbitrary: g g')
  case Nil
  show ?case by simp
next
  case (Cons a as)
  have fa: "f a g = with_state g (f' a g')" by (rule Cons.prems) simp
  show ?case
  proof (cases "f' a g'")
    case (Inl e)
    with fa show ?thesis by simp
  next
    case (Inr p)
    obtain y g1 where p: "p = (y, g1)" by (cases p)
    have r: "mapE f as g = with_state g (mapE f' as g1)"
      by (rule Cons.IH) (simp add: Cons.prems)
    show ?thesis
      using fa Inr p r by (cases "mapE f' as g1") (auto simp: case_prod_beta)
  qed
qed

lemma MultiHeadAttention_forward_pure:
  assumes "MultiHeadAttention_eval m"
  shows "MultiHeadAttention_forward R m x g = with_state g (MultiHeadAttention_forward R' m x g')"
proof -
  have off: "dropout_off (mha_dropout m)"
    and he: "\<And>a. a \<in> set (heads m) \<Longrightarrow> Head_eval a"
    using assms by (simp_all add: MultiHeadAttention_eval_def list_all_iff)
  have r: "mapE (\<lambda>a. Head_forward R a x) (heads m) g
      = with_state g (mapE (\<lambda>a. Head_forward R' a x) (heads m) g')"
    by (rule mapE_pure) (rule Head_forward_pure[OF he])
  show ?thesis
    unfolding MultiHeadAttention_forward_def r
    by (cases "mapE (\<lambda>a. Head_forward R' a x) (heads m) g'")
       (auto simp: with_state_bindE Dropout_forward_off[OF off] simp del: cat_last.simps
          Linear_forward.simps)
qed

lemma FeedForward_forward_pure:
  assumes "FeedForward_eval f"
  shows "FeedForward_forward R f x g = with_state g (FeedForward_forward R' f x g')"
proof -
  have off: "dropout_off (net_3 f)" using assms by (simp add: FeedForward_eval_def)
  show ?thesis
    unfolding FeedForward_forward_def
    by (simp add: with_state_bindE Dropout_forward_off[OF off] del: Linear_forward.simps)
qed

lemma Block_forward_pure:
  assumes "Block_eval b"
  shows "Block_forward R b x g = with_state g (Block_forward R' b x g')"
proof -
  have e: "MultiHeadAttention_eval (sa b)" "FeedForward_eval (ffwd b)"
    using assms by (simp_all add: Block_eval_def)
  note a = MultiHeadAttention_forward_pure[OF e(1), of R x g R' g']
  show ?thesis
  proof (cases "MultiHeadAttention_forward R' (sa b) x g'")
    case (Inl err)
    with a show ?thesis by (simp add: Block_forward_def)
  next
    case (Inr p)
    obtain y g1 where p: "p = (y, g1)" by (cases p)
    have f: "FeedForward_forward R (ffwd b) z g = with_state g (FeedForward_forward R' (ffwd b) z g1)"
      for z by (rule FeedForward_forward_pure[OF e(2)])
    show ?thesis
      unfolding Block_forward_def a Inr p
      by (auto simp: bindE_def f with_state_def split: sum.splits prod.splits)
  qed
qed


lemma Sequential_forward_pure:
  assumes "list_all Block_eval bl"
  shows "Sequential_forward R bl x g = with_state g (Sequential_forward R' bl x g')"
  using assms
proof (induction bl arbitrary: x g g')
  case Nil
  show ?case by simp
next
  case (Cons b bl)
  from Cons.prems have eb: "Block_eval b" and ebl: "list_all Block_eval bl" by simp_all
  note a = Block_forward_pure[OF eb, of R x g R' g']
  show ?case
  proof (cases "Block_forward R' b x g'")
    case (Inl e)
    with a show ?thesis by simp
  next
    case (Inr p)
    obtain y g1 where p: "p = (y, g1)" by (cases p)
    show ?thesis using a Inr p Cons.IH[OF ebl, of y g g1] by simp
  qed
qed

lemma GPTLanguageModel_forward_pure:
  assumes "gpt_eval m"
  shows "GPTLanguageModel_forward R m idx tg g
           = with_state g (GPTLanguageModel_forward R' m idx tg g')"
proof -
  obtain B T rows where idx: "idx = ((B, T), rows)" by (metis prod.exhaust)
  have e: "list_all Block_eval (blocks m)" using assms by (simp add: gpt_eval_def)
  note s = Sequential_forward_pure[OF e, of R _ g R' g']
  show ?thesis
    unfolding idx GPTLanguageModel_forward.simps
    by (auto simp: bindE_def s with_state_def split: sum.splits prod.splits option.splits)
qed

lemma generate_step_pure:
  assumes "gpt_eval m" and "multinomial R' = multinomial R"
  shows "generate_step R' h m idx g = generate_step R h m idx g"
proof -
  note f = GPTLanguageModel_forward_pure[OF assms(1),
      of _ "slice_last (block_size h) idx" None g R g]
  show ?thesis
    unfolding generate_step_def
    by (subst f[of R'], subst (2) f[of R])
       (cases "GPTLanguageModel_forward R m (slice_last (block_size h) idx) None g",
        auto simp: assms(2))
qed

lemma generate_pure:
  assumes "gpt_eval m" and "multinomial R' = multinomial R"
  shows "generate R' h m idx k g = generate R h m idx k g"
proof (induction k arbitrary: idx g)
  case 0
  show ?case by simp
next
  case (Suc k)
  show ?case
    by (cases "generate_step R h m idx g")
       (auto simp: generate_step_pure[OF assms] Suc.IH)
qed


section \<open>The example models are well-formed\<close>

lemma model0_init:
  "GPTLanguageModel_init rng0 hyperparameters 65 0
     = Inr (model0, snd (projr (GPTLanguageModel_init rng0 hyperparameters 65 0)))"
proof -
  have "\<not> isl (GPTLanguageModel_init rng0 hyperparameters 65 0)"
    by (simp add: GPTLanguageModel_init_isl hyperparameters_def)
  then show ?thesis by (cases "GPTLanguageModel_init rng0 hyperparameters 65 0") (auto simp: model0_def)
qed

lemma model0_wf: "wf_gpt hyperparameters 65 model0"
  using GPTLanguageModel_init_ok[OF model0_init] by (simp add: hyperparameters_def)

lemma model_eval0_init:
  "GPTLanguageModel_init rng0 (hyperparameters\<lparr>dropout := 0\<rparr>) 65 0
     = Inr (model_eval0, snd (projr (GPTLanguageModel_init rng0 (hyperparameters\<lparr>dropout := 0\<rparr>) 65 0)))"
proof -
  have "\<not> isl (GPTLanguageModel_init rng0 (hyperparameters\<lparr>dropout := 0\<rparr>) 65 0)"
    by (simp add: GPTLanguageModel_init_isl hyperparameters_def)
  then show ?thesis
    by (cases "GPTLanguageModel_init rng0 (hyperparameters\<lparr>dropout := 0\<rparr>) 65 0")
       (auto simp: model_eval0_def)
qed

lemma model_eval0_wf: "wf_gpt hyperparameters 65 model_eval0" "gpt_eval model_eval0"
  using GPTLanguageModel_init_ok[OF model_eval0_init]
  by (simp_all add: hyperparameters_def wf_gpt_def)

lemma block0_wf: "wf_block 384 8 48 64 block0" "Block_eval block0"
proof -
  have "length (blocks model_eval0) = 8"
    and "list_all (wf_block 384 8 48 64) (blocks model_eval0)"
    and "list_all Block_eval (blocks model_eval0)"
    using model_eval0_wf by (simp_all add: wf_gpt_def hyperparameters_def gpt_eval_def)
  then show "wf_block 384 8 48 64 block0" "Block_eval block0"
    by (simp_all add: block0_def list_all_length)
qed

lemma block_built0_wf: "wf_block 384 8 48 64 block_built0" "\<not> Block_eval block_built0"
proof -
  have "length (blocks model0) = 8"
    and "list_all (wf_block 384 8 48 64) (blocks model0)"
    using model0_wf by (simp_all add: wf_gpt_def hyperparameters_def)
  then show "wf_block 384 8 48 64 block_built0"
    by (simp add: block_built0_def list_all_length)
  have "length (blocks model0) = 8"
    using model0_wf by (simp add: wf_gpt_def hyperparameters_def)
  with GPTLanguageModel_init_training[OF model0_init]
  have "net_3 (ffwd block_built0) = \<lparr>dp = dropout hyperparameters, training = True\<rparr>"
    by (simp add: block_built0_def list_all_length)
  then show "\<not> Block_eval block_built0"
    by (simp add: Block_eval_def FeedForward_eval_def dropout_off_def hyperparameters_def)
qed

lemma head0_wf: "wf_head 2 1 2 head0" "Head_eval head0"
  by (simp_all add: head0_def wf_head_def wf_linear_def Head_eval_def dropout_off_def Let_def)

lemma Head_spec_head0: "Head_spec head0 [[1, 0], [0, 1]] = [[1], [1 / 2]]"
  by (simp add: Head_spec_def head0_def Let_def head_probs_def head_scores_def softmax_def
      linmap_def dot_def lessThan_Suc numeral_2_eq_2 upt_rec)


section \<open>C1: causality of the forward pass\<close>

text \<open>
  C1. For a model with the shapes of the constructor, with dropout disabled, and a valid
  index tensor of shape (B, T) with T at most the context length: for positions
  \<open>i < j < T\<close> of a batch element \<open>b\<close>, replacing the token at position \<open>j\<close> of \<open>b\<close> by
  any valid token leaves the logits at position \<open>i\<close> of \<open>b\<close> unchanged (and the logits
  of every other batch element). Both calls return; the entries are real numbers.
\<close>

theorem forward_causal:
  assumes "wf_gpt h V m" and "gpt_eval m" and "wf2 ((B, T), rows)"
    and "valid_tokens V rows" and "T \<le> block_size h"
    and "b < B" and "i < j" and "j < T" and "valid_index V t"
  shows "\<exists>lg lg'.
      GPTLanguageModel_forward R m ((B, T), rows) None g
        = Inr ((Logits3 ((B, T, V), lg), None), g)
    \<and> GPTLanguageModel_forward R m ((B, T), rows[b := (rows ! b)[j := t]]) None g
        = Inr ((Logits3 ((B, T, V), lg'), None), g)
    \<and> lg' ! b ! i = lg ! b ! i
    \<and> (\<forall>b'<B. b' \<noteq> b \<longrightarrow> lg' ! b' = lg ! b')"
  using assms by (rule forward_causal_lemma)

theorem forward_causal_witness:
  "wf_gpt hyperparameters 65 model_eval0 \<and> gpt_eval model_eval0
   \<and> wf2 ((1, 3), [[0, 1, 2 :: int]]) \<and> valid_tokens 65 [[0, 1, 2]]
   \<and> 3 \<le> block_size hyperparameters \<and> (0::nat) < 1 \<and> (0::nat) < 2 \<and> (2::nat) < 3
   \<and> valid_index 65 5
   \<and> (\<exists>lg lg'.
        GPTLanguageModel_forward rng0 model_eval0 ((1, 3), [[0, 1, 2]]) None 0
          = Inr ((Logits3 ((1, 3, 65), lg), None), 0)
      \<and> GPTLanguageModel_forward rng0 model_eval0 ((1, 3), [[0, 1, 5]]) None 0
          = Inr ((Logits3 ((1, 3, 65), lg'), None), 0)
      \<and> lg' ! 0 ! 0 = lg ! 0 ! 0)"
proof -
  have a: "wf2 ((1, 3), [[0, 1, 2 :: int]])" by (simp add: wf2_def)
  have b: "valid_tokens 65 [[0, 1, 2]]" by (simp add: valid_tokens_def valid_index_def)
  have c: "3 \<le> block_size hyperparameters" by (simp add: hyperparameters_def)
  have d: "valid_index 65 5" by (simp add: valid_index_def)
  from forward_causal[OF model_eval0_wf a b c _ _ _ d, of 0 0 2 rng0 0]
  have "\<exists>lg lg'.
        GPTLanguageModel_forward rng0 model_eval0 ((1, 3), [[0, 1, 2]]) None 0
          = Inr ((Logits3 ((1, 3, 65), lg), None), 0)
      \<and> GPTLanguageModel_forward rng0 model_eval0 ((1, 3), [[0, 1, 5]]) None 0
          = Inr ((Logits3 ((1, 3, 65), lg'), None), 0)
      \<and> lg' ! 0 ! 0 = lg ! 0 ! 0"
    by simp
  with model_eval0_wf a b c d show ?thesis by simp
qed
section \<open>C2: what the forward pass returns\<close>

text \<open>
  C2, as amended. For a model with the shapes of the constructor and an index tensor of
  shape (B, T) with valid tokens and T at most the context length: without targets the
  forward pass returns logits of shape (B, T, vocab_size) and no loss. With targets of
  shape (B, T) and values in [0, vocab_size), whose strides allow a flat view (as those
  of a contiguous tensor do) or which have no entry, it returns the same logits flattened
  to the shape (B * T, vocab_size), and a loss that is a non-negative real number when
  B * T is positive and the not-a-number of 0 / 0 when B * T is zero; with targets of
  shape (B, T) whose strides do not allow a flat view, as those of a transposed tensor,
  it raises RuntimeError. The entries are real numbers: that the loss of the
  floating-point program is finite is not part of the statement.
\<close>

theorem forward_shapes_and_loss:
  assumes "wf_gpt h V m" and "wf2 ((B, T), rows)" and "valid_tokens V rows"
    and "T \<le> block_size h"
  shows "\<exists>lg g'. wf3 ((B, T, V), lg)
     \<and> GPTLanguageModel_forward R m ((B, T), rows) None g = Inr ((Logits3 ((B, T, V), lg), None), g')
     \<and> wf2 ((B * T, V), concat lg)
     \<and> (\<forall>st flat. length flat = B * T \<and> list_all (valid_index V) flat \<longrightarrow>
          (if B * T = 0 \<or> flat_viewable [B, T] st
           then \<exists>l. GPTLanguageModel_forward R m ((B, T), rows) (Some ([B, T], st, flat)) g
                        = Inr ((Logits2 ((B * T, V), concat lg), Some l), g')
                    \<and> (if B * T = 0 then l = NaN else \<exists>r. l = Loss r \<and> 0 \<le> r)
           else GPTLanguageModel_forward R m ((B, T), rows) (Some ([B, T], st, flat)) g
                  = Inl RuntimeError))"
  using assms by (rule forward_result)

text \<open>
  An instance with the model as built: an index tensor of shape (1, 2) and contiguous
  targets of shape (1, 2), with the strides (2, 1).
\<close>

theorem forward_shapes_and_loss_witness:
  "wf_gpt hyperparameters 65 model0 \<and> wf2 ((1, 2), [[0, 1 :: int]]) \<and> valid_tokens 65 [[0, 1]]
   \<and> 2 \<le> block_size hyperparameters
   \<and> length [1, 0 :: int] = 1 * 2 \<and> list_all (valid_index 65) [1, 0]
   \<and> flat_viewable [1, 2] [2, 1]
   \<and> (\<exists>lg g'. wf3 ((1, 2, 65), lg)
     \<and> GPTLanguageModel_forward rng0 model0 ((1, 2), [[0, 1]]) None 0
          = Inr ((Logits3 ((1, 2, 65), lg), None), g')
     \<and> (\<exists>r. GPTLanguageModel_forward rng0 model0 ((1, 2), [[0, 1]])
                 (Some ([1, 2], [2, 1], [1, 0])) 0
               = Inr ((Logits2 ((2, 65), concat lg), Some (Loss r)), g') \<and> 0 \<le> r))"
proof -
  have a: "wf2 ((1, 2), [[0, 1 :: int]])" by (simp add: wf2_def)
  have b: "valid_tokens 65 [[0, 1]]" by (simp add: valid_tokens_def valid_index_def)
  have c: "2 \<le> block_size hyperparameters" by (simp add: hyperparameters_def)
  have d: "length [1, 0 :: int] = 1 * 2 \<and> list_all (valid_index 65) [1, 0]"
    by (simp add: valid_index_def)
  have e: "flat_viewable [1, 2] [2, 1]" by (simp add: flat_viewable_def)
  from forward_shapes_and_loss[OF model0_wf a b c, of rng0 0]
  obtain lg g' where lg: "wf3 ((1, 2, 65), lg)"
    "GPTLanguageModel_forward rng0 model0 ((1, 2), [[0, 1]]) None 0
       = Inr ((Logits3 ((1, 2, 65), lg), None), g')"
    "\<And>st flat. length flat = 1 * 2 \<and> list_all (valid_index 65) flat \<Longrightarrow>
       (if (1::nat) * 2 = 0 \<or> flat_viewable [1, 2] st
        then \<exists>l. GPTLanguageModel_forward rng0 model0 ((1, 2), [[0, 1]]) (Some ([1, 2], st, flat)) 0
                    = Inr ((Logits2 ((1 * 2, 65), concat lg), Some l), g')
                 \<and> (if (1::nat) * 2 = 0 then l = NaN else \<exists>r. l = Loss r \<and> 0 \<le> r)
        else GPTLanguageModel_forward rng0 model0 ((1, 2), [[0, 1]]) (Some ([1, 2], st, flat)) 0
               = Inl RuntimeError)"
    by blast
  from lg(3)[OF d, of "[2, 1]"] e obtain r where
    "GPTLanguageModel_forward rng0 model0 ((1, 2), [[0, 1]]) (Some ([1, 2], [2, 1], [1, 0])) 0
       = Inr ((Logits2 ((2, 65), concat lg), Some (Loss r)), g')" "0 \<le> r"
    by auto
  with lg(1,2) model0_wf a b c d e show ?thesis by blast
qed

text \<open>
  C2 as stated fails in three ways. With contiguous targets of shape (1, 2), the logits
  that the forward pass returns are a matrix of shape (B * T, vocab_size), here (2, 65),
  not a tensor of shape (1, 2, 65). With the transpose of a contiguous tensor as targets,
  of shape (2, 2) and strides (1, 2), for an index tensor of shape (2, 2), the forward
  pass raises RuntimeError and returns no loss. With an empty batch, of shape (0, 2), the
  loss is not a number.
\<close>

theorem forward_with_targets_counterexample:
  "(case GPTLanguageModel_forward rng0 model0 ((1, 2), [[0, 1]])
           (Some ([1, 2], [2, 1], [1, 0])) 0 of
      Inl e \<Rightarrow> False
    | Inr ((lg, l), g) \<Rightarrow>
        (case lg of Logits3 x \<Rightarrow> False | Logits2 x \<Rightarrow> fst x = (2, 65) \<and> wf2 x))
   \<and> wf2 ((2, 2), [[0, 1], [1, 0 :: int]]) \<and> list_all (valid_index 65) [1, 0, 0, 1]
   \<and> GPTLanguageModel_forward rng0 model0 ((2, 2), [[0, 1], [1, 0]])
        (Some ([2, 2], [1, 2], [1, 0, 0, 1])) 0 = Inl RuntimeError
   \<and> (case GPTLanguageModel_forward rng0 model0 ((0, 2), []) (Some ([0, 2], [2, 1], [])) 0 of
        Inl e \<Rightarrow> False
      | Inr ((lg, l), g) \<Rightarrow> l = Some NaN)"
proof -
  have c: "2 \<le> block_size hyperparameters" by (simp add: hyperparameters_def)
  have 1: "case GPTLanguageModel_forward rng0 model0 ((1, 2), [[0, 1]])
           (Some ([1, 2], [2, 1], [1, 0])) 0 of
      Inl e \<Rightarrow> False
    | Inr ((lg, l), g) \<Rightarrow>
        (case lg of Logits3 x \<Rightarrow> False | Logits2 x \<Rightarrow> fst x = (2, 65) \<and> wf2 x)"
  proof -
    have a: "wf2 ((1, 2), [[0, 1 :: int]])" by (simp add: wf2_def)
    have b: "valid_tokens 65 [[0, 1]]" by (simp add: valid_tokens_def valid_index_def)
    from forward_result[OF model0_wf a b c, of rng0 0]
    obtain lg g' where lg: "wf2 ((1 * 2, 65), concat lg)"
      "\<And>st flat. length flat = 1 * 2 \<and> list_all (valid_index 65) flat \<Longrightarrow>
       (if (1::nat) * 2 = 0 \<or> flat_viewable [1, 2] st
        then \<exists>l. GPTLanguageModel_forward rng0 model0 ((1, 2), [[0, 1]]) (Some ([1, 2], st, flat)) 0
                    = Inr ((Logits2 ((1 * 2, 65), concat lg), Some l), g')
                 \<and> (if (1::nat) * 2 = 0 then l = NaN else \<exists>r. l = Loss r \<and> 0 \<le> r)
        else GPTLanguageModel_forward rng0 model0 ((1, 2), [[0, 1]]) (Some ([1, 2], st, flat)) 0
               = Inl RuntimeError)"
      by blast
    have "length [1, 0 :: int] = 1 * 2 \<and> list_all (valid_index 65) [1, 0]"
      by (simp add: valid_index_def)
    from lg(2)[OF this, of "[2, 1]"]
    have "\<exists>l. GPTLanguageModel_forward rng0 model0 ((1, 2), [[0, 1]])
                 (Some ([1, 2], [2, 1], [1, 0])) 0
              = Inr ((Logits2 ((1 * 2, 65), concat lg), Some l), g')"
      by (auto simp: flat_viewable_def)
    with lg(1) show ?thesis by auto
  qed
  have a2: "wf2 ((2, 2), [[0, 1], [1, 0 :: int]])" by (simp add: wf2_def)
  have b2: "valid_tokens 65 [[0, 1], [1, 0]]" by (simp add: valid_tokens_def valid_index_def)
  have d2: "length [1, 0, 0, 1 :: int] = 2 * 2 \<and> list_all (valid_index 65) [1, 0, 0, 1]"
    by (simp add: valid_index_def)
  have 2: "GPTLanguageModel_forward rng0 model0 ((2, 2), [[0, 1], [1, 0]])
        (Some ([2, 2], [1, 2], [1, 0, 0, 1])) 0 = Inl RuntimeError"
  proof -
    from forward_result[OF model0_wf a2 b2 c, of rng0 0]
    obtain lg g' where lg:
      "\<And>st flat. length flat = 2 * 2 \<and> list_all (valid_index 65) flat \<Longrightarrow>
       (if (2::nat) * 2 = 0 \<or> flat_viewable [2, 2] st
        then \<exists>l. GPTLanguageModel_forward rng0 model0 ((2, 2), [[0, 1], [1, 0]])
                      (Some ([2, 2], st, flat)) 0
                    = Inr ((Logits2 ((2 * 2, 65), concat lg), Some l), g')
                 \<and> (if (2::nat) * 2 = 0 then l = NaN else \<exists>r. l = Loss r \<and> 0 \<le> r)
        else GPTLanguageModel_forward rng0 model0 ((2, 2), [[0, 1], [1, 0]])
                 (Some ([2, 2], st, flat)) 0
               = Inl RuntimeError)"
      by blast
    from lg[OF d2, of "[1, 2]"] show ?thesis by (simp add: flat_viewable_def)
  qed
  have 3: "case GPTLanguageModel_forward rng0 model0 ((0, 2), []) (Some ([0, 2], [2, 1], [])) 0 of
        Inl e \<Rightarrow> False
      | Inr ((lg, l), g) \<Rightarrow> l = Some NaN"
  proof -
    have a: "wf2 ((0, 2), [] :: int list list)" by (simp add: wf2_def)
    have b: "valid_tokens 65 []" by (simp add: valid_tokens_def)
    from forward_result[OF model0_wf a b c, of rng0 0]
    obtain lg g' where lg:
      "\<And>st flat. length flat = 0 * 2 \<and> list_all (valid_index 65) flat \<Longrightarrow>
       (if (0::nat) * 2 = 0 \<or> flat_viewable [0, 2] st
        then \<exists>l. GPTLanguageModel_forward rng0 model0 ((0, 2), []) (Some ([0, 2], st, flat)) 0
                    = Inr ((Logits2 ((0 * 2, 65), concat lg), Some l), g')
                 \<and> (if (0::nat) * 2 = 0 then l = NaN else \<exists>r. l = Loss r \<and> 0 \<le> r)
        else GPTLanguageModel_forward rng0 model0 ((0, 2), []) (Some ([0, 2], st, flat)) 0
               = Inl RuntimeError)"
      by blast
    have "length ([] :: int list) = 0 * 2 \<and> list_all (valid_index 65) []" by simp
    from lg[OF this, of "[2, 1]"] show ?thesis by auto
  qed
  from 1 a2 d2 2 3 show ?thesis by simp
qed
section \<open>C3: the shape of the generated sequence\<close>

text \<open>
  C3, as amended. For a model with the shapes of the constructor and a context length
  of at least one, a sampling function that keeps its contract, and a prompt of shape
  (B, T0) with valid tokens and at least one column (the batch may be empty; then the
  vocabulary is assumed to have a token, and the sampling function to return no index
  for the probabilities of no row): for every \<open>k\<close>, \<open>generate\<close> returns a tensor
  of shape (B, T0 + k) whose first T0 columns are the prompt; and for every \<open>j\<close> up to
  \<open>k\<close>, the result of \<open>j\<close> steps is the first T0 + j columns of the result of
  \<open>k\<close> steps when the remaining steps continue from the generator state that the
  \<open>j\<close> steps left: each step appends one column.
\<close>

theorem generate_shape_and_prompt:
  assumes "wf_gpt h V m" and "multinomial_ok R"
    and "B = 0 \<longrightarrow> 0 < V \<and> multinomial_empty_ok R"
    and "0 < block_size h"
    and "wf2 ((B, T0), rows)" and "valid_tokens V rows" and "1 \<le> T0"
  shows "\<exists>rows' g'. generate R h m ((B, T0), rows) k g = Inr (((B, T0 + k), rows'), g')
     \<and> wf2 ((B, T0 + k), rows') \<and> map (take T0) rows' = rows
     \<and> (\<forall>j\<le>k. \<exists>rj gj. generate R h m ((B, T0), rows) j g = Inr (((B, T0 + j), rj), gj)
            \<and> map (take (T0 + j)) rows' = rj)"
proof -
  have e: "B = 0 \<longrightarrow> multinomial_empty_ok R" using assms(3) by simp
  note res = generate_result[OF assms(1,2) e assms(4-7)]
  from res[of k g] obtain rows' g' where
    r: "generate R h m ((B, T0), rows) k g = Inr (((B, T0 + k), rows'), g')"
    "wf2 ((B, T0 + k), rows')" "map (take T0) rows' = rows" by blast
  have "\<exists>rj gj. generate R h m ((B, T0), rows) j g = Inr (((B, T0 + j), rj), gj)
            \<and> map (take (T0 + j)) rows' = rj" if j: "j \<le> k" for j
  proof -
    from res[of j g] obtain rj gj where
      rj: "generate R h m ((B, T0), rows) j g = Inr (((B, T0 + j), rj), gj)"
      "wf2 ((B, T0 + j), rj)" "valid_tokens V rj" by blast
    from j have k: "k = j + (k - j)" by simp
    have "generate R h m ((B, T0 + j), rj) (k - j) gj = Inr (((B, T0 + k), rows'), g')"
      using r(1) generate_add[of R h m "((B, T0), rows)" j "k - j" g] j by (simp add: rj(1))
    from generate_inv[OF assms(1,2) this rj(2,3)] have "map (take (T0 + j)) rows' = rj" by auto
    with rj(1) show ?thesis by blast
  qed
  with r show ?thesis by blast
qed

text \<open>
  Two instances with the model as built (vocabulary of 65 tokens, context length 64) and
  three new tokens: a prompt of one row and two columns, and the prompt of an empty
  batch with two columns, which gives the tensor of shape (0, 5).
\<close>

theorem generate_shape_and_prompt_witness:
  "wf_gpt hyperparameters 65 model0 \<and> multinomial_ok rng0 \<and> multinomial_empty_ok rng0
   \<and> 0 < block_size hyperparameters
   \<and> wf2 ((1, 2), [[0, 1 :: int]]) \<and> valid_tokens 65 [[0, 1]] \<and> (1::nat) \<le> 2
   \<and> (\<exists>rows' g'. generate rng0 hyperparameters model0 ((1, 2), [[0, 1]]) 3 0
                     = Inr (((1, 5), rows'), g')
          \<and> wf2 ((1, 5), rows') \<and> map (take 2) rows' = [[0, 1]])
   \<and> wf2 ((0, 2), [] :: int list list) \<and> valid_tokens 65 []
   \<and> (\<exists>g'. generate rng0 hyperparameters model0 ((0, 2), []) 3 0 = Inr (((0, 5), []), g'))"
proof -
  have a: "wf2 ((1, 2), [[0, 1 :: int]])" by (simp add: wf2_def)
  have b: "valid_tokens 65 [[0, 1]]" by (simp add: valid_tokens_def valid_index_def)
  have c: "0 < block_size hyperparameters" by (simp add: hyperparameters_def)
  have a0: "wf2 ((0, 2), [] :: int list list)" by (simp add: wf2_def)
  have b0: "valid_tokens 65 []" by (simp add: valid_tokens_def)
  have e1: "(1::nat) = 0 \<longrightarrow> 0 < (65::nat) \<and> multinomial_empty_ok rng0" by simp
  have e0: "(0::nat) = 0 \<longrightarrow> 0 < (65::nat) \<and> multinomial_empty_ok rng0"
    by (simp add: rng0_empty_ok)
  from generate_shape_and_prompt[OF model0_wf rng0_ok e1 c a b, of 3 0]
  have 1: "\<exists>rows' g'. generate rng0 hyperparameters model0 ((1, 2), [[0, 1]]) 3 0
                     = Inr (((1, 5), rows'), g')
          \<and> wf2 ((1, 5), rows') \<and> map (take 2) rows' = [[0, 1]]"
    by auto
  from generate_shape_and_prompt[OF model0_wf rng0_ok e0 c a0 b0, of 3 0]
  obtain rows' g' where r: "generate rng0 hyperparameters model0 ((0, 2), []) 3 0
                     = Inr (((0, 2 + 3), rows'), g')" "wf2 ((0, 2 + 3), rows')"
    by auto
  from r(2) have "rows' = []" by (simp add: wf2_iff)
  with r(1) have 2: "\<exists>g'. generate rng0 hyperparameters model0 ((0, 2), []) 3 0
      = Inr (((0, 5), []), g')" by simp
  from 1 2 model0_wf rng0_ok rng0_empty_ok a b c a0 b0 show ?thesis by simp
qed

text \<open>
  C3 as stated fails for a prompt without columns: \<open>logits[:, -1, :]\<close> raises IndexError
  in the first step.
\<close>

theorem generate_empty_prompt_counterexample:
  "wf2 ((1, 0), [[] :: int list]) \<and> valid_tokens 65 [[]]
   \<and> generate rng0 hyperparameters model0 ((1, 0), [[]]) 1 0 = Inl IndexError"
proof -
  have a: "wf2 ((1, 0), [[] :: int list])" by (simp add: wf2_def)
  have b: "valid_tokens 65 [[]]" by (simp add: valid_tokens_def)
  from generate_empty_prompt[OF model0_wf a, of rng0 0 0] a b show ?thesis by simp
qed


section \<open>C4: a sequence longer than the context length\<close>

text \<open>
  C4. When the position embedding table has \<open>block_size\<close> rows, as the constructor
  builds it, the forward pass on a sequence of length T greater than \<open>block_size\<close>
  raises IndexError, with or without targets: the lookup of the positions 0 .. T - 1
  is out of range. No logits are returned.
\<close>

theorem forward_too_long_raises:
  assumes "num_embeddings (position_embedding_table m) = block_size h" and "block_size h < T"
  shows "GPTLanguageModel_forward R m ((B, T), rows) targets g = Inl IndexError"
  using assms by (simp add: forward_too_long)

theorem forward_too_long_raises_witness:
  "num_embeddings (position_embedding_table model0) = block_size hyperparameters
   \<and> block_size hyperparameters < 65
   \<and> GPTLanguageModel_forward rng0 model0 ((1, 65), [replicate 65 0]) None 0 = Inl IndexError"
proof -
  have a: "num_embeddings (position_embedding_table model0) = block_size hyperparameters"
    using model0_wf by (simp add: wf_gpt_def)
  have b: "block_size hyperparameters < 65" by (simp add: hyperparameters_def)
  show ?thesis
    using forward_too_long_raises[OF a b, of rng0 1 "[replicate 65 0]" None 0] a b by simp
qed


section \<open>C5: construction with a head count that does not divide the width\<close>

text \<open>
  C5, as amended. The constructors do not check that \<open>n_embed\<close> is divisible by
  \<open>n_head\<close>. Constructing a block raises exactly when the head count is zero (the
  division raises) or the dropout probability is outside [0, 1]; constructing the model
  raises exactly when it has at least one block and constructing a block raises. A block
  that is constructed has \<open>n_head\<close> heads of size \<open>n_embed div n_head\<close>, the floor of
  the quotient, and its projection reads \<open>(n_embed div n_head) * n_head\<close> channels.
\<close>

theorem construction_raises_iff:
  "(isl (Block_init R h ne nh g) \<longleftrightarrow> nh = 0 \<or> dropout h < 0 \<or> 1 < dropout h)
   \<and> (isl (GPTLanguageModel_init R h V g) \<longleftrightarrow>
        n_layer h \<noteq> 0 \<and> (n_head h = 0 \<or> dropout h < 0 \<or> 1 < dropout h))
   \<and> (\<forall>b g'. Block_init R h ne nh g = Inr (b, g') \<longrightarrow>
        length (heads (sa b)) = nh
        \<and> list_all (\<lambda>a. out_features (key a) = ne div nh \<and> out_features (query a) = ne div nh
              \<and> out_features (val a) = ne div nh) (heads (sa b))
        \<and> in_features (proj (sa b)) = (ne div nh) * nh)"
  using Block_init_head_size[of R h ne nh g]
  by (simp only: Block_init_isl GPTLanguageModel_init_isl) blast

theorem construction_raises_iff_witness:
  "\<not> isl (Block_init rng0 hyperparameters 10 3 0)
   \<and> length (heads (sa block_10_3)) = 3
   \<and> list_all (\<lambda>a. out_features (key a) = 3 \<and> out_features (query a) = 3
         \<and> out_features (val a) = 3) (heads (sa block_10_3))
   \<and> in_features (proj (sa block_10_3)) = 9"
proof -
  have n: "\<not> isl (Block_init rng0 hyperparameters 10 3 0)"
    by (simp add: Block_init_isl hyperparameters_def)
  then have e: "Block_init rng0 hyperparameters 10 3 0
      = Inr (block_10_3, snd (projr (Block_init rng0 hyperparameters 10 3 0)))"
    by (cases "Block_init rng0 hyperparameters 10 3 0") (auto simp: block_10_3_def)
  from construction_raises_iff[of rng0 hyperparameters 10 3 0]
  have "\<forall>b g'. Block_init rng0 hyperparameters 10 3 0 = Inr (b, g') \<longrightarrow>
        length (heads (sa b)) = 3
        \<and> list_all (\<lambda>a. out_features (key a) = 10 div 3 \<and> out_features (query a) = 10 div 3
              \<and> out_features (val a) = 10 div 3) (heads (sa b))
        \<and> in_features (proj (sa b)) = (10 div 3) * 3"
    by blast
  with e have "length (heads (sa block_10_3)) = 3
        \<and> list_all (\<lambda>a. out_features (key a) = 10 div 3 \<and> out_features (query a) = 10 div 3
              \<and> out_features (val a) = 10 div 3) (heads (sa block_10_3))
        \<and> in_features (proj (sa block_10_3)) = (10 div 3) * 3"
    by blast
  with n show ?thesis by simp
qed

text \<open>
  C5 as stated fails: with a width of 10 and 3 heads, neither the block nor the model
  raises at construction.
\<close>

theorem construction_indivisible_counterexample:
  "(10::nat) mod 3 \<noteq> 0 \<and>
   \<not> isl (Block_init rng0 hyperparameters 10 3 0) \<and>
   \<not> isl (GPTLanguageModel_init rng0 (hyperparameters\<lparr>n_embed := 10, n_head := 3\<rparr>) 65 0)"
  by (simp add: Block_init_isl GPTLanguageModel_init_isl hyperparameters_def)
section \<open>C6: the block is post-normalized\<close>

text \<open>
  C6. For a block with the shapes of the constructor, in training or in evaluation
  mode, and an input \<open>x\<close> of shape (B, T, ne) with T at most the context length: the
  forward pass first calls the attention on \<open>x\<close>, which returns a tensor \<open>y\<close> of the
  same shape; it then calls the feed-forward network on \<open>x' = LayerNorm1 (x + y)\<close>, from
  the generator state that the attention left, which returns \<open>y'\<close>; and it returns
  \<open>x'' = LayerNorm2 (x' + y')\<close>: each normalization is applied to the sum of the input
  and the output of a sub-layer, in that order. With dropout disabled the sub-layers draw
  nothing and the result is given, on every batch element, by \<open>Block_spec\<close>, which is
  the same composition of the sub-layers' formulas.
\<close>

theorem Block_forward_post_norm:
  assumes "wf_block ne nh hs bs b" and "wf3 ((B, T, ne), x)" and "T \<le> bs"
  shows "(\<exists>y g1 x' y' g2.
        MultiHeadAttention_forward R (sa b) ((B, T, ne), x) g = Inr (((B, T, ne), y), g1)
      \<and> x' = map (LayerNorm_spec (ln1 b)) (map2 madd x y)
      \<and> FeedForward_forward R (ffwd b) ((B, T, ne), x') g1 = Inr (((B, T, ne), y'), g2)
      \<and> Block_forward R b ((B, T, ne), x) g
          = Inr (((B, T, ne), map (LayerNorm_spec (ln2 b)) (map2 madd x' y')), g2))
     \<and> (Block_eval b \<longrightarrow>
          Block_forward R b ((B, T, ne), x) g = Inr (((B, T, ne), map (Block_spec b) x), g))
     \<and> (\<forall>u. Block_spec b u =
           LayerNorm_spec (ln2 b)
             (madd (LayerNorm_spec (ln1 b) (madd u (MultiHeadAttention_spec (sa b) u)))
                (FeedForward_spec (ffwd b)
                   (LayerNorm_spec (ln1 b) (madd u (MultiHeadAttention_spec (sa b) u))))))"
  using Block_forward_steps[OF assms(1,3,2), of R g] Block_forward_eval[OF assms(1,3,2), of R g]
  by (simp add: Block_spec_def Let_def)

text \<open>
  Two instances: the first block of the model as built, which is in training mode with
  dropout 0.2, and the first block of the model built with dropout 0.
\<close>

theorem Block_forward_post_norm_witness:
  "wf_block 384 8 48 64 block_built0 \<and> \<not> Block_eval block_built0
   \<and> wf_block 384 8 48 64 block0 \<and> Block_eval block0
   \<and> wf3 ((1, 2, 384), [[replicate 384 (0::real), replicate 384 1]]) \<and> (2::nat) \<le> 64
   \<and> (\<exists>y g1 x' y' g2.
        MultiHeadAttention_forward rng0 (sa block_built0)
            ((1, 2, 384), [[replicate 384 0, replicate 384 1]]) 0
          = Inr (((1, 2, 384), y), g1)
      \<and> x' = map (LayerNorm_spec (ln1 block_built0))
                (map2 madd [[replicate 384 0, replicate 384 1]] y)
      \<and> FeedForward_forward rng0 (ffwd block_built0) ((1, 2, 384), x') g1
          = Inr (((1, 2, 384), y'), g2)
      \<and> Block_forward rng0 block_built0 ((1, 2, 384), [[replicate 384 0, replicate 384 1]]) 0
          = Inr (((1, 2, 384), map (LayerNorm_spec (ln2 block_built0)) (map2 madd x' y')), g2))
   \<and> Block_forward rng0 block0 ((1, 2, 384), [[replicate 384 0, replicate 384 1]]) 0
        = Inr (((1, 2, 384), [Block_spec block0 [replicate 384 0, replicate 384 1]]), 0)"
proof -
  have x: "wf3 ((1, 2, 384), [[replicate 384 (0::real), replicate 384 1]])"
    by (simp add: wf3_def)
  have c: "(2::nat) \<le> 64" by simp
  note t = Block_forward_post_norm[OF block_built0_wf(1) x c, of rng0 0]
  note e = Block_forward_post_norm[OF block0_wf(1) x c, of rng0 0]
  from e block0_wf(2) have
    "Block_forward rng0 block0 ((1, 2, 384), [[replicate 384 0, replicate 384 1]]) 0
        = Inr (((1, 2, 384), [Block_spec block0 [replicate 384 0, replicate 384 1]]), 0)"
    by simp
  with conjunct1[OF t] block_built0_wf block0_wf x c show ?thesis by blast
qed


section \<open>C7: the attention head\<close>

text \<open>
  C7. For a head with the shapes of the constructor (three linear maps without bias from
  width \<open>ne\<close> to the head size \<open>hs\<close>, a mask for context length \<open>bs\<close>), with dropout
  disabled, and an input of shape (B, T, ne) with T at most \<open>bs\<close>: the forward pass
  returns, without drawing from the generator, a tensor of shape (B, T, hs) whose batch
  elements are given by \<open>Head_spec\<close>: the scores are the dot products of query and key
  divided by the square root of the head size, minus infinity for \<open>j > i\<close>, each row is
  normalized by softmax, and the output at \<open>i\<close> is the sum over \<open>j\<close> of the probability
  times the value vector. The entries are real numbers.
\<close>

theorem Head_forward_formula:
  assumes "wf_head ne hs bs a" and "Head_eval a" and "wf3 ((B, T, ne), d)" and "T \<le> bs"
  shows "Head_forward R a ((B, T, ne), d) g = Inr (((B, T, hs), map (Head_spec a) d), g)
     \<and> wf3 ((B, T, hs), map (Head_spec a) d)"
  using Head_forward_eval[OF assms(1,4,3,2), of R g] Head_forward_any[OF assms(1,4,3), of R g]
  by auto

theorem Head_forward_formula_witness:
  "wf_head 2 1 2 head0 \<and> Head_eval head0 \<and> wf3 ((1, 2, 2), [[[1, 0], [0, 1 :: real]]]) \<and> (2::nat) \<le> 2
   \<and> Head_forward rng0 head0 ((1, 2, 2), [[[1, 0], [0, 1]]]) 0
        = Inr (((1, 2, 1), [[[1], [1 / 2]]]), 0)"
proof -
  have x: "wf3 ((1, 2, 2), [[[1, 0], [0, 1 :: real]]])" by (simp add: wf3_def)
  show ?thesis
    using Head_forward_formula[OF head0_wf(1) head0_wf(2) x, of rng0 0] head0_wf x
    by (simp add: Head_spec_head0)
qed


section \<open>C8: determinism\<close>

text \<open>
  C8. With dropout disabled, the forward pass draws nothing from the generator: for
  every generator and every state it returns the same logits and loss, and the state it
  was given; so two calls on the same input return the same logits, whatever was drawn
  in between. \<open>generate\<close> is a function of the model, the prompt, the number of tokens,
  the generator and its state, so that two calls from the state that one seed sets
  return the same sequence; with dropout disabled it depends on the generator through
  the sampling function only. The entries are real numbers: the rounding of the
  library's kernels is not part of the statement.
\<close>

theorem forward_generate_deterministic:
  assumes "gpt_eval m"
  shows "GPTLanguageModel_forward R m idx tg g
           = with_state g (GPTLanguageModel_forward R' m idx tg g')
     \<and> (multinomial R' = multinomial R \<longrightarrow>
           generate R' h m idx k g = generate R h m idx k g)"
  using GPTLanguageModel_forward_pure[OF assms, of R idx tg g R' g'] generate_pure[OF assms, of R' R]
  by simp

theorem forward_generate_deterministic_witness:
  "gpt_eval model_eval0
   \<and> GPTLanguageModel_forward rng0 model_eval0 ((1, 2), [[0, 1]]) None 0
       = with_state 0
           (GPTLanguageModel_forward (rng0\<lparr>rand := \<lambda>g. (0, g + 2)\<rparr>) model_eval0
              ((1, 2), [[0, 1]]) None 7)
   \<and> multinomial (rng0\<lparr>rand := \<lambda>g. (0, g + 2)\<rparr>) = multinomial rng0
   \<and> generate (rng0\<lparr>rand := \<lambda>g. (0, g + 2)\<rparr>) hyperparameters model_eval0
         ((1, 2), [[0, 1]]) 2 0
       = generate rng0 hyperparameters model_eval0 ((1, 2), [[0, 1]]) 2 0"
  using forward_generate_deterministic[OF model_eval0_wf(2),
      of rng0 "((1, 2), [[0, 1]])" None 0 "rng0\<lparr>rand := \<lambda>g. (0, g + 2)\<rparr>" 7
         hyperparameters 2]
    model_eval0_wf(2)
  by simp
section \<open>C9: targets of another shape\<close>

text \<open>
  C9, as amended. For a model with the shapes of the constructor and a valid index
  tensor of shape (B, T) with T at most the context length, the forward pass with a
  targets tensor raises RuntimeError exactly when \<open>targets.view(B * T)\<close> does: when
  the number of entries of the targets differs from B * T, or when it is B * T and not
  zero and the strides of the targets do not allow a flat view (as for the transpose of a
  contiguous matrix with at least two rows and two columns). In every other case the
  targets, whatever their shape, are flattened in row-major order, so that the call
  returns what it returns for the contiguous targets of shape (B, T) with the same
  entries in that order.
\<close>

theorem forward_targets_flattened:
  assumes "wf_gpt h V m" and "wf2 ((B, T), rows)" and "valid_tokens V rows"
    and "T \<le> block_size h"
  shows "(\<not> (prod_list s = B * T \<and> (B * T = 0 \<or> flat_viewable s st)) \<longrightarrow>
            GPTLanguageModel_forward R m ((B, T), rows) (Some (s, st, flat)) g = Inl RuntimeError)
     \<and> (prod_list s = B * T \<and> (B * T = 0 \<or> flat_viewable s st) \<longrightarrow>
            GPTLanguageModel_forward R m ((B, T), rows) (Some (s, st, flat)) g
              = GPTLanguageModel_forward R m ((B, T), rows) (Some ([B, T], [T, 1], flat)) g)"
proof (cases "prod_list s = B * T \<and> (B * T = 0 \<or> flat_viewable s st)")
  case True
  note forward_view[OF assms, of R s st flat g, unfolded if_P[OF True]]
  with True show ?thesis by blast
next
  case False
  note forward_view[OF assms, of R s st flat g, unfolded if_not_P[OF False]]
  with False show ?thesis by blast
qed

text \<open>
  Three instances with the model as built and an index tensor of shape (1, 2): targets
  with three entries raise; contiguous targets of shape (2, 1) give what the targets of
  shape (1, 2) give; and for an index tensor of shape (2, 2), targets that are the
  transpose of a contiguous matrix, of shape (2, 2) and strides (1, 2), raise.
\<close>

theorem forward_targets_flattened_witness:
  "wf_gpt hyperparameters 65 model0 \<and> wf2 ((1, 2), [[0, 1 :: int]]) \<and> valid_tokens 65 [[0, 1]]
   \<and> wf2 ((2, 2), [[0, 1], [1, 0 :: int]]) \<and> valid_tokens 65 [[0, 1], [1, 0]]
   \<and> 2 \<le> block_size hyperparameters
   \<and> GPTLanguageModel_forward rng0 model0 ((1, 2), [[0, 1]]) (Some ([3], [1], [1, 0, 1])) 0
        = Inl RuntimeError
   \<and> GPTLanguageModel_forward rng0 model0 ((1, 2), [[0, 1]]) (Some ([2, 1], [1, 1], [1, 0])) 0
        = GPTLanguageModel_forward rng0 model0 ((1, 2), [[0, 1]]) (Some ([1, 2], [2, 1], [1, 0])) 0
   \<and> GPTLanguageModel_forward rng0 model0 ((2, 2), [[0, 1], [1, 0]])
        (Some ([2, 2], [1, 2], [1, 0, 0, 1])) 0 = Inl RuntimeError"
proof -
  have a: "wf2 ((1, 2), [[0, 1 :: int]])" by (simp add: wf2_def)
  have b: "valid_tokens 65 [[0, 1]]" by (simp add: valid_tokens_def valid_index_def)
  have a2: "wf2 ((2, 2), [[0, 1], [1, 0 :: int]])" by (simp add: wf2_def)
  have b2: "valid_tokens 65 [[0, 1], [1, 0]]" by (simp add: valid_tokens_def valid_index_def)
  have c: "2 \<le> block_size hyperparameters" by (simp add: hyperparameters_def)
  show ?thesis
    using forward_targets_flattened[OF model0_wf a b c, of "[3]" "[1]" rng0 "[1, 0, 1]" 0]
      forward_targets_flattened[OF model0_wf a b c, of "[2, 1]" "[1, 1]" rng0 "[1, 0]" 0]
      forward_targets_flattened[OF model0_wf a2 b2 c, of "[2, 2]" "[1, 2]" rng0 "[1, 0, 0, 1]" 0]
      model0_wf a b a2 b2 c
    by (simp add: flat_viewable_def)
qed

text \<open>
  C9 as stated fails: for an index tensor of shape (1, 2), contiguous targets of shape
  (2, 1) do not match, and the forward pass returns logits and a loss.
\<close>

theorem forward_targets_mismatch_counterexample:
  "[2, 1 :: nat] \<noteq> [1, 2]
   \<and> (case GPTLanguageModel_forward rng0 model0 ((1, 2), [[0, 1]])
             (Some ([2, 1], [1, 1], [1, 0])) 0 of
        Inl e \<Rightarrow> False
      | Inr ((lg, l), g) \<Rightarrow> (case l of Some (Loss r) \<Rightarrow> 0 \<le> r | _ \<Rightarrow> False))"
proof -
  have a: "wf2 ((1, 2), [[0, 1 :: int]])" by (simp add: wf2_def)
  have b: "valid_tokens 65 [[0, 1]]" by (simp add: valid_tokens_def valid_index_def)
  have c: "2 \<le> block_size hyperparameters" by (simp add: hyperparameters_def)
  from forward_result[OF model0_wf a b c, of rng0 0]
  obtain lg g' where lg:
    "\<And>st flat. length flat = 1 * 2 \<and> list_all (valid_index 65) flat \<Longrightarrow>
       (if (1::nat) * 2 = 0 \<or> flat_viewable [1, 2] st
        then \<exists>l. GPTLanguageModel_forward rng0 model0 ((1, 2), [[0, 1]]) (Some ([1, 2], st, flat)) 0
                    = Inr ((Logits2 ((1 * 2, 65), concat lg), Some l), g')
                 \<and> (if (1::nat) * 2 = 0 then l = NaN else \<exists>r. l = Loss r \<and> 0 \<le> r)
        else GPTLanguageModel_forward rng0 model0 ((1, 2), [[0, 1]]) (Some ([1, 2], st, flat)) 0
               = Inl RuntimeError)"
    by blast
  have "length [1, 0 :: int] = 1 * 2 \<and> list_all (valid_index 65) [1, 0]"
    by (simp add: valid_index_def)
  from lg[OF this, of "[2, 1]"] obtain l where l:
    "GPTLanguageModel_forward rng0 model0 ((1, 2), [[0, 1]]) (Some ([1, 2], [2, 1], [1, 0])) 0
       = Inr ((Logits2 ((1 * 2, 65), concat lg), Some l), g')"
    "\<exists>r. l = Loss r \<and> 0 \<le> r"
    by (auto simp: flat_viewable_def)
  from l(2) obtain r where r: "l = Loss r" "0 \<le> r" by auto
  have "GPTLanguageModel_forward rng0 model0 ((1, 2), [[0, 1]]) (Some ([2, 1], [1, 1], [1, 0])) 0
      = Inr ((Logits2 ((1 * 2, 65), concat lg), Some (Loss r)), g')"
    using forward_view[OF model0_wf a b c, of rng0 "[2, 1]" "[1, 1]" "[1, 0]" 0] l(1) r(1)
    by (simp add: flat_viewable_def)
  with r(2) show ?thesis by simp
qed


section \<open>C10: generated tokens are in the vocabulary\<close>

text \<open>
  C10. For a model with the shapes of the constructor and a sampling function that
  keeps its contract: when \<open>generate\<close> returns for a prompt whose tokens are in
  [0, vocab_size), every token of the returned sequence is in [0, vocab_size); and with
  \<open>max_new_tokens = 0\<close> it returns the prompt and the generator state unchanged.
\<close>

theorem generate_tokens_valid:
  assumes "wf_gpt h V m" and "multinomial_ok R"
    and "wf2 ((B, T0), rows)" and "valid_tokens V rows"
    and "generate R h m ((B, T0), rows) k g = Inr ((s, rows'), g')"
  shows "valid_tokens V rows' \<and> s = (B, T0 + k)
     \<and> generate R h m ((B, T0), rows) 0 g = Inr (((B, T0), rows), g)"
  using generate_inv[OF assms(1,2,5,3,4)] by auto

theorem generate_tokens_valid_witness:
  "wf_gpt hyperparameters 65 model0 \<and> multinomial_ok rng0
   \<and> wf2 ((1, 2), [[0, 1 :: int]]) \<and> valid_tokens 65 [[0, 1]]
   \<and> (\<exists>g'. generate rng0 hyperparameters model0 ((1, 2), [[0, 1]]) 2 0
              = Inr (((1, 4), [[0, 1, 0, 0]]), g'))
   \<and> valid_tokens 65 [[0, 1, 0, 0]]"
proof -
  have c: "0 < block_size hyperparameters" by (simp add: hyperparameters_def)
  have a: "wf2 ((1, 2), [[0, 1 :: int]])" by (simp add: wf2_def)
  have b: "valid_tokens 65 [[0, 1]]" by (simp add: valid_tokens_def valid_index_def)
  from rng0_step[OF model0_wf a b _ c, of 0] obtain g1 where
    s1: "generate_step rng0 hyperparameters model0 ((1, 2), [[0, 1]]) 0
           = Inr (((1, 3), [[0, 1, 0]]), g1)" by auto
  have a1: "wf2 ((1, 3), [[0, 1, 0 :: int]])" by (simp add: wf2_def)
  have b1: "valid_tokens 65 [[0, 1, 0]]" by (simp add: valid_tokens_def valid_index_def)
  from rng0_step[OF model0_wf a1 b1 _ c, of g1] obtain g2 where
    s2: "generate_step rng0 hyperparameters model0 ((1, 3), [[0, 1, 0]]) g1
           = Inr (((1, 4), [[0, 1, 0, 0]]), g2)" by auto
  have "generate rng0 hyperparameters model0 ((1, 2), [[0, 1]]) (Suc (Suc 0)) 0
      = Inr (((1, 4), [[0, 1, 0, 0]]), g2)"
    by (simp only: generate.simps s1 s2 bindE_simps prod.case)
  then have g: "generate rng0 hyperparameters model0 ((1, 2), [[0, 1]]) 2 0
      = Inr (((1, 4), [[0, 1, 0, 0]]), g2)"
    by (simp add: numeral_2_eq_2)
  from generate_tokens_valid[OF model0_wf rng0_ok a b g] model0_wf rng0_ok a b g
  show ?thesis by blast
qed

end
